(* ===== verification/Prelude.thy ===== *)
theory Prelude
  imports Main "HOL-Library.AList" "HOL-Library.Multiset"
begin

text \<open>
  Shared vocabulary of the development: the names of the model's basic types, the
  JavaScript truthiness test the handlers of \<open>src/app.js\<close> use on request fields and
  session fields, the lemma collections the component theories add to, and generic
  lemmas on \<open>List.find\<close> and on insertion-ordered association lists
  (\<open>AList.update\<close>), which model both a JavaScript \<open>Map\<close> and the own properties
  of a plain JavaScript object.
\<close>

type_synonym path = string
type_synonym sid = nat
type_synonym ms = nat

named_theorems handler_defs "unfolding equations of the request handlers"
named_theorems eval_simps "definitions unfolded to evaluate the model on concrete inputs"

subsection \<open>JavaScript truthiness\<close>

text \<open>
  A request body field or a session field holds a string or \<open>undefined\<close>/\<open>null\<close>
  (\<open>None\<close>). \<open>if (x)\<close> in JavaScript is false for \<open>undefined\<close>, \<open>null\<close> and the
  empty string.
\<close>

definition truthy :: "string option \<Rightarrow> bool" where
  "truthy v = (case v of None \<Rightarrow> False | Some s \<Rightarrow> s \<noteq> [])"

definition or_empty :: "string option \<Rightarrow> string" where
  \<comment> \<open>\<open>x || ''\<close> for a string-or-undefined \<open>x\<close>\<close>
  "or_empty v = (if truthy v then the v else [])"

text \<open>
  A session field that distinguishes an absent key (\<open>undefined\<close>, left out of the
  session's JSON) from \<open>null\<close> (written out). \<open>defined_value\<close> is what a template sees.
\<close>

datatype 'a nullable = Undefined | Null | Defined 'a

definition defined_value :: "'a nullable \<Rightarrow> 'a option" where
  "defined_value v = (case v of Defined x \<Rightarrow> Some x | _ \<Rightarrow> None)"

lemma truthy_None [simp]: "\<not> truthy None"
  by (simp add: truthy_def)

lemma truthy_Some [simp]: "truthy (Some s) \<longleftrightarrow> s \<noteq> []"
  by (simp add: truthy_def)

lemma truthyE [elim]:
  assumes "truthy v"
  obtains s where "v = Some s" and "s \<noteq> []"
  using assms by (cases v) auto

lemma or_empty_Some [simp]: "or_empty (Some s) = s"
  by (simp add: or_empty_def)

lemma or_empty_None [simp]: "or_empty None = []"
  by (simp add: or_empty_def)

subsection \<open>First match of \<open>Array.prototype.find\<close>\<close>

lemma find_SomeD:
  assumes "List.find P xs = Some x"
  shows "P x" and "x \<in> set xs"
  using assms by (auto simp: find_Some_iff)

lemma find_append_first:
  "List.find P xs = Some x \<Longrightarrow> List.find P (xs @ ys) = Some x"
  by (induction xs) auto

lemma find_Cons_match [simp]:
  "P x \<Longrightarrow> List.find P (x # xs) = Some x"
  by simp

subsection \<open>Insertion-ordered maps\<close>

text \<open>
  \<open>AList.update k v al\<close> overwrites the value of an existing key in place and appends a
  new key at the end: exactly \<open>Map.prototype.set\<close> and a property assignment on an
  ordinary object, whose key orders are insertion orders.
\<close>

lemma alist_update_new:
  "k \<notin> fst ` set al \<Longrightarrow> AList.update k v al = al @ [(k, v)]"
  by (induction al) auto

lemma alist_keys_update_new [simp]:
  "k \<notin> fst ` set al \<Longrightarrow> map fst (AList.update k v al) = map fst al @ [k]"
  by (simp add: alist_update_new)

lemma alist_keys_update_old [simp]:
  "k \<in> fst ` set al \<Longrightarrow> map fst (AList.update k v al) = map fst al"
  by (simp add: AList.update_keys)

lemma map_of_None_keys: "map_of al k = None \<longleftrightarrow> k \<notin> fst ` set al"
  by (simp add: map_of_eq_None_iff)

text \<open>\<open>map_of (al @ [(k, v)])\<close> in the form the simplifier leaves it (\<open>map_of_append\<close>).\<close>

lemma map_add_singleton_new:
  "m k = None \<Longrightarrow> [k \<mapsto> v] ++ m = m(k \<mapsto> v)"
  by (auto simp: fun_eq_iff map_add_def split: option.splits)

declare truthy_def [eval_simps] or_empty_def [eval_simps] Let_def [eval_simps]
  defined_value_def [eval_simps]

lemmas alist_simps = AList.update_conv' AList.distinct_update map_of_None_keys

subsection \<open>Stable sorting\<close>

text \<open>
  A stable sort by a key under which one class of elements ranks below a constant and
  the rest at it sorts the first class and keeps the rest in order after it; and a sort
  depends on its key only on the elements sorted.
\<close>

lemma sort_key_partition:
  assumes below: "\<And>x. P x \<Longrightarrow> f x < c" and above: "\<And>x. \<not> P x \<Longrightarrow> f x = c"
  shows "sort_key f xs = sort_key f (filter P xs) @ filter (\<lambda>x. \<not> P x) xs"
proof (rule properties_for_sort_key)
  show "mset (sort_key f (filter P xs) @ filter (\<lambda>x. \<not> P x) xs) = mset xs"
    by simp
next
  fix k assume "k \<in> set (sort_key f (filter P xs) @ filter (\<lambda>x. \<not> P x) xs)"
  show "filter (\<lambda>x. f k = f x) (sort_key f (filter P xs) @ filter (\<lambda>x. \<not> P x) xs) =
        filter (\<lambda>x. f k = f x) xs"
  proof (cases "P k")
    case True
    then have "\<not> P x \<Longrightarrow> f k \<noteq> f x" for x using below above by (metis less_irrefl)
    then have "filter (\<lambda>x. f k = f x) xs = filter (\<lambda>x. f k = f x) (filter P xs)"
      by (induction xs) auto
    moreover have "filter (\<lambda>x. f k = f x) (filter (\<lambda>x. \<not> P x) xs) = []"
      using \<open>\<And>x. \<not> P x \<Longrightarrow> f k \<noteq> f x\<close> by (auto simp: filter_empty_conv)
    ultimately show ?thesis
      using sort_key_stable [of f "f k" "filter P xs"] by (simp add: eq_commute [of "f k"])
  next
    case False
    then have fk: "f k = c" by (rule above)
    then have "P x \<Longrightarrow> f k \<noteq> f x" for x using below by (metis less_irrefl)
    then have "filter (\<lambda>x. f k = f x) (sort_key f (filter P xs)) = []"
      by (simp add: filter_empty_conv)
    moreover have "filter (\<lambda>x. f k = f x) xs = filter (\<lambda>x. f k = f x) (filter (\<lambda>x. \<not> P x) xs)"
      using \<open>\<And>x. P x \<Longrightarrow> f k \<noteq> f x\<close> by (induction xs) auto
    ultimately show ?thesis by simp
  qed
next
  have "sorted (map f (sort_key f (filter P xs)))" by simp
  moreover have "\<forall>x \<in> set (sort_key f (filter P xs)). \<forall>y \<in> set (filter (\<lambda>x. \<not> P x) xs). f x \<le> f y"
    using below above by (auto intro: less_imp_le)
  moreover have "sorted (map f (filter (\<lambda>x. \<not> P x) xs))"
    using above by (induction xs) auto
  ultimately show "sorted (map f (sort_key f (filter P xs) @ filter (\<lambda>x. \<not> P x) xs))"
    by (auto simp: sorted_append)
qed

lemma sort_key_cong_set:
  "(\<And>x. x \<in> set xs \<Longrightarrow> f x = g x) \<Longrightarrow> sort_key f xs = sort_key g xs"
proof (induction xs)
  case (Cons a xs)
  have "insort_key f a ys = insort_key g a ys" if "\<forall>y \<in> insert a (set xs). f y = g y" "set ys \<subseteq> set xs" for ys
    using that by (induction ys) auto
  with Cons show ?case by (simp add: set_sort)
qed simp

end
