(* ===== verification/JsObject.thy ===== *)
theory JsObject
  imports Prelude
begin

text \<open>
  The order in which \<open>Object.keys\<close> lists the own properties of an ordinary JavaScript
  object (ECMAScript, OrdinaryOwnPropertyKeys): first the keys that are \<^emph>\<open>array
  indices\<close> (canonical decimal numerals below \<open>2^32 - 1\<close>) in ascending numeric order,
  then the other string keys in the order they were created. \<open>src/app.js\<close> line 97
  derives the table's column list as \<open>Object.keys(rows[0])\<close> of a row object that
  better-sqlite3 builds by assigning the columns in schema order; this theory holds the
  decimal conversions, the array-index test, the object model and \<open>Object.keys\<close>.
\<close>

subsection \<open>Decimal numerals\<close>

definition digit_char :: "nat \<Rightarrow> char" where
  "digit_char d = ''0123456789'' ! d"

definition is_digit :: "char \<Rightarrow> bool" where
  "is_digit c \<longleftrightarrow> 48 \<le> (of_char c :: nat) \<and> (of_char c :: nat) \<le> 57"

definition digit_val :: "char \<Rightarrow> nat" where
  "digit_val c = (of_char c :: nat) - 48"

fun nat_to_dec :: "nat \<Rightarrow> string" where
  "nat_to_dec n =
     (if n < 10 then [digit_char n] else nat_to_dec (n div 10) @ [digit_char (n mod 10)])"

declare nat_to_dec.simps [simp del]

fun dec_acc :: "nat \<Rightarrow> string \<Rightarrow> nat option" where
  "dec_acc n [] = Some n"
| "dec_acc n (c # cs) = (if is_digit c then dec_acc (10 * n + digit_val c) cs else None)"

definition dec_to_nat :: "string \<Rightarrow> nat option" where
  "dec_to_nat s = (if s = [] then None else dec_acc 0 s)"

text \<open>The largest array index is \<open>2^32 - 2\<close>; \<open>2^32 - 1\<close> is an ordinary key.\<close>

definition array_index_bound :: nat where
  "array_index_bound = 2 ^ 32 - 1"

definition is_array_index :: "string \<Rightarrow> bool" where
  "is_array_index s =
     (case dec_to_nat s of None \<Rightarrow> False | Some n \<Rightarrow> n < array_index_bound \<and> nat_to_dec n = s)"

definition index_of :: "string \<Rightarrow> nat" where
  "index_of s = (case dec_to_nat s of None \<Rightarrow> 0 | Some n \<Rightarrow> n)"

subsection \<open>Objects and \<open>Object.keys\<close>\<close>

text \<open>
  An object's own enumerable data properties, in creation order; an assignment
  \<open>o[k] = v\<close> overwrites an existing property in place and creates a new one at the end.
\<close>

type_synonym 'v js_object = "(string \<times> 'v) list"

definition obj_set :: "'v js_object \<Rightarrow> string \<Rightarrow> 'v \<Rightarrow> 'v js_object" where
  "obj_set obj k v = AList.update k v obj"

definition object_keys :: "'v js_object \<Rightarrow> string list" where
  "object_keys obj =
     (let ks = map fst obj
      in sort_key index_of (filter is_array_index ks) @ filter (\<lambda>k. \<not> is_array_index k) ks)"

text \<open>
  The order of ECMAScript's \<open>OrdinaryOwnPropertyKeys\<close> as one ranking: an array index
  ranks by its numeric value, every other string key after all of them, ties kept in
  creation order.
\<close>

definition key_rank :: "string \<Rightarrow> nat" where
  "key_rank k = (if is_array_index k then index_of k else array_index_bound)"

text \<open>An object built by assigning the given properties one after the other.\<close>

definition build_object :: "(string \<times> 'v) list \<Rightarrow> 'v js_object" where
  "build_object kvs = foldl (\<lambda>obj (k, v). obj_set obj k v) [] kvs"

declare is_digit_def [eval_simps] digit_val_def [eval_simps] digit_char_def [eval_simps]
  dec_to_nat_def [eval_simps] is_array_index_def [eval_simps] index_of_def [eval_simps]
  array_index_bound_def [eval_simps] obj_set_def [eval_simps] object_keys_def [eval_simps]
  build_object_def [eval_simps] nat_to_dec.simps [eval_simps]

subsection \<open>Decimal round trip\<close>

lemma digit_char_props:
  assumes "d < 10"
  shows "is_digit (digit_char d)" and "digit_val (digit_char d) = d"
proof -
  from assms have "d \<in> {0, 1, 2, 3, 4, 5, 6, 7, 8, 9}" by auto
  then show "is_digit (digit_char d)" and "digit_val (digit_char d) = d"
    by (auto simp: digit_char_def is_digit_def digit_val_def)
qed

lemma dec_acc_append:
  "dec_acc n (xs @ ys) = (case dec_acc n xs of None \<Rightarrow> None | Some m \<Rightarrow> dec_acc m ys)"
  by (induction n xs rule: dec_acc.induct) auto

lemma nat_to_dec_step:
  "\<not> n < 10 \<Longrightarrow> nat_to_dec n = nat_to_dec (n div 10) @ [digit_char (n mod 10)]"
  by (simp add: nat_to_dec.simps)

lemma nat_to_dec_small: "n < 10 \<Longrightarrow> nat_to_dec n = [digit_char n]"
  by (simp add: nat_to_dec.simps)

lemma dec_acc_nat_to_dec:
  "dec_acc a (nat_to_dec n) = Some (a * 10 ^ length (nat_to_dec n) + n)"
proof (induction n arbitrary: a rule: nat_to_dec.induct)
  case (1 n)
  show ?case
  proof (cases "n < 10")
    case True
    then show ?thesis by (simp add: nat_to_dec_small digit_char_props)
  next
    case False
    let ?m = "n div 10"
    have IH: "dec_acc a (nat_to_dec ?m) = Some (a * 10 ^ length (nat_to_dec ?m) + ?m)"
      using "1" False by simp
    have d: "digit_val (digit_char (n mod 10)) = n mod 10" and
      isd: "is_digit (digit_char (n mod 10))"
      by (simp_all add: digit_char_props)
    have "10 * (a * 10 ^ length (nat_to_dec ?m) + ?m) + n mod 10
        = a * 10 ^ Suc (length (nat_to_dec ?m)) + n"
      by (simp add: algebra_simps)
    then show ?thesis
      using IH d isd False by (simp add: nat_to_dec_step dec_acc_append)
  qed
qed

lemma nat_to_dec_nonempty [simp]: "nat_to_dec n \<noteq> []"
  by (cases "n < 10") (simp_all add: nat_to_dec_small nat_to_dec_step)

lemma dec_to_nat_nat_to_dec [simp]: "dec_to_nat (nat_to_dec n) = Some n"
  by (simp add: dec_to_nat_def dec_acc_nat_to_dec)



lemma index_of_nat_to_dec [simp]: "index_of (nat_to_dec n) = n"
  by (simp add: index_of_def)

subsection \<open>Properties of \<open>Object.keys\<close>\<close>

lemma set_object_keys: "set (object_keys obj) = fst ` set obj"
  by (auto simp: object_keys_def Let_def)

lemma distinct_object_keys:
  "distinct (map fst obj) \<Longrightarrow> distinct (object_keys obj)"
  by (auto simp: object_keys_def Let_def)

lemma object_keys_no_index:
  "\<forall>k \<in> fst ` set obj. \<not> is_array_index k \<Longrightarrow> object_keys obj = map fst obj"
  by (simp add: object_keys_def filter_empty_conv filter_id_conv)

lemma build_object_acc:
  "distinct (map fst (acc @ kvs)) \<Longrightarrow>
   foldl (\<lambda>obj (k, v). obj_set obj k v) acc kvs = acc @ kvs"
proof (induction kvs arbitrary: acc)
  case Nil
  then show ?case by simp
next
  case (Cons kv kvs)
  obtain k v where kv: "kv = (k, v)" by (cases kv)
  with Cons.prems have "k \<notin> fst ` set acc" by auto
  then have "obj_set acc k v = acc @ [(k, v)]"
    by (simp add: obj_set_def alist_update_new)
  moreover have "foldl (\<lambda>obj (k, v). obj_set obj k v) (acc @ [(k, v)]) kvs = acc @ [(k, v)] @ kvs"
    using Cons.prems kv Cons.IH [of "acc @ [(k, v)]"] by simp
  ultimately show ?case using kv by simp
qed

lemma build_object_distinct:
  "distinct (map fst kvs) \<Longrightarrow> build_object kvs = kvs"
  using build_object_acc [of "[]" kvs] by (simp add: build_object_def)

lemma index_of_bound: "is_array_index k \<Longrightarrow> index_of k < array_index_bound"
  by (auto simp: is_array_index_def index_of_def split: option.splits)

end
