(* ===== verification/Forms.thy ===== *)
theory Forms
  imports Prelude
begin

text \<open>
  The request body as the handlers of \<open>src/app.js\<close> see it. Line 31 installs
  \<open>express.urlencoded({ extended: true })\<close>, which parses the form with the \<open>qs\<close>
  library: a field is absent (\<open>undefined\<close>), a string, an array (a repeated field
  \<open>a=1&a=2\<close>, or \<open>a[]=1\<close>) or an object (\<open>a[k]=1\<close>), nested arbitrarily. The handlers
  only ever ask three things of a field: its truthiness (\<open>if (dbPath)\<close>: arrays and
  objects are truthy), whether it is the string a comparison expects (\<open>===\<close> with a
  string is false for anything else), and its \<open>typeof\<close> (which bcryptjs reports when
  it rejects an argument).
\<close>

datatype form_value = FStr string | FArray "form_value list" | FObject "(string \<times> form_value) list"

definition field_truthy :: "form_value option \<Rightarrow> bool" where
  "field_truthy v = (case v of None \<Rightarrow> False | Some (FStr s) \<Rightarrow> s \<noteq> [] | Some _ \<Rightarrow> True)"

definition field_string :: "form_value option \<Rightarrow> string option" where
  "field_string v = (case v of Some (FStr s) \<Rightarrow> Some s | _ \<Rightarrow> None)"

definition field_typeof :: "form_value option \<Rightarrow> string" where
  "field_typeof v = (case v of None \<Rightarrow> ''undefined'' | Some (FStr _) \<Rightarrow> ''string'' | Some _ \<Rightarrow> ''object'')"

declare field_truthy_def [eval_simps] field_string_def [eval_simps] field_typeof_def [eval_simps]

lemma field_string_FStr [simp]: "field_string (Some (FStr s)) = Some s"
  by (simp add: field_string_def)

lemma field_truthy_FStr [simp]: "field_truthy (Some (FStr s)) \<longleftrightarrow> s \<noteq> []"
  by (simp add: field_truthy_def)

lemma field_string_Some:
  "field_string v = Some s \<longleftrightarrow> v = Some (FStr s)"
  by (auto simp: field_string_def split: option.splits form_value.splits)

text \<open>A string field is truthy exactly when the JavaScript string is.\<close>

lemma field_truthy_string:
  "field_string v \<noteq> None \<Longrightarrow> field_truthy v \<longleftrightarrow> truthy (field_string v)"
  by (auto simp: field_string_def field_truthy_def split: option.splits form_value.splits)

end
