(* ===== verification/World.thy ===== *)
theory World
  imports JsObject Forms
begin

text \<open>
  The outside world the handlers of \<open>src/app.js\<close> read: the file system (through
  \<open>fs.existsSync\<close>, \<open>fs.readFileSync\<close> and \<open>JSON.parse\<close>), the clock, and the
  SQLite library better-sqlite3 (\<open>new Database(...)\<close> and
  \<open>db.prepare('SELECT * FROM users').all()\<close>). None of this is code of the
  repository: it is the environment, passed explicitly to every handler as a value of
  type \<open>env\<close>, so that a theorem about a handler holds for every state of the world.
  Paths are strings; \<open>resolve\<close> maps the string a request supplies to the file it
  names (relative paths, \<open>./\<close>, symbolic links), so two different strings may name
  one file.
\<close>

datatype sql_value = SqlNull | SqlInteger int | SqlText string | SqlBlob string

record table =
  tcols :: "string list"
  tdata :: "sql_value list list"

type_synonym database = "(string \<times> table) list"

text \<open>A record of the credential file \<open>auth.json\<close>: \<open>{username, passwordHash}\<close>.\<close>

record credential =
  username :: string
  passwordHash :: string

text \<open>
  What a regular file holds, as far as the program can tell: the JSON object
  \<open>{users: [...]}\<close> that \<open>init-auth.js\<close> writes, a JSON object without a \<open>users\<close>
  member, a SQLite database, or anything else (text that is not JSON, binary data).
\<close>

datatype content = AuthJson "credential list" | JsonWithoutUsers | SqliteDb database | OtherBytes

datatype fs_entry = Dir | File content

record env =
  files :: "path \<rightharpoonup> fs_entry"
  resolve :: "path \<Rightarrow> path"
  clock :: ms

definition lookup_path :: "env \<Rightarrow> path \<Rightarrow> fs_entry option" where
  "lookup_path w p = files w (resolve w p)"

text \<open>\<open>fs.existsSync(p)\<close>: true for files and directories; false for the empty string.\<close>

definition existsSync :: "env \<Rightarrow> path \<Rightarrow> bool" where
  "existsSync w p \<longleftrightarrow> p \<noteq> [] \<and> lookup_path w p \<noteq> None"

text \<open>
  \<open>fs.existsSync(v)\<close> on a body field: Node validates the argument and answers
  \<open>false\<close> for anything that is not a path string (\<open>undefined\<close>, an array, an object).
\<close>

definition existsSync_value :: "env \<Rightarrow> form_value option \<Rightarrow> bool" where
  "existsSync_value w v = (case field_string v of Some p \<Rightarrow> existsSync w p | None \<Rightarrow> False)"

text \<open>
  The messages of the exceptions \<open>fs.readFileSync\<close>, \<open>JSON.parse\<close> and the member
  access \<open>.users.find\<close> throw on a credential file they cannot use. The text of a
  \<open>SyntaxError\<close> quotes the offending bytes; the model keeps its fixed part.
\<close>

definition enoent_msg :: "path \<Rightarrow> string" where
  "enoent_msg p = ''ENOENT: no such file or directory, open '' @ [CHR 0x27] @ p @ [CHR 0x27]"

definition eisdir_read_msg :: string where
  "eisdir_read_msg = ''EISDIR: illegal operation on a directory, read''"

definition json_syntax_msg :: string where
  "json_syntax_msg = ''Unexpected token in JSON at position 0''"

definition no_users_msg :: string where
  "no_users_msg = ''Cannot read properties of undefined (reading 'find')''"

text \<open>
  \<open>JSON.parse(fs.readFileSync(p)).users\<close> as a list of credentials, or the message of
  the exception one of the three steps throws: the read on a missing file or a
  directory, the parse on a file that is not JSON, the call of \<open>find\<close> on a JSON value
  without \<open>users\<close>.
\<close>

definition read_auth_users :: "env \<Rightarrow> path \<Rightarrow> string + credential list" where
  "read_auth_users w p =
     (case lookup_path w p of
        None \<Rightarrow> Inl (enoent_msg p)
      | Some Dir \<Rightarrow> Inl eisdir_read_msg
      | Some (File (AuthJson cs)) \<Rightarrow> Inr cs
      | Some (File JsonWithoutUsers) \<Rightarrow> Inl no_users_msg
      | Some (File _) \<Rightarrow> Inl json_syntax_msg)"

subsection \<open>better-sqlite3\<close>

datatype sql_error = CantOpen | NotADatabase | NoSuchTable string

fun sql_message :: "sql_error \<Rightarrow> string" where
  "sql_message CantOpen = ''unable to open database file''"
| "sql_message NotADatabase = ''file is not a database''"
| "sql_message (NoSuchTable t) = ''no such table: '' @ t"

text \<open>
  \<open>new Database(p, {readonly: true, fileMustExist: true})\<close> fails unless a file exists
  at \<open>p\<close>; SQLite reads the header lazily, so a file that is not a database opens and
  fails at the first query. The connection stays attached to the file it opened.
\<close>

definition sqlite_open :: "env \<Rightarrow> path \<Rightarrow> sql_error + path" where
  "sqlite_open w p =
     (case lookup_path w p of Some (File _) \<Rightarrow> Inr (resolve w p) | _ \<Rightarrow> Inl CantOpen)"

text \<open>
  \<open>SELECT * FROM t\<close> with \<open>.all()\<close>: one object per row, built by assigning the columns
  in schema order.
\<close>

definition row_object :: "table \<Rightarrow> sql_value list \<Rightarrow> sql_value js_object" where
  "row_object tb vs = build_object (zip (tcols tb) vs)"

definition sqlite_select_all :: "env \<Rightarrow> path \<Rightarrow> string \<Rightarrow> sql_error + sql_value js_object list" where
  "sqlite_select_all w f t =
     (case files w f of
        Some (File (SqliteDb db)) \<Rightarrow>
          (case map_of db t of
             Some tb \<Rightarrow> Inr (map (row_object tb) (tdata tb))
           | None \<Rightarrow> Inl (NoSuchTable t))
      | Some (File _) \<Rightarrow> Inl NotADatabase
      | _ \<Rightarrow> Inl CantOpen)"

text \<open>A table as SQLite keeps it: distinct column names, every row of full width.\<close>

definition wf_table :: "table \<Rightarrow> bool" where
  "wf_table tb \<longleftrightarrow> distinct (tcols tb) \<and> (\<forall>vs \<in> set (tdata tb). length vs = length (tcols tb))"

declare lookup_path_def [eval_simps] existsSync_def [eval_simps] existsSync_value_def [eval_simps] read_auth_users_def [eval_simps]
  enoent_msg_def [eval_simps] eisdir_read_msg_def [eval_simps] json_syntax_msg_def [eval_simps]
  no_users_msg_def [eval_simps]
  sqlite_open_def [eval_simps] row_object_def [eval_simps] sqlite_select_all_def [eval_simps]

lemma row_object_keys:
  assumes "wf_table tb" and "vs \<in> set (tdata tb)"
  shows "map fst (row_object tb vs) = tcols tb"
proof -
  from assms have "length vs = length (tcols tb)" and "distinct (tcols tb)"
    by (auto simp: wf_table_def)
  then show ?thesis
    by (simp add: row_object_def build_object_distinct)
qed

lemma sqlite_open_Inr:
  "sqlite_open w p = Inr f \<Longrightarrow> f = resolve w p \<and> (\<exists>c. lookup_path w p = Some (File c))"
  by (auto simp: sqlite_open_def split: option.splits fs_entry.splits)

lemma sqlite_select_all_Inr:
  "sqlite_select_all w f t = Inr rows \<Longrightarrow>
   \<exists>db tb. files w f = Some (File (SqliteDb db)) \<and> map_of db t = Some tb \<and>
     rows = map (row_object tb) (tdata tb)"
  by (auto simp: sqlite_select_all_def split: option.splits fs_entry.splits content.splits)

lemma existsSync_value_Some:
  "existsSync_value w v \<Longrightarrow> \<exists>p. v = Some (FStr p) \<and> p \<noteq> [] \<and> existsSync w p"
  by (auto simp: existsSync_value_def existsSync_def field_string_Some split: option.splits)

lemma existsSync_value_FStr [simp]: "existsSync_value w (Some (FStr p)) = existsSync w p"
  by (simp add: existsSync_value_def)

lemma existsSync_iff_lookup:
  "existsSync w p \<longleftrightarrow> p \<noteq> [] \<and> (\<exists>e. lookup_path w p = Some e)"
  by (auto simp: existsSync_def)

end
