(* ===== verification/Registry.thy ===== *)
theory Registry
  imports World
begin

text \<open>
  The connection registry of \<open>src/app.js\<close> (lines 12--27): the module-level
  \<open>const dbConnections = new Map()\<close> from path strings to open read-only database
  handles, and \<open>getDbConnection(dbPath)\<close>, which returns the cached handle for a
  path or opens, caches and returns a new one. A JavaScript \<open>Map\<close> keeps its keys in
  insertion order, so it is an association list updated by \<open>AList.update\<close>. Each
  \<open>new Database(...)\<close> is a fresh object; its identity is the number of handles
  opened before it (\<open>opened\<close>), so that "the same handle" is equality of \<open>h_id\<close>.
\<close>

record db_handle =
  h_id :: nat
  h_file :: path

record registry =
  dbConnections :: "(path \<times> db_handle) list"
  opened :: nat

definition empty_registry :: registry where
  "empty_registry = \<lparr>dbConnections = [], opened = 0\<rparr>"

text \<open>
  The result is the thrown \<open>Error\<close>'s message (\<open>Inl\<close>), \<open>null\<close> (\<open>Inr None\<close>) or a
  handle (\<open>Inr (Some h)\<close>), with the registry after the call.
\<close>

definition getDbConnection ::
  "env \<Rightarrow> path \<Rightarrow> registry \<Rightarrow> (string + db_handle option) \<times> registry" where
  "getDbConnection w dbPath r =
     (if dbPath = [] then (Inr None, r)
      else case map_of (dbConnections r) dbPath of
        Some db \<Rightarrow> (Inr (Some db), r)
      | None \<Rightarrow>
          (case sqlite_open w dbPath of
             Inl err \<Rightarrow> (Inl (''Failed to connect to '' @ dbPath @ '': '' @ sql_message err), r)
           | Inr f \<Rightarrow>
               (let db = \<lparr>h_id = opened r, h_file = f\<rparr>
                in (Inr (Some db),
                    r\<lparr>dbConnections := AList.update dbPath db (dbConnections r),
                      opened := Suc (opened r)\<rparr>))))"

text \<open>
  The registry invariant: every path has at most one entry, and the entries' handles are
  the handles opened so far, one each, in the order they were opened.
\<close>

definition registry_inv :: "registry \<Rightarrow> bool" where
  "registry_inv r \<longleftrightarrow>
     distinct (map fst (dbConnections r)) \<and>
     map (h_id \<circ> snd) (dbConnections r) = [0..<opened r]"

declare getDbConnection_def [eval_simps] empty_registry_def [eval_simps]

subsection \<open>Behaviour of \<open>getDbConnection\<close> on each branch\<close>

lemma getDbConnection_null [simp]: "getDbConnection w [] r = (Inr None, r)"
  by (simp add: getDbConnection_def)

lemma getDbConnection_cached:
  "dbPath \<noteq> [] \<Longrightarrow> map_of (dbConnections r) dbPath = Some h \<Longrightarrow>
   getDbConnection w dbPath r = (Inr (Some h), r)"
  by (simp add: getDbConnection_def)

lemma getDbConnection_opens:
  "dbPath \<noteq> [] \<Longrightarrow> map_of (dbConnections r) dbPath = None \<Longrightarrow> sqlite_open w dbPath = Inr f \<Longrightarrow>
   getDbConnection w dbPath r =
     (Inr (Some \<lparr>h_id = opened r, h_file = f\<rparr>),
      r\<lparr>dbConnections := dbConnections r @ [(dbPath, \<lparr>h_id = opened r, h_file = f\<rparr>)],
       opened := Suc (opened r)\<rparr>)"
proof -
  assume "dbPath \<noteq> []" and none: "map_of (dbConnections r) dbPath = None"
    and "sqlite_open w dbPath = Inr f"
  moreover from none have "dbPath \<notin> fst ` set (dbConnections r)"
    by (simp add: map_of_None_keys)
  ultimately show ?thesis
    by (simp add: getDbConnection_def alist_update_new Let_def)
qed

lemma getDbConnection_fails:
  "dbPath \<noteq> [] \<Longrightarrow> map_of (dbConnections r) dbPath = None \<Longrightarrow> sqlite_open w dbPath = Inl e \<Longrightarrow>
   getDbConnection w dbPath r = (Inl (''Failed to connect to '' @ dbPath @ '': '' @ sql_message e), r)"
  by (simp add: getDbConnection_def)

lemma getDbConnection_cases:
  obtains (null) "dbPath = []" and "getDbConnection w dbPath r = (Inr None, r)"
  | (cached) h where "dbPath \<noteq> []" and "map_of (dbConnections r) dbPath = Some h"
      and "getDbConnection w dbPath r = (Inr (Some h), r)"
  | (opens) f where "dbPath \<noteq> []" and "map_of (dbConnections r) dbPath = None"
      and "sqlite_open w dbPath = Inr f"
      and "getDbConnection w dbPath r =
        (Inr (Some \<lparr>h_id = opened r, h_file = f\<rparr>),
         r\<lparr>dbConnections := dbConnections r @ [(dbPath, \<lparr>h_id = opened r, h_file = f\<rparr>)],
          opened := Suc (opened r)\<rparr>)"
  | (fails) e where "dbPath \<noteq> []" and "map_of (dbConnections r) dbPath = None"
      and "sqlite_open w dbPath = Inl e"
      and "getDbConnection w dbPath r =
        (Inl (''Failed to connect to '' @ dbPath @ '': '' @ sql_message e), r)"
proof (cases "dbPath = []")
  case True
  then show ?thesis using null by simp
next
  case False
  show ?thesis
  proof (cases "map_of (dbConnections r) dbPath")
    case (Some h)
    then show ?thesis using False cached getDbConnection_cached by blast
  next
    case None
    show ?thesis
    proof (cases "sqlite_open w dbPath")
      case (Inl e)
      then show ?thesis using False None fails getDbConnection_fails by blast
    next
      case (Inr f)
      then show ?thesis using False None opens getDbConnection_opens by blast
    qed
  qed
qed

subsection \<open>Entries are never closed, replaced or removed\<close>

lemma getDbConnection_keeps:
  "map_of (dbConnections r) q = Some h \<Longrightarrow>
   map_of (dbConnections (snd (getDbConnection w p r))) q = Some h"
  by (cases rule: getDbConnection_cases [of p w r]) (auto simp: map_add_singleton_new)

lemma getDbConnection_result_cached:
  "getDbConnection w p r = (Inr (Some h), r') \<Longrightarrow> p \<noteq> [] \<and> map_of (dbConnections r') p = Some h"
  by (cases rule: getDbConnection_cases [of p w r]) (auto simp: map_add_singleton_new)

lemma getDbConnection_error_unchanged:
  "getDbConnection w p r = (Inl msg, r') \<Longrightarrow> r' = r \<and> map_of (dbConnections r) p = None"
  by (cases rule: getDbConnection_cases [of p w r]) auto

lemma getDbConnection_new_key:
  "q \<in> fst ` set (dbConnections (snd (getDbConnection w p r))) \<Longrightarrow>
   q \<notin> fst ` set (dbConnections r) \<Longrightarrow> q = p"
  by (cases rule: getDbConnection_cases [of p w r]) auto

subsection \<open>The registry invariant\<close>

lemma registry_inv_empty [simp]: "registry_inv empty_registry"
  by (simp add: registry_inv_def empty_registry_def)

lemma getDbConnection_inv:
  assumes "registry_inv r"
  shows "registry_inv (snd (getDbConnection w p r))"
proof (cases rule: getDbConnection_cases [of p w r])
  case (opens f)
  then have "p \<notin> fst ` set (dbConnections r)"
    by (simp add: map_of_None_keys)
  with assms opens show ?thesis
    by (simp add: registry_inv_def)
qed (use assms in simp_all)

lemma registry_inv_length:
  "registry_inv r \<Longrightarrow> length (dbConnections r) = opened r"
  by (metis length_map length_upt minus_nat.diff_0 registry_inv_def)

lemma registry_inv_card:
  "registry_inv r \<Longrightarrow> card (fst ` set (dbConnections r)) = opened r"
  by (metis distinct_card length_map registry_inv_def registry_inv_length set_map)

lemma registry_inv_id_bound:
  assumes "registry_inv r" and "map_of (dbConnections r) p = Some h"
  shows "h_id h < opened r"
proof -
  from assms(2) have "(p, h) \<in> set (dbConnections r)" by (rule map_of_SomeD)
  then have "h_id h \<in> set (map (h_id \<circ> snd) (dbConnections r))" by force
  with assms(1) show ?thesis by (simp add: registry_inv_def)
qed

lemma registry_inv_ids_inj:
  assumes "registry_inv r"
    and "map_of (dbConnections r) p = Some h" and "map_of (dbConnections r) q = Some h'"
    and "h_id h = h_id h'"
  shows "p = q"
proof -
  from assms(1) have "distinct (map (h_id \<circ> snd) (dbConnections r))"
    by (simp add: registry_inv_def)
  then have inj: "inj_on (h_id \<circ> snd) (set (dbConnections r))"
    by (simp add: distinct_map)
  from assms(2,3) have "(p, h) \<in> set (dbConnections r)" and "(q, h') \<in> set (dbConnections r)"
    by (simp_all add: map_of_SomeD)
  then have "(p, h) = (q, h')"
    using assms(4) by (intro inj_onD [OF inj]) simp_all
  then show ?thesis by simp
qed

subsection \<open>Contract of the registry\<close>

text \<open>
  C3. Once \<open>getDbConnection\<close> has returned a handle for a path, every later call for
  that path returns the same handle and opens nothing, whatever the world looks like by
  then: the cache is consulted before the file system, with no check that the file still
  exists or is unchanged.
\<close>

theorem getDbConnection_reuses:
  assumes "getDbConnection w p r = (Inr (Some h), r')"
  shows "getDbConnection w' p r' = (Inr (Some h), r')"
proof -
  from assms have "p \<noteq> []" and "map_of (dbConnections r') p = Some h"
    by (simp_all add: getDbConnection_result_cached)
  then show ?thesis by (rule getDbConnection_cached)
qed

theorem getDbConnection_reuses_witness:
  "getDbConnection \<lparr>files = [''a.db'' \<mapsto> File OtherBytes], resolve = id, clock = 0\<rparr> ''a.db'' empty_registry =
     (Inr (Some \<lparr>h_id = 0, h_file = ''a.db''\<rparr>),
      \<lparr>dbConnections = [(''a.db'', \<lparr>h_id = 0, h_file = ''a.db''\<rparr>)], opened = 1\<rparr>) \<and>
   getDbConnection \<lparr>files = Map.empty, resolve = id, clock = 5\<rparr> ''a.db''
     \<lparr>dbConnections = [(''a.db'', \<lparr>h_id = 0, h_file = ''a.db''\<rparr>)], opened = 1\<rparr> =
     (Inr (Some \<lparr>h_id = 0, h_file = ''a.db''\<rparr>),
      \<lparr>dbConnections = [(''a.db'', \<lparr>h_id = 0, h_file = ''a.db''\<rparr>)], opened = 1\<rparr>)"
proof -
  have first: "getDbConnection \<lparr>files = [''a.db'' \<mapsto> File OtherBytes], resolve = id, clock = 0\<rparr>
      ''a.db'' empty_registry =
     (Inr (Some \<lparr>h_id = 0, h_file = ''a.db''\<rparr>),
      \<lparr>dbConnections = [(''a.db'', \<lparr>h_id = 0, h_file = ''a.db''\<rparr>)], opened = 1\<rparr>)"
    by (simp add: eval_simps)
  show ?thesis
    using first getDbConnection_reuses [OF first, of "\<lparr>files = Map.empty, resolve = id, clock = 5\<rparr>"]
    by simp
qed

text \<open>
  C4. A failed open is not cached: the call leaves the registry as it was, so a later
  call for the same path, once a file exists there, opens it as a new handle.
\<close>

theorem getDbConnection_failure_retried:
  assumes fail: "getDbConnection w p r = (Inl msg, r')"
    and later: "lookup_path w' p = Some (File c)"
  shows "r' = r \<and>
    getDbConnection w' p r' =
      (Inr (Some \<lparr>h_id = opened r, h_file = resolve w' p\<rparr>),
       r\<lparr>dbConnections := dbConnections r @ [(p, \<lparr>h_id = opened r, h_file = resolve w' p\<rparr>)],
         opened := Suc (opened r)\<rparr>)"
proof -
  from fail have r': "r' = r" and none: "map_of (dbConnections r) p = None"
    by (simp_all add: getDbConnection_error_unchanged)
  from fail have "p \<noteq> []"
    by (cases "p = []") simp_all
  moreover from later have "sqlite_open w' p = Inr (resolve w' p)"
    by (simp add: sqlite_open_def)
  ultimately show ?thesis
    using r' none by (simp add: getDbConnection_opens)
qed

theorem getDbConnection_failure_retried_witness:
  "getDbConnection \<lparr>files = Map.empty, resolve = id, clock = 0\<rparr> ''a.db'' empty_registry =
     (Inl ''Failed to connect to a.db: unable to open database file'', empty_registry) \<and>
   getDbConnection \<lparr>files = [''a.db'' \<mapsto> File OtherBytes], resolve = id, clock = 7\<rparr> ''a.db'' empty_registry =
     (Inr (Some \<lparr>h_id = 0, h_file = ''a.db''\<rparr>),
      \<lparr>dbConnections = [(''a.db'', \<lparr>h_id = 0, h_file = ''a.db''\<rparr>)], opened = 1\<rparr>)"
proof -
  have fail: "getDbConnection \<lparr>files = Map.empty, resolve = id, clock = 0\<rparr> ''a.db'' empty_registry =
     (Inl ''Failed to connect to a.db: unable to open database file'', empty_registry)"
    by (simp add: eval_simps)
  have later: "lookup_path \<lparr>files = [''a.db'' \<mapsto> File OtherBytes], resolve = id, clock = 7\<rparr> ''a.db'' =
      Some (File OtherBytes)"
    by (simp add: eval_simps)
  show ?thesis
    using fail getDbConnection_failure_retried [OF fail later] by (simp add: empty_registry_def)
qed

text \<open>
  C5. Refinement: seen as a partial map from paths to handles, the registry after a call
  is the registry before it extended with the handle the call returned, and unchanged
  when the call returned \<open>null\<close> or threw.
\<close>

theorem getDbConnection_refines_map:
  "map_of (dbConnections (snd (getDbConnection w p r))) =
     (case fst (getDbConnection w p r) of
        Inr (Some h) \<Rightarrow> (map_of (dbConnections r))(p \<mapsto> h)
      | _ \<Rightarrow> map_of (dbConnections r))"
proof (cases rule: getDbConnection_cases [of p w r])
  case null
  then show ?thesis by simp
next
  case (cached h)
  then show ?thesis by (auto simp: fun_upd_idem)
next
  case (opens f)
  then show ?thesis by (simp add: map_add_singleton_new)
next
  case (fails e)
  then show ?thesis by simp
qed

end
