(* ===== verification/Session.thy ===== *)
theory Session
  imports Prelude
begin

text \<open>
  Per-browser session state of \<open>src/app.js\<close>. The handlers read and write three fields
  of \<open>req.session\<close>: \<open>user\<close> (set to \<open>{username}\<close> at login; modelled by the user
  name), \<open>dbPath\<close> (the bound database path) and \<open>dbError\<close> (the one-shot error
  message, which is absent until the first bind or home page, and \<open>null\<close> once
  \<open>GET /\<close> has cleared it: the two differ for express-session, which compares the JSON
  of the session). The session middleware is express-session with the options of lines
  32--37 (\<open>resave: false\<close>, \<open>saveUninitialized: false\<close>, \<open>cookie.maxAge = 3600000\<close>,
  \<open>rolling\<close> left false) and its default \<open>MemoryStore\<close>. The store is modelled as a map
  from a browser's session id to the stored data with two expiry times: the store's own
  (\<open>expires\<close>), which every request renews (the session is saved when its JSON changed
  and \<open>store.touch\<close>ed otherwise), and that of the browser's copy of the cookie
  (\<open>cookie_expires\<close>), which moves only when a response carries \<open>Set-Cookie\<close>, that is
  when the request changed the session's JSON (\<open>shouldSetCookie\<close>). The browser keeps
  sending the cookie until its expiry, the store answers until its own: loading yields
  nothing when either has passed (the request then runs on a new, empty session). A new
  session is saved only if the handler put data into it, and \<open>req.session.destroy()\<close>
  removes it.
  The gate \<open>isAuthenticated\<close> (lines 40--45) passes a request whose session has a
  user and redirects every other request to \<open>/login\<close>.
\<close>

record session =
  user :: "string option"
  dbPath :: "string option"
  dbError :: "string nullable"

definition fresh_session :: session where
  "fresh_session = \<lparr>user = None, dbPath = None, dbError = Undefined\<rparr>"

record stored_session =
  sdata :: session
  expires :: ms
  cookie_expires :: ms

type_synonym session_store = "sid \<rightharpoonup> stored_session"

definition max_age :: ms where
  "max_age = 3600000"

definition load_session :: "session_store \<Rightarrow> sid \<Rightarrow> ms \<Rightarrow> session option" where
  "load_session st i now =
     (case st i of
        None \<Rightarrow> None
      | Some e \<Rightarrow> if now < expires e \<and> now < cookie_expires e then Some (sdata e) else None)"

definition current_session :: "session option \<Rightarrow> session" where
  "current_session loaded = (case loaded of None \<Rightarrow> fresh_session | Some s \<Rightarrow> s)"

text \<open>What a handler leaves of the session: the (possibly changed) data, or destroyed.\<close>

datatype session_result = Keep session | Destroyed

definition save_session ::
  "session_store \<Rightarrow> sid \<Rightarrow> ms \<Rightarrow> session option \<Rightarrow> session_result \<Rightarrow> session_store" where
  "save_session st i now loaded res =
     (case res of
        Destroyed \<Rightarrow> st(i := None)
      | Keep s \<Rightarrow>
          (case loaded of
             None \<Rightarrow>
               if s \<noteq> fresh_session
               then st(i \<mapsto> \<lparr>sdata = s, expires = now + max_age, cookie_expires = now + max_age\<rparr>)
               else st(i := None)
           | Some s0 \<Rightarrow>
               if s \<noteq> s0
               then st(i \<mapsto> \<lparr>sdata = s, expires = now + max_age, cookie_expires = now + max_age\<rparr>)
               else (case st i of
                       None \<Rightarrow> st
                     | Some e \<Rightarrow>
                         if now < expires e then st(i \<mapsto> e\<lparr>expires := now + max_age\<rparr>)
                         else st(i := None))))"

datatype gate = Next | RedirectTo string

definition isAuthenticated :: "session \<Rightarrow> gate" where
  "isAuthenticated s = (if user s \<noteq> None then Next else RedirectTo ''/login'')"

declare fresh_session_def [eval_simps] max_age_def [eval_simps] load_session_def [eval_simps]
  current_session_def [eval_simps] save_session_def [eval_simps] isAuthenticated_def [eval_simps]

subsection \<open>Store lemmas\<close>

lemma load_session_Some:
  "load_session st i now = Some s \<longleftrightarrow>
     (\<exists>e. st i = Some e \<and> now < expires e \<and> now < cookie_expires e \<and> sdata e = s)"
  by (auto simp: load_session_def split: option.splits)

lemma load_session_other [simp]:
  "j \<noteq> i \<Longrightarrow> load_session (st(i := x)) j now = load_session st j now"
  by (simp add: load_session_def)

lemma save_session_other [simp]:
  "j \<noteq> i \<Longrightarrow> save_session st i now loaded res j = st j"
  by (simp add: save_session_def split: session_result.splits option.splits)

lemma save_session_cases:
  "save_session st i now loaded res i = None \<or>
   (\<exists>s e. res = Keep s \<and> (loaded \<noteq> None \<or> s \<noteq> fresh_session) \<and>
        save_session st i now loaded res i = Some e \<and> sdata e = s \<and> expires e = now + max_age) \<or>
   (\<exists>e. st i = Some e \<and> now < expires e \<and>
        save_session st i now loaded res i = Some (e\<lparr>expires := now + max_age\<rparr>))"
  by (auto simp: save_session_def split: session_result.splits option.splits)

lemma load_save_now:
  "load_session (save_session st i now (load_session st i now) res) i now =
     (case res of
        Destroyed \<Rightarrow> None
      | Keep s' \<Rightarrow> if load_session st i now \<noteq> None \<or> s' \<noteq> fresh_session then Some s' else None)"
  by (cases "st i") (auto simp: load_session_def save_session_def max_age_def
      split: session_result.splits)

lemma isAuthenticated_Next [simp]: "isAuthenticated s = Next \<longleftrightarrow> user s \<noteq> None"
  by (simp add: isAuthenticated_def)

lemma isAuthenticated_Redirect [simp]:
  "isAuthenticated s = RedirectTo t \<longleftrightarrow> user s = None \<and> t = ''/login''"
  by (auto simp: isAuthenticated_def)

lemma fresh_session_user [simp]: "user fresh_session = None"
  by (simp add: fresh_session_def)

lemma current_session_simps [simp]:
  "current_session None = fresh_session" "current_session (Some s) = s"
  by (simp_all add: current_session_def)

end
