(* ===== verification/Auth.thy ===== *)
theory Auth
  imports World
begin

text \<open>
  The credential store. \<open>src/app.js\<close> (\<open>POST /login\<close>, lines 53--70) re-reads the
  credential file at \<open>AUTH_PATH\<close> on every login, takes the \<^emph>\<open>first\<close> record whose
  \<open>username\<close> equals the submitted one (\<open>authData.users.find\<close>) and checks the
  submitted password with \<open>bcrypt.compareSync\<close>. \<open>src/init-auth.js\<close> provisions the file
  with the one account \<open>admin\<close>/\<open>password123\<close>, hashed with 10 salt rounds.
  bcrypt is a library: it is an interface here, a hash function and a comparison, and
  the theorems that need it to work assume its contract \<open>bcrypt_ok\<close> (comparing a
  password with a hash of that password succeeds).
\<close>

record bcrypt =
  hashpw :: "string \<Rightarrow> string \<Rightarrow> string"   \<comment> \<open>salt, password\<close>
  compareSync :: "string \<Rightarrow> string \<Rightarrow> bool"  \<comment> \<open>password, hash\<close>

definition bcrypt_ok :: "bcrypt \<Rightarrow> bool" where
  "bcrypt_ok b \<longleftrightarrow> (\<forall>salt pw. compareSync b pw (hashpw b salt pw))"

text \<open>
  The process configuration: \<open>AUTH_PATH\<close> (environment variable, default
  \<open>auth.json\<close> beside \<open>app.js\<close>) and the bcrypt implementation.
\<close>

record config =
  auth_path :: path
  crypt :: bcrypt

text \<open>\<open>authData.users.find(u => u.username === username)\<close>; an absent form field is
  \<open>undefined\<close> and equals no stored user name.\<close>

definition find_user :: "credential list \<Rightarrow> string option \<Rightarrow> credential option" where
  "find_user users uname = List.find (\<lambda>c. Some (username c) = uname) users"

text \<open>
  \<open>bcrypt.compareSync(password, user.passwordHash)\<close>: bcryptjs throws unless both
  arguments are strings, naming their \<open>typeof\<close>: \<open>Illegal arguments: undefined, string\<close>
  for an absent password field, \<open>Illegal arguments: object, string\<close> for an array or
  object one.
\<close>

definition check_password :: "bcrypt \<Rightarrow> form_value option \<Rightarrow> credential \<Rightarrow> string + bool" where
  "check_password b pw c =
     (case pw of
        Some (FStr p) \<Rightarrow> Inr (compareSync b p (passwordHash c))
      | _ \<Rightarrow> Inl (''Illegal arguments: '' @ field_typeof pw @ '', string''))"

subsection \<open>Provisioning: \<open>init-auth.js\<close>\<close>

definition default_username :: string where
  "default_username = ''admin''"

definition default_password :: string where
  "default_password = ''password123''"

text \<open>
  \<open>fs.writeFileSync(path.join(__dirname, 'auth.json'), ...)\<close> with the record of the
  default account and a fresh salt: the file at \<open>script_auth_path\<close> (\<open>auth.json\<close>
  beside the script; the script does not read \<open>AUTH_PATH\<close>) is replaced; writing onto
  a directory throws.
\<close>

definition init_auth :: "bcrypt \<Rightarrow> string \<Rightarrow> path \<Rightarrow> env \<Rightarrow> string + env" where
  "init_auth b salt script_auth_path w =
     (if lookup_path w script_auth_path = Some Dir then Inl ''EISDIR: illegal operation on a directory''
      else Inr (w\<lparr>files := (files w)(resolve w script_auth_path \<mapsto>
        File (AuthJson [\<lparr>username = default_username,
                         passwordHash = hashpw b salt default_password\<rparr>]))\<rparr>))"

declare find_user_def [eval_simps] check_password_def [eval_simps] default_username_def [eval_simps]
  default_password_def [eval_simps] init_auth_def [eval_simps]

lemma find_user_Some:
  "find_user users uname = Some c \<Longrightarrow> uname = Some (username c) \<and> c \<in> set users"
  by (auto simp: find_user_def dest: find_SomeD)

lemma find_user_first:
  "find_user (c # users) (Some (username c)) = Some c"
  by (simp add: find_user_def)

end
