(* ===== verification/Handlers.thy ===== *)
theory Handlers
  imports Registry Session Auth
begin

text \<open>
  The route handlers of \<open>src/app.js\<close>, each a function of the world, the request's
  fields, the request's session and (for \<open>GET /\<close>) the connection registry, returning
  the response and what is left of the session (and the registry). A rendered page is
  the context object passed to \<open>res.render\<close>; an exception that escapes a handler is
  Express's error response \<open>ServerError\<close>.
\<close>

record index_view =
  iv_user :: "string option"
  iv_columns :: "string list"
  iv_rows :: "sql_value js_object list"
  iv_dbPath :: string
  iv_error :: "string option"

datatype response =
    Redirect string
  | RenderLogin "string option"
  | RenderIndex index_view
  | ServerError string

definition auth_missing_msg :: string where
  "auth_missing_msg = ''Auth configuration missing. Please run init-auth.js''"

definition invalid_login_msg :: string where
  "invalid_login_msg = ''Invalid username or password''"

definition invalid_path_msg :: string where
  "invalid_path_msg = ''Invalid file path or file does not exist.''"

definition null_prepare_msg :: string where
  "null_prepare_msg = ''Cannot read properties of null (reading 'prepare')''"

subsection \<open>\<open>GET /login\<close> and \<open>POST /login\<close>\<close>

definition get_login :: "session \<Rightarrow> response \<times> session_result" where
  "get_login s = (RenderLogin None, Keep s)"

definition post_login ::
  "config \<Rightarrow> env \<Rightarrow> form_value option \<Rightarrow> form_value option \<Rightarrow> session \<Rightarrow> response \<times> session_result" where
  "post_login cfg w uname pw s =
     (if \<not> existsSync w (auth_path cfg) then (RenderLogin (Some auth_missing_msg), Keep s)
      else case read_auth_users w (auth_path cfg) of
        Inl msg \<Rightarrow> (ServerError msg, Keep s)
      | Inr users \<Rightarrow>
          (case find_user users (field_string uname) of
             None \<Rightarrow> (RenderLogin (Some invalid_login_msg), Keep s)
           | Some c \<Rightarrow>
               (case check_password (crypt cfg) pw c of
                  Inl msg \<Rightarrow> (ServerError msg, Keep s)
                | Inr True \<Rightarrow> (Redirect ''/'', Keep (s\<lparr>user := Some (username c)\<rparr>))
                | Inr False \<Rightarrow> (RenderLogin (Some invalid_login_msg), Keep s))))"

subsection \<open>\<open>POST /set-db\<close>\<close>

definition post_set_db :: "env \<Rightarrow> form_value option \<Rightarrow> session \<Rightarrow> response \<times> session_result" where
  "post_set_db w dbp s =
     (if field_truthy dbp \<and> existsSync_value w dbp
      then (Redirect ''/'', Keep (s\<lparr>dbPath := field_string dbp\<rparr>))
      else (Redirect ''/'', Keep (s\<lparr>dbError := Defined invalid_path_msg\<rparr>)))"

subsection \<open>\<open>GET /\<close>\<close>

text \<open>
  The pending error is read and cleared first. With a bound path the handler gets a
  connection and runs the query inside one \<open>try\<close>; whatever it throws is rendered
  instead of the pending error. The column list is \<open>Object.keys\<close> of the first row.
\<close>

definition failed_view :: "session \<Rightarrow> path \<Rightarrow> string \<Rightarrow> index_view" where
  "failed_view s p msg =
     \<lparr>iv_user = user s, iv_columns = [], iv_rows = [], iv_dbPath = p, iv_error = Some msg\<rparr>"

definition home_columns :: "sql_value js_object list \<Rightarrow> string list" where
  "home_columns rows = (if rows \<noteq> [] then object_keys (hd rows) else [])"

definition get_home :: "env \<Rightarrow> session \<Rightarrow> registry \<Rightarrow> response \<times> session_result \<times> registry" where
  "get_home w s r =
     (let p = dbPath s; pending = dbError s; s' = s\<lparr>dbError := Null\<rparr>
      in if truthy p then
           (case getDbConnection w (the p) r of
              (Inl msg, r') \<Rightarrow> (RenderIndex (failed_view s (the p) msg), Keep s', r')
            | (Inr None, r') \<Rightarrow> (RenderIndex (failed_view s (the p) null_prepare_msg), Keep s', r')
            | (Inr (Some db), r') \<Rightarrow>
                (case sqlite_select_all w (h_file db) ''users'' of
                   Inl err \<Rightarrow> (RenderIndex (failed_view s (the p) (sql_message err)), Keep s', r')
                 | Inr rows \<Rightarrow>
                     (RenderIndex \<lparr>iv_user = user s, iv_columns = home_columns rows,
                        iv_rows = rows, iv_dbPath = the p, iv_error = defined_value pending\<rparr>, Keep s', r')))
         else (RenderIndex \<lparr>iv_user = user s, iv_columns = [], iv_rows = [],
                 iv_dbPath = or_empty p, iv_error = defined_value pending\<rparr>, Keep s', r))"

subsection \<open>\<open>GET /logout\<close>\<close>

definition get_logout :: "session \<Rightarrow> response \<times> session_result" where
  "get_logout s = (Redirect ''/login'', Destroyed)"

declare get_login_def [handler_defs] post_login_def [handler_defs] post_set_db_def [handler_defs]
  get_home_def [handler_defs] get_logout_def [handler_defs]

declare handler_defs [eval_simps] failed_view_def [eval_simps] home_columns_def [eval_simps]
  auth_missing_msg_def [eval_simps] invalid_login_msg_def [eval_simps] invalid_path_msg_def [eval_simps]
  null_prepare_msg_def [eval_simps]

subsection \<open>\<open>GET /\<close> on each branch\<close>

lemma get_home_unbound:
  "\<not> truthy (dbPath s) \<Longrightarrow>
   get_home w s r =
     (RenderIndex \<lparr>iv_user = user s, iv_columns = [], iv_rows = [],
                   iv_dbPath = or_empty (dbPath s), iv_error = defined_value (dbError s)\<rparr>,
      Keep (s\<lparr>dbError := Null\<rparr>), r)"
  by (simp add: get_home_def)

lemma get_home_conn_error:
  "truthy (dbPath s) \<Longrightarrow> getDbConnection w (the (dbPath s)) r = (Inl msg, r') \<Longrightarrow>
   get_home w s r =
     (RenderIndex (failed_view s (the (dbPath s)) msg), Keep (s\<lparr>dbError := Null\<rparr>), r')"
  by (simp add: get_home_def)

lemma get_home_connected:
  "truthy (dbPath s) \<Longrightarrow> getDbConnection w (the (dbPath s)) r = (Inr (Some db), r') \<Longrightarrow>
   get_home w s r =
     (case sqlite_select_all w (h_file db) ''users'' of
        Inl err \<Rightarrow>
          (RenderIndex (failed_view s (the (dbPath s)) (sql_message err)), Keep (s\<lparr>dbError := Null\<rparr>), r')
      | Inr rows \<Rightarrow>
          (RenderIndex \<lparr>iv_user = user s, iv_columns = home_columns rows, iv_rows = rows,
                        iv_dbPath = the (dbPath s), iv_error = defined_value (dbError s)\<rparr>,
           Keep (s\<lparr>dbError := Null\<rparr>), r'))"
  by (simp add: get_home_def split: sum.splits)

lemma home_columns_table:
  assumes "wf_table tb" and "tdata tb \<noteq> []"
  shows "home_columns (map (row_object tb) (tdata tb)) = object_keys (row_object tb (hd (tdata tb)))"
  using assms by (simp add: home_columns_def hd_map)


text \<open>Every page \<open>GET /\<close> renders lists either no rows, or the rows of a \<open>users\<close>
  table under \<open>home_columns\<close> of those rows.\<close>

lemma get_home_rows:
  assumes "fst (get_home w s r) = RenderIndex v"
  shows "iv_rows v = [] \<or>
    (\<exists>f db tb. files w f = Some (File (SqliteDb db)) \<and> map_of db ''users'' = Some tb \<and>
       iv_rows v = map (row_object tb) (tdata tb) \<and> iv_columns v = home_columns (iv_rows v))"
proof -
  have "iv_rows v = [] \<or>
      (\<exists>f rows. sqlite_select_all w f ''users'' = Inr rows \<and> iv_rows v = rows \<and>
         iv_columns v = home_columns rows)"
    using assms by (auto simp: get_home_def Let_def failed_view_def
      split: if_splits prod.splits sum.splits option.splits)
  then show ?thesis by (blast dest: sqlite_select_all_Inr)
qed

lemma get_home_renders:
  "\<exists>v. fst (get_home w s r) = RenderIndex v \<and> iv_user v = user s"
  by (auto simp: get_home_def Let_def failed_view_def split: prod.splits sum.splits option.splits)

end
