(* ===== verification/Server.thy ===== *)
theory Server
  imports Handlers
begin

text \<open>
  The whole server of \<open>src/app.js\<close>: the process-wide state (the session store of
  express-session and the connection registry \<open>dbConnections\<close>), the Express route
  table (lines 48--122, with \<open>isAuthenticated\<close> in front of \<open>POST /set-db\<close> and
  \<open>GET /\<close>), and one request served from start to end. Every handler is synchronous
  (\<open>existsSync\<close>, \<open>readFileSync\<close>, \<open>compareSync\<close> and better-sqlite3 do not yield to
  the event loop), so Node.js runs each request to completion before the next begins:
  an execution is a sequence of whole requests from any browsers, interleaved in any
  order, with the world changing arbitrarily between them. \<open>reachable\<close> collects the
  states of all such executions.
\<close>

record server =
  store :: session_store
  reg :: registry

definition initial_server :: server where
  "initial_server = \<lparr>store = Map.empty, reg = empty_registry\<rparr>"

datatype request =
    GetLogin
  | PostLogin "form_value option" "form_value option"   \<comment> \<open>body fields username, password\<close>
  | PostSetDb "form_value option"                       \<comment> \<open>body field dbPath\<close>
  | GetHome
  | GetLogout

definition with_reg :: "registry \<Rightarrow> response \<times> session_result \<Rightarrow> response \<times> session_result \<times> registry" where
  "with_reg r res = (fst res, snd res, r)"

text \<open>\<open>app.post(path, isAuthenticated, handler)\<close>: the handler runs only on \<open>next()\<close>.\<close>

definition gated ::
  "session \<Rightarrow> registry \<Rightarrow> response \<times> session_result \<times> registry \<Rightarrow> response \<times> session_result \<times> registry" where
  "gated s r k = (case isAuthenticated s of Next \<Rightarrow> k | RedirectTo t \<Rightarrow> (Redirect t, Keep s, r))"

fun dispatch ::
  "config \<Rightarrow> env \<Rightarrow> request \<Rightarrow> session \<Rightarrow> registry \<Rightarrow> response \<times> session_result \<times> registry" where
  "dispatch cfg w GetLogin s r = with_reg r (get_login s)"
| "dispatch cfg w (PostLogin u p) s r = with_reg r (post_login cfg w u p s)"
| "dispatch cfg w (PostSetDb d) s r = gated s r (with_reg r (post_set_db w d s))"
| "dispatch cfg w GetHome s r = gated s r (get_home w s r)"
| "dispatch cfg w GetLogout s r = with_reg r (get_logout s)"

definition serve :: "config \<Rightarrow> env \<Rightarrow> sid \<Rightarrow> request \<Rightarrow> server \<Rightarrow> response \<times> server" where
  "serve cfg w i req srv =
     (let loaded = load_session (store srv) i (clock w);
          (resp, res, r') = dispatch cfg w req (current_session loaded) (reg srv)
      in (resp, \<lparr>store = save_session (store srv) i (clock w) loaded res, reg = r'\<rparr>))"

text \<open>A sequence of requests, each with the world it meets and the browser that sends it.\<close>

fun run :: "config \<Rightarrow> (env \<times> sid \<times> request) list \<Rightarrow> server \<Rightarrow> response list \<times> server" where
  "run cfg [] srv = ([], srv)"
| "run cfg ((w, i, req) # evs) srv =
     (let (resp, srv') = serve cfg w i req srv;
          (resps, srv'') = run cfg evs srv'
      in (resp # resps, srv''))"

inductive reachable :: "config \<Rightarrow> server \<Rightarrow> bool" for cfg where
  init: "reachable cfg initial_server"
| step: "reachable cfg srv \<Longrightarrow> serve cfg w i req srv = (resp, srv') \<Longrightarrow> reachable cfg srv'"

inductive_cases reachable_stepE: "reachable cfg srv'"

declare initial_server_def [eval_simps] with_reg_def [eval_simps] gated_def [eval_simps]
  serve_def [eval_simps]

subsection \<open>Unfolding one request\<close>

lemma serve_components:
  "serve cfg w i req srv =
     (fst (dispatch cfg w req (current_session (load_session (store srv) i (clock w))) (reg srv)),
      \<lparr>store = save_session (store srv) i (clock w) (load_session (store srv) i (clock w))
                 (fst (snd (dispatch cfg w req (current_session (load_session (store srv) i (clock w))) (reg srv)))),
       reg = snd (snd (dispatch cfg w req (current_session (load_session (store srv) i (clock w))) (reg srv)))\<rparr>)"
  by (simp add: serve_def Let_def case_prod_unfold)

lemma with_reg_simps [simp]:
  "fst (with_reg r res) = fst res" "fst (snd (with_reg r res)) = snd res" "snd (snd (with_reg r res)) = r"
  by (simp_all add: with_reg_def)

lemma gated_deny [simp]: "user s = None \<Longrightarrow> gated s r k = (Redirect ''/login'', Keep s, r)"
  by (simp add: gated_def isAuthenticated_def)

lemma gated_allow [simp]: "user s \<noteq> None \<Longrightarrow> gated s r k = k"
  by (simp add: gated_def isAuthenticated_def)

lemma reachable_run:
  "reachable cfg srv \<Longrightarrow> reachable cfg (snd (run cfg evs srv))"
proof (induction evs arbitrary: srv)
  case Nil
  then show ?case by simp
next
  case (Cons ev evs)
  obtain w i req where ev: "ev = (w, i, req)" by (cases ev) auto
  obtain resp srv' where s1: "serve cfg w i req srv = (resp, srv')" by fastforce
  from Cons.prems s1 have "reachable cfg srv'" by (rule reachable.step)
  then have "reachable cfg (snd (run cfg evs srv'))" by (rule Cons.IH)
  with ev s1 show ?case by (simp add: case_prod_unfold Let_def)
qed

lemma load_save_changed:
  "s' \<noteq> s0 \<Longrightarrow>
   load_session (save_session st i now (Some s0) (Keep s')) i now' =
     (if now' < now + max_age then Some s' else None)"
  by (simp add: load_session_def save_session_def)

lemma load_save_unchanged:
  "st i = Some e \<Longrightarrow> now < expires e \<Longrightarrow>
   load_session (save_session st i now (Some s0) (Keep s0)) i now' =
     (if now' < now + max_age \<and> now' < cookie_expires e then Some (sdata e) else None)"
  by (simp add: load_session_def save_session_def)

lemma save_changed:
  "s' \<noteq> s0 \<Longrightarrow>
   save_session st i now (Some s0) (Keep s') i =
     Some \<lparr>sdata = s', expires = now + max_age, cookie_expires = now + max_age\<rparr>"
  by (simp add: save_session_def)

lemma save_unchanged:
  "st i = Some e \<Longrightarrow> now < expires e \<Longrightarrow>
   save_session st i now (Some s0) (Keep s0) i = Some (e\<lparr>expires := now + max_age\<rparr>)"
  by (simp add: save_session_def)

lemma load_save_destroyed:
  "load_session (save_session st i now loaded Destroyed) i now' = None"
  by (simp add: load_session_def save_session_def)

lemma serve_loaded:
  "load_session (store srv) i (clock w) = Some s \<Longrightarrow>
   serve cfg w i req srv =
     (fst (dispatch cfg w req s (reg srv)),
      \<lparr>store = save_session (store srv) i (clock w) (Some s) (fst (snd (dispatch cfg w req s (reg srv)))),
       reg = snd (snd (dispatch cfg w req s (reg srv)))\<rparr>)"
  by (simp add: serve_components)

lemma serve_step:
  assumes "load_session (store srv) i (clock w) = Some s"
    and "dispatch cfg w req s (reg srv) = (resp, res, r')"
    and "serve cfg w i req srv = (resp0, srv')"
  shows "resp0 = resp \<and> srv' = \<lparr>store = save_session (store srv) i (clock w) (Some s) res, reg = r'\<rparr>"
  using assms by (simp add: serve_loaded)

lemma serve_step_fresh:
  assumes "load_session (store srv) i (clock w) = None"
    and "dispatch cfg w req fresh_session (reg srv) = (resp, res, r')"
    and "serve cfg w i req srv = (resp0, srv')"
  shows "resp0 = resp \<and> srv' = \<lparr>store = save_session (store srv) i (clock w) None res, reg = r'\<rparr>"
  using assms by (simp add: serve_components)

end
