(* ===== verification/Invariants.thy ===== *)
theory Invariants
  imports Server
begin

text \<open>
  The invariant of the server's state, kept by every request of every browser in every
  world: the registry invariant of \<open>Registry\<close>, and for every session in the store a
  user (an anonymous browser never gets a stored session), a bound path that is a
  non-empty string if there is one, and a pending error that is the one message
  \<open>POST /set-db\<close> sets if there is one. The per-handler lemmas here describe what each
  handler does to the session and to the registry; they carry the invariant proof and
  the handler properties of the root theory.
\<close>

definition session_inv :: "session \<Rightarrow> bool" where
  "session_inv s \<longleftrightarrow>
     user s \<noteq> None \<and>
     (dbPath s = None \<or> truthy (dbPath s)) \<and>
     (\<forall>m. dbError s = Defined m \<longrightarrow> m = invalid_path_msg)"

definition store_inv :: "session_store \<Rightarrow> bool" where
  "store_inv st \<longleftrightarrow> (\<forall>e \<in> ran st. session_inv (sdata e))"

definition server_inv :: "server \<Rightarrow> bool" where
  "server_inv srv \<longleftrightarrow> registry_inv (reg srv) \<and> store_inv (store srv)"

subsection \<open>What each handler leaves of the session and the registry\<close>

lemma get_home_session: "fst (snd (get_home w s r)) = Keep (s\<lparr>dbError := Null\<rparr>)"
  by (simp add: get_home_def Let_def split: prod.splits sum.splits option.splits)

lemma get_home_reg:
  "snd (snd (get_home w s r)) =
     (if truthy (dbPath s) then snd (getDbConnection w (the (dbPath s)) r) else r)"
  by (simp add: get_home_def Let_def split: prod.splits sum.splits option.splits)

lemma post_set_db_result:
  "post_set_db w d s =
     (Redirect ''/'',
      Keep (if field_truthy d \<and> existsSync_value w d then s\<lparr>dbPath := field_string d\<rparr>
            else s\<lparr>dbError := Defined invalid_path_msg\<rparr>))"
  by (simp add: post_set_db_def)

lemma post_login_session:
  "snd (post_login cfg w u p s) = Keep s \<or>
   (\<exists>n. snd (post_login cfg w u p s) = Keep (s\<lparr>user := Some n\<rparr>))"
  by (auto simp: post_login_def split: option.splits sum.splits bool.splits)

lemma dispatch_reg_inv:
  "registry_inv r \<Longrightarrow> registry_inv (snd (snd (dispatch cfg w req s r)))"
  by (cases req) (auto simp: gated_def get_home_reg getDbConnection_inv
      split: gate.splits)

lemma dispatch_new_key:
  assumes "q \<in> fst ` set (dbConnections (snd (snd (dispatch cfg w req s r))))"
    and "q \<notin> fst ` set (dbConnections r)"
  shows "req = GetHome \<and> user s \<noteq> None \<and> dbPath s = Some q"
proof (cases "req = GetHome \<and> user s \<noteq> None \<and> truthy (dbPath s)")
  case True
  with assms have "q = the (dbPath s)"
    by (auto simp: get_home_reg intro: getDbConnection_new_key)
  with True show ?thesis by (auto elim: truthyE)
next
  case False
  with assms show ?thesis
    by (cases req) (auto simp: gated_def isAuthenticated_def get_home_reg split: gate.splits)
qed

lemma session_inv_step:
  assumes "session_inv s" and "fst (snd (dispatch cfg w req s r)) = Keep s'"
  shows "session_inv s'"
proof (cases req)
  case (PostLogin u p)
  with assms post_login_session [of cfg w u p s] show ?thesis
    by (auto simp: session_inv_def)
next
  case (PostSetDb d)
  with assms show ?thesis
    by (auto simp: session_inv_def post_set_db_result split: if_splits dest!: existsSync_value_Some)
next
  case GetHome
  with assms show ?thesis
    by (auto simp: session_inv_def get_home_session)
qed (use assms in \<open>auto simp: get_login_def get_logout_def\<close>)

lemma fresh_session_step:
  assumes "fst (snd (dispatch cfg w req fresh_session r)) = Keep s'"
  shows "s' = fresh_session \<or> session_inv s'"
proof (cases req)
  case (PostLogin u p)
  with assms post_login_session [of cfg w u p fresh_session] show ?thesis
    by (auto simp: session_inv_def fresh_session_def)
qed (use assms in \<open>auto simp: get_login_def get_logout_def\<close>)

subsection \<open>The invariant holds in every reachable state\<close>

lemma ran_upd_None_subset: "ran (m(a := None)) \<subseteq> ran m"
  by (auto simp: ran_def)

lemma ran_upd_Some_subset: "ran (m(a \<mapsto> b)) \<subseteq> insert b (ran m)"
  by (auto simp: ran_def)

lemma store_inv_save:
  assumes inv: "store_inv st"
    and kept: "\<And>s'. res = Keep s' \<Longrightarrow> loaded \<noteq> None \<or> s' \<noteq> fresh_session \<Longrightarrow> session_inv s'"
  shows "store_inv (save_session st i now loaded res)"
proof -
  let ?st' = "save_session st i now loaded res"
  have old: "session_inv (sdata e)" if "st k = Some e" for k e
    using inv that by (auto simp: store_inv_def ran_def)
  have new: "session_inv (sdata e)" if at: "?st' i = Some e" for e
    using save_session_cases [of st i now loaded res] at kept old [of i] by auto
  show ?thesis unfolding store_inv_def
  proof
    fix x assume "x \<in> ran ?st'"
    then obtain k where k: "?st' k = Some x" by (auto simp: ran_def)
    show "session_inv (sdata x)"
    proof (cases "k = i")
      case True
      with k new show ?thesis by simp
    next
      case False
      with k old [of k x] show ?thesis by simp
    qed
  qed
qed

lemma load_session_inv:
  "store_inv st \<Longrightarrow> load_session st i now = Some s \<Longrightarrow> session_inv s"
  by (auto simp: store_inv_def load_session_Some ran_def)

text \<open>
  One request whose session was loaded as \<open>loaded\<close>, whenever that was: the loaded
  session, if any, satisfies the session invariant because it was read from a store that
  did.
\<close>

lemma dispatch_save_inv:
  assumes inv: "server_inv srv" and ld: "\<And>s. loaded = Some s \<Longrightarrow> session_inv s"
  shows "server_inv \<lparr>store = save_session (store srv) i now loaded
                             (fst (snd (dispatch cfg w req (current_session loaded) (reg srv)))),
                     reg = snd (snd (dispatch cfg w req (current_session loaded) (reg srv)))\<rparr>"
proof -
  let ?d = "dispatch cfg w req (current_session loaded) (reg srv)"
  have reg: "registry_inv (snd (snd ?d))"
    using inv by (simp add: server_inv_def dispatch_reg_inv)
  have sess: "session_inv s'"
    if "fst (snd ?d) = Keep s'" and "loaded \<noteq> None \<or> s' \<noteq> fresh_session" for s'
  proof (cases loaded)
    case None
    with that fresh_session_step [of cfg w req "reg srv" s'] show ?thesis by auto
  next
    case (Some s)
    with that ld [OF Some] show ?thesis by (auto intro: session_inv_step)
  qed
  have "store_inv (save_session (store srv) i now loaded (fst (snd ?d)))"
    using inv sess by (intro store_inv_save) (simp_all add: server_inv_def)
  with reg show ?thesis by (simp add: server_inv_def)
qed

lemma serve_inv:
  assumes "server_inv srv"
  shows "server_inv (snd (serve cfg w i req srv))"
proof -
  let ?loaded = "load_session (store srv) i (clock w)"
  have "\<And>s. ?loaded = Some s \<Longrightarrow> session_inv s"
    using assms by (auto simp: server_inv_def intro: load_session_inv)
  from dispatch_save_inv [OF assms this, where i = i and now = "clock w" and cfg = cfg and w = w and req = req]
  show ?thesis
    by (simp add: serve_components)
qed

lemma server_inv_initial: "server_inv initial_server"
  by (simp add: server_inv_def store_inv_def initial_server_def)

lemma reachable_server_inv: "reachable cfg srv \<Longrightarrow> server_inv srv"
proof (induction rule: reachable.induct)
  case init
  show ?case by (rule server_inv_initial)
next
  case (step srv w i req resp srv')
  from step.hyps(2) have "srv' = snd (serve cfg w i req srv)" by simp
  with step.IH show ?case by (simp add: serve_inv)
qed

end
