(* ===== verification/Abstract.thy ===== *)
theory Abstract
  imports Invariants
begin

text \<open>
  The session state machine of the specification (section 4.4): a browser is
  \<open>Anonymous\<close> or \<open>Authenticated\<close> as some user with an optional bound path. Logging in
  moves to \<open>Authenticated\<close>, logging out or expiry back to \<open>Anonymous\<close>, and a bind
  sets the bound path to a path that exists at that moment; every other request leaves
  the state alone. \<open>abs_session\<close> reads this state off the session express-session
  would load for the browser; the refinement theorem of the root theory shows that every
  request the server handles moves each browser along \<open>spec_step\<close>.
\<close>

datatype abs_session = Anonymous | Authenticated string "path option"

definition abs_session :: "session option \<Rightarrow> abs_session" where
  "abs_session loaded =
     (case loaded of
        None \<Rightarrow> Anonymous
      | Some s \<Rightarrow> (case user s of None \<Rightarrow> Anonymous | Some u \<Rightarrow> Authenticated u (dbPath s)))"

text \<open>
  The abstract steps, in the world \<open>w\<close> of the request. A login while already
  authenticated replaces the user and keeps the bound path: the specification does not
  say what happens there, the code does this.
\<close>

inductive spec_step :: "env \<Rightarrow> abs_session \<Rightarrow> abs_session \<Rightarrow> bool" for w where
  stay: "spec_step w a a"
| login: "spec_step w Anonymous (Authenticated u None)"
| relogin: "spec_step w (Authenticated u' b) (Authenticated u b)"
| bind: "existsSync w p \<Longrightarrow> spec_step w (Authenticated u b) (Authenticated u (Some p))"
| leave: "spec_step w a Anonymous"

inductive_cases spec_step_AnonymousE: "spec_step w Anonymous a'"

lemma abs_session_simps [simp]:
  "abs_session None = Anonymous"
  "user s = None \<Longrightarrow> abs_session (Some s) = Anonymous"
  "user s = Some u \<Longrightarrow> abs_session (Some s) = Authenticated u (dbPath s)"
  by (simp_all add: abs_session_def)

lemma spec_step_from_Anonymous:
  "spec_step w Anonymous a' \<longleftrightarrow> a' = Anonymous \<or> (\<exists>u. a' = Authenticated u None)"
  by (auto elim: spec_step_AnonymousE intro: spec_step.intros)

lemma load_after_serve:
  "load_session (store (snd (serve cfg w i req srv))) i (clock w) =
     (case fst (snd (dispatch cfg w req (current_session (load_session (store srv) i (clock w))) (reg srv))) of
        Destroyed \<Rightarrow> None
      | Keep s' \<Rightarrow>
          if load_session (store srv) i (clock w) \<noteq> None \<or> s' \<noteq> fresh_session then Some s' else None)"
  by (simp add: serve_components load_save_now)

lemma abs_fresh [simp]: "abs_session (Some fresh_session) = Anonymous"
  by (simp add: abs_session_def)

lemma abs_current_session:
  "abs_session (Some (current_session loaded)) = abs_session loaded"
  by (cases loaded) simp_all

lemma spec_step_ignores_error:
  "spec_step w (abs_session (Some s)) (abs_session (Some (s\<lparr>dbError := e\<rparr>)))"
  by (cases "user s") (simp_all add: spec_step.stay)

lemma dispatch_spec_step:
  assumes pre: "s = fresh_session \<or> user s \<noteq> None"
    and res: "fst (snd (dispatch cfg w req s r)) = Keep s'"
  shows "spec_step w (abs_session (Some s)) (abs_session (Some s'))"
proof (cases req)
  case GetLogin
  with res show ?thesis by (simp add: get_login_def spec_step.stay)
next
  case (PostLogin u p)
  from post_login_session [of cfg w u p s] res PostLogin
  consider "s' = s" | n where "s' = s\<lparr>user := Some n\<rparr>" by auto
  then show ?thesis
  proof cases
    case 1
    then show ?thesis by (simp add: spec_step.stay)
  next
    case 2
    from pre show ?thesis
    proof
      assume "s = fresh_session"
      with 2 show ?thesis by (simp add: fresh_session_def spec_step.login)
    next
      assume "user s \<noteq> None"
      with 2 show ?thesis by (auto simp: spec_step.relogin)
    qed
  qed
next
  case (PostSetDb d)
  show ?thesis
  proof (cases "user s")
    case None
    with res PostSetDb show ?thesis by (simp add: spec_step.stay)
  next
    case (Some u)
    show ?thesis
    proof (cases "field_truthy d \<and> existsSync_value w d")
      case True
      then obtain q where "d = Some (FStr q)" and "existsSync w q" and "q \<noteq> []"
        by (auto dest: existsSync_value_Some)
      with Some res PostSetDb show ?thesis
        by (auto simp: post_set_db_result intro!: spec_step.bind)
    next
      case False
      with Some res PostSetDb have "s' = s\<lparr>dbError := Defined invalid_path_msg\<rparr>"
        by (simp add: post_set_db_result)
      then show ?thesis by (simp add: spec_step_ignores_error)
    qed
  qed
next
  case GetHome
  with res show ?thesis
    by (cases "user s") (auto simp: get_home_session intro: spec_step.stay)
next
  case GetLogout
  with res show ?thesis by (simp add: get_logout_def)
qed


lemma serve_spec_step:
  assumes reach: "reachable cfg srv"
  shows "spec_step w (abs_session (load_session (store srv) i (clock w)))
           (abs_session (load_session (store (snd (serve cfg w i req srv))) i (clock w)))"
proof -
  let ?L = "load_session (store srv) i (clock w)"
  let ?s = "current_session ?L"
  have pre: "?s = fresh_session \<or> user ?s \<noteq> None"
  proof (cases ?L)
    case None
    then show ?thesis by simp
  next
    case (Some s0)
    from reach have "store_inv (store srv)"
      using reachable_server_inv by (simp add: server_inv_def)
    then have "session_inv s0" using Some by (rule load_session_inv)
    with Some show ?thesis by (simp add: session_inv_def)
  qed
  show ?thesis
  proof (cases "fst (snd (dispatch cfg w req ?s (reg srv)))")
    case Destroyed
    then show ?thesis by (simp add: load_after_serve spec_step.leave)
  next
    case (Keep s')
    have st: "spec_step w (abs_session ?L) (abs_session (Some s'))"
      using dispatch_spec_step [OF pre Keep] by (simp add: abs_current_session)
    show ?thesis
    proof (cases "?L \<noteq> None \<or> s' \<noteq> fresh_session")
      case True
      with Keep st show ?thesis by (simp add: load_after_serve)
    next
      case False
      with Keep show ?thesis by (simp add: load_after_serve spec_step.stay)
    qed
  qed
qed

end
