(* ===== verification/Interleaving.thy ===== *)
theory Interleaving
  imports Invariants
begin

text \<open>
  Node.js runs the requests of different browsers one after the other, in an order the
  program does not control. This theory shows what that order can change: only the
  identities of the registry's handles. A request sees the registry only through which
  file each cached path is attached to (\<open>reg_files\<close>); the result of
  \<open>getDbConnection\<close> seen that way (\<open>conn_view\<close>) is the same whether or not another
  request has opened a path in the same world before, and the registry's file view
  grows by \<open>files_step\<close>, which commutes with itself.
\<close>

definition reg_files :: "registry \<Rightarrow> path \<rightharpoonup> path" where
  "reg_files r = (\<lambda>p. map_option h_file (map_of (dbConnections r) p))"

definition conn_view :: "env \<Rightarrow> path \<Rightarrow> (path \<rightharpoonup> path) \<Rightarrow> string + path option" where
  "conn_view w p rf =
     (if p = [] then Inr None
      else case rf p of
        Some f \<Rightarrow> Inr (Some f)
      | None \<Rightarrow>
          (case sqlite_open w p of
             Inl err \<Rightarrow> Inl (''Failed to connect to '' @ p @ '': '' @ sql_message err)
           | Inr f \<Rightarrow> Inr (Some f)))"

definition files_step :: "env \<Rightarrow> path \<Rightarrow> (path \<rightharpoonup> path) \<Rightarrow> path \<rightharpoonup> path" where
  "files_step w p rf =
     (if p = [] then rf
      else case rf p of
        Some f \<Rightarrow> rf
      | None \<Rightarrow> (case sqlite_open w p of Inl err \<Rightarrow> rf | Inr f \<Rightarrow> rf(p \<mapsto> f)))"

definition request_files :: "env \<Rightarrow> request \<Rightarrow> session \<Rightarrow> (path \<rightharpoonup> path) \<Rightarrow> path \<rightharpoonup> path" where
  "request_files w req s rf =
     (if req = GetHome \<and> user s \<noteq> None \<and> truthy (dbPath s) then files_step w (the (dbPath s)) rf else rf)"

subsection \<open>The registry seen through its files\<close>

lemma getDbConnection_view:
  "map_sum id (map_option h_file) (fst (getDbConnection w p r)) = conn_view w p (reg_files r)"
  by (cases rule: getDbConnection_cases [of p w r]) (simp_all add: conn_view_def reg_files_def)

lemma getDbConnection_files:
  "reg_files (snd (getDbConnection w p r)) = files_step w p (reg_files r)"
proof (cases rule: getDbConnection_cases [of p w r])
  case (opens f)
  then show ?thesis
    by (simp add: files_step_def reg_files_def map_add_singleton_new fun_eq_iff)
qed (simp_all add: files_step_def reg_files_def)

lemma conn_view_files_step:
  "conn_view w p (files_step w q rf) = conn_view w p rf"
  by (cases "p = q")
     (auto simp: conn_view_def files_step_def split: option.splits sum.splits)

lemma files_step_commute:
  "files_step w p (files_step w q rf) = files_step w q (files_step w p rf)"
  by (cases "p = q")
     (auto simp: files_step_def fun_upd_twist split: option.splits sum.splits)

lemma conn_view_request_files:
  "conn_view w p (request_files w req s rf) = conn_view w p rf"
  by (simp add: request_files_def conn_view_files_step)

lemma files_step_if_commute:
  "(if P then files_step w p (if Q then files_step w q rf else rf) else if Q then files_step w q rf else rf) =
   (if Q then files_step w q (if P then files_step w p rf else rf) else if P then files_step w p rf else rf)"
  by (simp add: files_step_commute)

lemma request_files_commute:
  "request_files w req s (request_files w req' s' rf) = request_files w req' s' (request_files w req s rf)"
  unfolding request_files_def by (rule files_step_if_commute)

subsection \<open>What a request shows depends only on the file view\<close>

lemma get_home_cong:
  assumes "map_sum id (map_option h_file) (fst (getDbConnection w (the (dbPath s)) r1)) =
           map_sum id (map_option h_file) (fst (getDbConnection w (the (dbPath s)) r2))"
  shows "fst (get_home w s r1) = fst (get_home w s r2) \<and>
         fst (snd (get_home w s r1)) = fst (snd (get_home w s r2))"
  using assms
  by (auto simp: get_home_def Let_def split: prod.splits sum.splits option.splits)

lemma dispatch_cong:
  assumes "\<forall>p. conn_view w p (reg_files r1) = conn_view w p (reg_files r2)"
  shows "fst (dispatch cfg w req s r1) = fst (dispatch cfg w req s r2) \<and>
         fst (snd (dispatch cfg w req s r1)) = fst (snd (dispatch cfg w req s r2))"
proof (cases req)
  case GetHome
  from assms have "map_sum id (map_option h_file) (fst (getDbConnection w (the (dbPath s)) r1)) =
      map_sum id (map_option h_file) (fst (getDbConnection w (the (dbPath s)) r2))"
    by (simp add: getDbConnection_view)
  then have "fst (get_home w s r1) = fst (get_home w s r2) \<and>
      fst (snd (get_home w s r1)) = fst (snd (get_home w s r2))"
    by (rule get_home_cong)
  with GetHome show ?thesis by (cases "user s") simp_all
qed (cases "user s"; simp)+

lemma dispatch_files:
  "reg_files (snd (snd (dispatch cfg w req s r))) = request_files w req s (reg_files r)"
  by (cases req) (auto simp: request_files_def gated_def get_home_reg getDbConnection_files
      split: gate.splits)


subsection \<open>One request of another browser\<close>

lemma serve_store_other:
  "k \<noteq> i \<Longrightarrow> store (snd (serve cfg w i q srv)) k = store srv k"
  by (simp add: serve_components save_session_other)

lemma serve_other_load:
  "j \<noteq> i \<Longrightarrow> load_session (store (snd (serve cfg w j q srv))) i now = load_session (store srv) i now"
  by (simp add: load_session_def serve_components save_session_other)

lemma serve_reg_files:
  "reg_files (reg (snd (serve cfg w i q srv))) =
     request_files w q (current_session (load_session (store srv) i (clock w))) (reg_files (reg srv))"
  by (simp add: serve_components dispatch_files)

lemma serve_conn_view:
  "conn_view w p (reg_files (reg (snd (serve cfg w j q srv)))) = conn_view w p (reg_files (reg srv))"
  by (simp add: serve_reg_files conn_view_request_files)

lemma serve_cong:
  assumes "store srv' i = store srv i"
    and "\<forall>p. conn_view w p (reg_files (reg srv')) = conn_view w p (reg_files (reg srv))"
  shows "fst (serve cfg w i q srv') = fst (serve cfg w i q srv) \<and>
         store (snd (serve cfg w i q srv')) i = store (snd (serve cfg w i q srv)) i"
proof -
  let ?s = "current_session (load_session (store srv) i (clock w))"
  from assms(2) have "fst (dispatch cfg w q ?s (reg srv')) = fst (dispatch cfg w q ?s (reg srv)) \<and>
      fst (snd (dispatch cfg w q ?s (reg srv'))) = fst (snd (dispatch cfg w q ?s (reg srv)))"
    by (rule dispatch_cong)
  moreover from assms(1) have "load_session (store srv') i (clock w) = load_session (store srv) i (clock w)"
    by (simp add: load_session_def)
  ultimately show ?thesis using assms(1)
    by (simp add: serve_components save_session_def split: session_result.splits option.splits)
qed

end
