(* ===== verification/Traces.thy ===== *)
theory Traces
  imports Abstract Interleaving
begin

text \<open>
  Whole runs against the specification's state machine. \<open>abs_run\<close> observes one browser
  through a run of \<open>serve\<close>: for each request, its world, whether the browser sent it,
  and the browser's abstract state just before and just after it, both read at the
  request's clock. \<open>spec_trace\<close> says when such a sequence of observations is a behaviour
  of the specification: across its own request the browser takes a \<open>spec_step\<close>,
  across another browser's request it keeps its state, and between two requests it keeps
  its state or its session expires.
\<close>

fun abs_run ::
  "config \<Rightarrow> sid \<Rightarrow> (env \<times> sid \<times> request) list \<Rightarrow> server \<Rightarrow> (env \<times> bool \<times> abs_session \<times> abs_session) list"
where
  "abs_run cfg i [] srv = []"
| "abs_run cfg i ((w, j, req) # evs) srv =
     (let srv' = snd (serve cfg w j req srv)
      in (w, j = i, abs_session (load_session (store srv) i (clock w)),
          abs_session (load_session (store srv') i (clock w))) # abs_run cfg i evs srv')"

fun spec_trace :: "(env \<times> bool \<times> abs_session \<times> abs_session) list \<Rightarrow> bool" where
  "spec_trace [] = True"
| "spec_trace ((w, own, a, b) # rest) =
     ((if own then spec_step w a b else b = a) \<and>
      (case rest of [] \<Rightarrow> True | (w', own', a', b') # _ \<Rightarrow> a' = b \<or> a' = Anonymous) \<and>
      spec_trace rest)"

lemma load_session_later:
  "t \<le> t' \<Longrightarrow> load_session st i t' = load_session st i t \<or> load_session st i t' = None"
  by (auto simp: load_session_def split: option.splits)

lemma abs_session_later:
  "t \<le> t' \<Longrightarrow>
   abs_session (load_session st i t') = abs_session (load_session st i t) \<or>
   abs_session (load_session st i t') = Anonymous"
  using load_session_later [of t t' st i] by auto

lemma abs_run_head:
  "evs \<noteq> [] \<Longrightarrow>
   \<exists>w' own' b' rest. abs_run cfg i evs srv =
     (w', own', abs_session (load_session (store srv) i (clock w')), b') # rest \<and>
     w' = fst (hd evs)"
  by (cases evs) (auto simp: Let_def)

end
