(* ===== verification/History.thy ===== *)
theory History
  imports Traces
begin

text \<open>
  Properties of whole executions in real time. \<open>reachable_at cfg srv t\<close> is
  \<open>reachable\<close> with the clock kept: the server state \<open>srv\<close> is reached by requests
  whose clocks never go back, the last at time \<open>t\<close> (the initial state at time 0).
  Over such executions every stored session's store expiry is at most an hour after the
  last request, and its cookie expiry is no later than its store expiry
  (\<open>expiry_inv\<close>), so the browser's cookie is what ends a session. Over any run the
  connection registry only grows at its end, by at most one handle per \<open>GET /\<close>.
\<close>

inductive reachable_at :: "config \<Rightarrow> server \<Rightarrow> ms \<Rightarrow> bool" for cfg where
  init: "reachable_at cfg initial_server 0"
| step: "reachable_at cfg srv t \<Longrightarrow> t \<le> clock w \<Longrightarrow> serve cfg w i req srv = (resp, srv') \<Longrightarrow>
         reachable_at cfg srv' (clock w)"

definition expiry_inv :: "session_store \<Rightarrow> ms \<Rightarrow> bool" where
  "expiry_inv st t \<longleftrightarrow> (\<forall>e \<in> ran st. cookie_expires e \<le> expires e \<and> expires e \<le> t + max_age)"

definition home_requests :: "(env \<times> sid \<times> request) list \<Rightarrow> nat" where
  "home_requests evs = length (filter (\<lambda>ev. snd (snd ev) = GetHome) evs)"

declare home_requests_def [eval_simps]

subsection \<open>The two expiries of a stored session\<close>

lemma expiry_inv_initial: "expiry_inv (store initial_server) 0"
  by (simp add: expiry_inv_def initial_server_def)

lemma expiry_inv_upd:
  assumes "expiry_inv st t" and "t \<le> now"
    and "\<And>e. x = Some e \<Longrightarrow> cookie_expires e \<le> expires e \<and> expires e \<le> now + max_age"
  shows "expiry_inv (st(i := x)) now"
  using assms ran_upd_None_subset [of st i] ran_upd_Some_subset [of st i]
  by (cases x) (fastforce simp: expiry_inv_def)+

lemma expiry_inv_save:
  assumes inv: "expiry_inv st t" and le: "t \<le> now"
  shows "expiry_inv (save_session st i now loaded res) now"
proof -
  let ?st' = "save_session st i now loaded res"
  have frame: "?st' = st(i := ?st' i)"
    by (simp add: fun_eq_iff save_session_other)
  have old: "cookie_expires e \<le> now + max_age" if "st i = Some e" for e
    using inv le that by (force simp: expiry_inv_def ran_def)
  have "cookie_expires e \<le> expires e \<and> expires e \<le> now + max_age" if "?st' i = Some e" for e
    using that old by (auto simp: save_session_def split: session_result.splits option.splits if_splits)
  with inv le have "expiry_inv (st(i := ?st' i)) now"
    by (intro expiry_inv_upd) simp_all
  with frame show ?thesis by simp
qed

lemma reachable_at_expiry_inv: "reachable_at cfg srv t \<Longrightarrow> expiry_inv (store srv) t"
proof (induction rule: reachable_at.induct)
  case init
  then show ?case by (rule expiry_inv_initial)
next
  case (step srv t w i req resp srv')
  then have "store srv' = save_session (store srv) i (clock w) (load_session (store srv) i (clock w))
      (fst (snd (dispatch cfg w req (current_session (load_session (store srv) i (clock w))) (reg srv))))"
    by (auto simp: serve_components)
  with step show ?case by (simp add: expiry_inv_save)
qed

lemma load_session_cookie:
  "cookie_expires e \<le> expires e \<Longrightarrow> st i = Some e \<Longrightarrow>
   load_session st i now = (if now < cookie_expires e then Some (sdata e) else None)"
  by (auto simp: load_session_def)

lemma reachable_at_run:
  "reachable_at cfg srv t \<Longrightarrow> sorted (t # map (\<lambda>ev. clock (fst ev)) evs) \<Longrightarrow>
   reachable_at cfg (snd (run cfg evs srv)) (last (t # map (\<lambda>ev. clock (fst ev)) evs))"
proof (induction evs arbitrary: srv t)
  case Nil
  then show ?case by simp
next
  case (Cons ev evs)
  obtain w i req where ev: "ev = (w, i, req)" by (cases ev) auto
  from Cons.prems ev have "t \<le> clock w" by simp
  then have "reachable_at cfg (snd (serve cfg w i req srv)) (clock w)"
    using reachable_at.step [OF Cons.prems(1) _ surjective_pairing] by blast
  moreover from Cons.prems(2) ev have "sorted (clock w # map (\<lambda>ev. clock (fst ev)) evs)" by simp
  ultimately have "reachable_at cfg (snd (run cfg evs (snd (serve cfg w i req srv))))
      (last (clock w # map (\<lambda>ev. clock (fst ev)) evs))"
    by (rule Cons.IH)
  with ev show ?case by (simp add: case_prod_unfold Let_def)
qed

subsection \<open>Growth of the registry\<close>

lemma getDbConnection_grows:
  "\<exists>ys. dbConnections (snd (getDbConnection w p r)) = dbConnections r @ ys \<and>
        opened (snd (getDbConnection w p r)) = opened r + length ys \<and> length ys \<le> 1"
  by (cases rule: getDbConnection_cases [of p w r]) auto

lemma dispatch_grows:
  "\<exists>ys. dbConnections (snd (snd (dispatch cfg w req s r))) = dbConnections r @ ys \<and>
        opened (snd (snd (dispatch cfg w req s r))) = opened r + length ys \<and>
        length ys \<le> (if req = GetHome then 1 else 0)"
proof (cases "req = GetHome \<and> user s \<noteq> None \<and> truthy (dbPath s)")
  case True
  then show ?thesis
    using getDbConnection_grows [of w "the (dbPath s)" r] by (auto simp: get_home_reg)
next
  case False
  then have "snd (snd (dispatch cfg w req s r)) = r"
    by (cases req) (auto simp: gated_def get_home_reg split: gate.splits)
  then show ?thesis by simp
qed

end
