(* ===== verification/Overlap.thy ===== *)
theory Overlap
  imports Invariants
begin

text \<open>
  Requests whose sessions overlap. express-session reads a request's session from its
  \<open>MemoryStore\<close> when the request arrives (\<open>store.get\<close> reads the entry at once and
  hands it to the middleware through a deferred callback), runs the route handler, and
  writes the session back when the handler ends the response (\<open>store.set\<close>,
  \<open>store.touch\<close> or \<open>store.destroy\<close>, which write at once). The handlers of
  \<open>src/app.js\<close> are synchronous, so a handler and the write that ends it are one step,
  but other requests, of this browser or of others, can arrive and end between the read
  and the handler. A request in flight (\<open>inflight\<close>) carries the session id and the
  session read at its arrival (\<open>arrive\<close>); \<open>finish\<close> runs the handler on that
  snapshot against the registry and store of the moment and writes the session back.
  \<open>serve\<close> is \<open>arrive\<close> followed at once by \<open>finish\<close>. \<open>overlap_reachable\<close>
  is every state, with its requests in flight, that arrivals and ends in any order reach;
  the server invariant holds in all of them and every snapshot in flight satisfies the
  session invariant.
\<close>

record inflight =
  f_sid :: sid
  f_req :: request
  f_loaded :: "session option"

definition arrive :: "sid \<Rightarrow> request \<Rightarrow> ms \<Rightarrow> server \<Rightarrow> inflight" where
  "arrive i req now srv = \<lparr>f_sid = i, f_req = req, f_loaded = load_session (store srv) i now\<rparr>"

definition finish :: "config \<Rightarrow> env \<Rightarrow> inflight \<Rightarrow> server \<Rightarrow> response \<times> server" where
  "finish cfg w f srv =
     (let (resp, res, r') = dispatch cfg w (f_req f) (current_session (f_loaded f)) (reg srv)
      in (resp, \<lparr>store = save_session (store srv) (f_sid f) (clock w) (f_loaded f) res, reg = r'\<rparr>))"

inductive overlap_reachable :: "config \<Rightarrow> server \<Rightarrow> inflight list \<Rightarrow> bool" for cfg where
  init: "overlap_reachable cfg initial_server []"
| arrive: "overlap_reachable cfg srv fl \<Longrightarrow> overlap_reachable cfg srv (fl @ [arrive i req now srv])"
| finish: "overlap_reachable cfg srv fl \<Longrightarrow> f \<in> set fl \<Longrightarrow> finish cfg w f srv = (resp, srv') \<Longrightarrow>
           overlap_reachable cfg srv' (remove1 f fl)"

declare arrive_def [eval_simps] finish_def [eval_simps]

subsection \<open>Sequential requests are overlapping requests that do not overlap\<close>

lemma finish_components:
  "finish cfg w f srv =
     (fst (dispatch cfg w (f_req f) (current_session (f_loaded f)) (reg srv)),
      \<lparr>store = save_session (store srv) (f_sid f) (clock w) (f_loaded f)
                 (fst (snd (dispatch cfg w (f_req f) (current_session (f_loaded f)) (reg srv)))),
       reg = snd (snd (dispatch cfg w (f_req f) (current_session (f_loaded f)) (reg srv)))\<rparr>)"
  by (simp add: finish_def Let_def case_prod_unfold)

lemma serve_arrive_finish:
  "serve cfg w i req srv = finish cfg w (arrive i req (clock w) srv) srv"
  by (simp add: serve_components finish_components arrive_def)

lemma reachable_overlap: "reachable cfg srv \<Longrightarrow> overlap_reachable cfg srv []"
proof (induction rule: reachable.induct)
  case init
  show ?case by (rule overlap_reachable.init)
next
  case (step srv w i req resp srv')
  let ?f = "arrive i req (clock w) srv"
  from step.IH have arr: "overlap_reachable cfg srv [?f]"
    using overlap_reachable.arrive [of cfg srv "[]"] by simp
  from step.hyps(2) have "finish cfg w ?f srv = (resp, srv')"
    by (simp add: serve_arrive_finish)
  with arr have "overlap_reachable cfg srv' (remove1 ?f [?f])"
    by (intro overlap_reachable.finish) simp_all
  then show ?case by simp
qed

subsection \<open>The invariant under overlapping requests\<close>

definition overlap_inv :: "server \<Rightarrow> inflight list \<Rightarrow> bool" where
  "overlap_inv srv fl \<longleftrightarrow>
     server_inv srv \<and> (\<forall>f \<in> set fl. \<forall>s. f_loaded f = Some s \<longrightarrow> session_inv s)"

lemma finish_inv:
  "server_inv srv \<Longrightarrow> (\<And>s. f_loaded f = Some s \<Longrightarrow> session_inv s) \<Longrightarrow>
   server_inv (snd (finish cfg w f srv))"
  using dispatch_save_inv [where loaded = "f_loaded f"] by (simp add: finish_components)

lemma overlap_reachable_inv: "overlap_reachable cfg srv fl \<Longrightarrow> overlap_inv srv fl"
proof (induction rule: overlap_reachable.induct)
  case init
  show ?case by (simp add: overlap_inv_def server_inv_initial)
next
  case (arrive srv fl i req now)
  then show ?case
    by (auto simp: overlap_inv_def arrive_def server_inv_def intro: load_session_inv)
next
  case (finish srv fl f w resp srv')
  from finish.IH finish.hyps(2) have "server_inv (snd (finish cfg w f srv))"
    by (intro finish_inv) (auto simp: overlap_inv_def)
  with finish.IH finish.hyps(3) show ?case
    by (auto simp: overlap_inv_def dest: in_set_remove1 [THEN iffD1, rotated])
qed

end
