(* ===== verification/Routing.thy ===== *)
theory Routing
  imports Server
begin

text \<open>
  How Express delivers a request to the route handlers of \<open>src/app.js\<close>. The
  application (\<open>const app = express()\<close>, line 8) holds a stack of layers: the body
  parser of line 31, the session middleware of lines 32--37 and one route per
  \<open>app.get\<close>/\<open>app.post\<close> (lines 48--122), each with its handler chain
  (\<open>isAuthenticated\<close> first for \<open>POST /set-db\<close> and \<open>GET /\<close>). A request
  (\<open>http_request\<close>) has a method, a path (the URL's pathname) and the outcome of body
  parsing: an HTTP status when \<open>express.urlencoded\<close> rejects the body (too large, too
  many parameters, bad charset), which Express passes to its final handler past every
  other layer, the session middleware included; the parsed fields otherwise.

  Express's router (\<open>Router.handle\<close>) walks the route layers with an index
  (\<open>layer = stack[idx++]\<close> inside \<open>next()\<close>): a route whose path matches (Express
  compiles \<open>'/login'\<close> to \<open>/^\/login\/?$/i\<close>: ASCII case ignored, one trailing slash
  allowed) and which handles the method (a \<open>GET\<close> route also serves \<open>HEAD\<close>) runs
  its handlers in order; a handler answers, calls \<open>next()\<close> (the next handler, then the
  next layer), or does neither, and then the request hangs (\<open>NoResponse\<close>, \<open>None\<close>).
  When no route answers, the final handler responds \<open>404 Cannot METHOD path\<close>, except
  that an \<open>OPTIONS\<close> request whose path some routes match is answered with the list of
  their methods (\<open>Allow\<close>). \<open>route_walk\<close> is that loop, with its index, and its
  termination proof is the measure \<open>length stack - idx\<close>. \<open>serve_http\<close> composes body
  parsing, the session middleware and the walk. \<open>route_of\<close> and \<open>unrouted\<close> describe,
  for the proofs, which request of \<open>Server\<close> a method and path stand for and what the
  final handler answers.
\<close>

datatype http_method = GET | POST | HEAD | OPTIONS | OtherMethod string

record http_request =
  h_method :: http_method
  h_path :: string
  h_body :: "nat + (string \<times> form_value) list"

datatype 'a outcome = Respond 'a | CallNext | NoResponse

type_synonym handler =
  "config \<Rightarrow> env \<Rightarrow> (string \<Rightarrow> form_value option) \<Rightarrow> session \<Rightarrow> registry \<Rightarrow>
   (response \<times> session_result \<times> registry) outcome"

record route =
  r_method :: http_method
  r_path :: string
  r_handlers :: "handler list"

datatype http_response = Sent response | Allow "http_method list" | NotFound http_method string
  | BodyRejected nat

definition lower_ascii :: "char \<Rightarrow> char" where
  "lower_ascii c = (let n = of_char c :: nat in if 65 \<le> n \<and> n \<le> 90 then char_of (n + 32) else c)"

definition lower_path :: "string \<Rightarrow> string" where
  "lower_path p = map lower_ascii p"

definition route_matches :: "string \<Rightarrow> string \<Rightarrow> bool" where
  "route_matches rp p \<longleftrightarrow>
     (let q = lower_path p; r = lower_path rp
      in if r \<noteq> [] \<and> last r = CHR ''/'' then q = r \<or> q = butlast r else q = r \<or> q = r @ ''/'')"

definition handles_method :: "http_method \<Rightarrow> http_method \<Rightarrow> bool" where
  "handles_method rm m \<longleftrightarrow> rm = m \<or> (m = HEAD \<and> rm = GET)"

definition route_options :: "http_method \<Rightarrow> http_method list" where
  "route_options rm = (if rm = GET then [GET, HEAD] else [rm])"

definition append_methods :: "http_method list \<Rightarrow> http_method list \<Rightarrow> http_method list" where
  "append_methods xs ys = fold (\<lambda>m acc. if m \<in> set acc then acc else acc @ [m]) ys xs"

definition auth_mw :: handler where
  "auth_mw cfg w b s r =
     (case isAuthenticated s of Next \<Rightarrow> CallNext | RedirectTo t \<Rightarrow> Respond (Redirect t, Keep s, r))"

definition app_routes :: "route list" where
  "app_routes =
     [\<lparr>r_method = GET, r_path = ''/login'',
       r_handlers = [\<lambda>cfg w b s r. Respond (with_reg r (get_login s))]\<rparr>,
      \<lparr>r_method = POST, r_path = ''/login'',
       r_handlers = [\<lambda>cfg w b s r. Respond (with_reg r (post_login cfg w (b ''username'') (b ''password'') s))]\<rparr>,
      \<lparr>r_method = POST, r_path = ''/set-db'',
       r_handlers = [auth_mw, \<lambda>cfg w b s r. Respond (with_reg r (post_set_db w (b ''dbPath'') s))]\<rparr>,
      \<lparr>r_method = GET, r_path = ''/'',
       r_handlers = [auth_mw, \<lambda>cfg w b s r. Respond (get_home w s r)]\<rparr>,
      \<lparr>r_method = GET, r_path = ''/logout'',
       r_handlers = [\<lambda>cfg w b s r. Respond (with_reg r (get_logout s))]\<rparr>]"

fun run_chain :: "handler list \<Rightarrow> handler" where
  "run_chain [] cfg w b s r = CallNext"
| "run_chain (h # hs) cfg w b s r = (case h cfg w b s r of CallNext \<Rightarrow> run_chain hs cfg w b s r | x \<Rightarrow> x)"

function route_walk ::
  "route list \<Rightarrow> nat \<Rightarrow> http_method list \<Rightarrow> http_method \<Rightarrow> string \<Rightarrow> config \<Rightarrow> env \<Rightarrow>
   (string \<Rightarrow> form_value option) \<Rightarrow> session \<Rightarrow> registry \<Rightarrow>
   (http_response \<times> session_result \<times> registry) option" where
  "route_walk rs idx opts m p cfg w b s r =
     (if idx < length rs then
        (if route_matches (r_path (rs ! idx)) p \<and> handles_method (r_method (rs ! idx)) m then
           (case run_chain (r_handlers (rs ! idx)) cfg w b s r of
              Respond (resp, res, r') \<Rightarrow> Some (Sent resp, res, r')
            | NoResponse \<Rightarrow> None
            | CallNext \<Rightarrow> route_walk rs (Suc idx) opts m p cfg w b s r)
         else if route_matches (r_path (rs ! idx)) p \<and> m = OPTIONS then
           route_walk rs (Suc idx) (append_methods opts (route_options (r_method (rs ! idx)))) m p cfg w b s r
         else route_walk rs (Suc idx) opts m p cfg w b s r)
      else if m = OPTIONS \<and> opts \<noteq> [] then Some (Allow opts, Keep s, r)
      else Some (NotFound m p, Keep s, r))"
  by pat_completeness auto
termination
  by (relation "measure (\<lambda>(rs, idx, _). length rs - idx)") auto

declare route_walk.simps [simp del]

definition serve_http :: "config \<Rightarrow> env \<Rightarrow> sid \<Rightarrow> http_request \<Rightarrow> server \<Rightarrow> (http_response \<times> server) option" where
  "serve_http cfg w i hr srv =
     (case h_body hr of
        Inl status \<Rightarrow> Some (BodyRejected status, srv)
      | Inr body \<Rightarrow>
          (let loaded = load_session (store srv) i (clock w)
           in case route_walk app_routes 0 [] (h_method hr) (h_path hr) cfg w (map_of body)
                     (current_session loaded) (reg srv) of
                None \<Rightarrow> None
              | Some (resp, res, r') \<Rightarrow>
                  Some (resp, \<lparr>store = save_session (store srv) i (clock w) loaded res, reg = r'\<rparr>)))"

definition route_of :: "http_method \<Rightarrow> string \<Rightarrow> (string \<Rightarrow> form_value option) \<Rightarrow> request option" where
  "route_of m p b =
     (if (m = GET \<or> m = HEAD) \<and> route_matches ''/login'' p then Some GetLogin
      else if m = POST \<and> route_matches ''/login'' p then Some (PostLogin (b ''username'') (b ''password''))
      else if m = POST \<and> route_matches ''/set-db'' p then Some (PostSetDb (b ''dbPath''))
      else if (m = GET \<or> m = HEAD) \<and> route_matches ''/'' p then Some GetHome
      else if (m = GET \<or> m = HEAD) \<and> route_matches ''/logout'' p then Some GetLogout
      else None)"

definition unrouted :: "http_method \<Rightarrow> string \<Rightarrow> http_response" where
  "unrouted m p =
     (let opts = fold (\<lambda>rt acc. if route_matches (r_path rt) p then append_methods acc (route_options (r_method rt)) else acc)
                   app_routes []
      in if m = OPTIONS \<and> opts \<noteq> [] then Allow opts else NotFound m p)"

subsection \<open>The walk over the routes of \<open>app.js\<close>\<close>

lemma app_paths_match:
  "route_matches ''/login'' p \<longleftrightarrow> lower_path p = ''/login'' \<or> lower_path p = ''/login/''"
  "route_matches ''/set-db'' p \<longleftrightarrow> lower_path p = ''/set-db'' \<or> lower_path p = ''/set-db/''"
  "route_matches ''/'' p \<longleftrightarrow> lower_path p = ''/'' \<or> lower_path p = []"
  "route_matches ''/logout'' p \<longleftrightarrow> lower_path p = ''/logout'' \<or> lower_path p = ''/logout/''"
proof -
  have "lower_path ''/login'' = ''/login''" "lower_path ''/set-db'' = ''/set-db''"
    "lower_path ''/'' = ''/''" "lower_path ''/logout'' = ''/logout''"
    by (simp_all add: lower_path_def lower_ascii_def)
  then show "route_matches ''/login'' p \<longleftrightarrow> lower_path p = ''/login'' \<or> lower_path p = ''/login/''"
    "route_matches ''/set-db'' p \<longleftrightarrow> lower_path p = ''/set-db'' \<or> lower_path p = ''/set-db/''"
    "route_matches ''/'' p \<longleftrightarrow> lower_path p = ''/'' \<or> lower_path p = []"
    "route_matches ''/logout'' p \<longleftrightarrow> lower_path p = ''/logout'' \<or> lower_path p = ''/logout/''"
    by (simp_all add: route_matches_def Let_def)
qed

lemma route_walk_step:
  "idx < length rs \<Longrightarrow> route_walk rs idx opts m p cfg w b s r =
        (if route_matches (r_path (rs ! idx)) p \<and> handles_method (r_method (rs ! idx)) m then
           (case run_chain (r_handlers (rs ! idx)) cfg w b s r of
              Respond (resp, res, r') \<Rightarrow> Some (Sent resp, res, r')
            | NoResponse \<Rightarrow> None
            | CallNext \<Rightarrow> route_walk rs (Suc idx) opts m p cfg w b s r)
         else if route_matches (r_path (rs ! idx)) p \<and> m = OPTIONS then
           route_walk rs (Suc idx) (append_methods opts (route_options (r_method (rs ! idx)))) m p cfg w b s r
         else route_walk rs (Suc idx) opts m p cfg w b s r)"
  by (simp add: route_walk.simps [of rs idx])

lemma route_walk_end:
  "\<not> idx < length rs \<Longrightarrow> route_walk rs idx opts m p cfg w b s r =
     (if m = OPTIONS \<and> opts \<noteq> [] then Some (Allow opts, Keep s, r) else Some (NotFound m p, Keep s, r))"
  by (simp add: route_walk.simps [of rs idx])

lemma app_paths_exclusive:
  "route_matches ''/login'' p \<Longrightarrow> \<not> route_matches ''/set-db'' p \<and> \<not> route_matches ''/'' p \<and> \<not> route_matches ''/logout'' p"
  "route_matches ''/set-db'' p \<Longrightarrow> \<not> route_matches ''/'' p \<and> \<not> route_matches ''/logout'' p"
  "route_matches ''/'' p \<Longrightarrow> \<not> route_matches ''/logout'' p"
  by (auto simp: app_paths_match)

lemma route_walk_app:
  "route_walk app_routes 0 [] m p cfg w b s r =
     Some (case route_of m p b of
             Some req \<Rightarrow> (Sent (fst (dispatch cfg w req s r)), snd (dispatch cfg w req s r))
           | None \<Rightarrow> (unrouted m p, Keep s, r))"
proof -
  consider (login) "route_matches ''/login'' p" | (setdb) "route_matches ''/set-db'' p"
    | (home) "route_matches ''/'' p" | (logout) "route_matches ''/logout'' p"
    | (none) "\<not> route_matches ''/login'' p" "\<not> route_matches ''/set-db'' p"
             "\<not> route_matches ''/'' p" "\<not> route_matches ''/logout'' p"
    by blast
  then show ?thesis
  proof cases
    case login
    with app_paths_exclusive(1) [OF login] show ?thesis
      by (cases m) (simp_all add: app_routes_def route_walk_step route_walk_end route_of_def unrouted_def
          handles_method_def auth_mw_def isAuthenticated_def append_methods_def route_options_def with_reg_def)
  next
    case setdb
    with app_paths_exclusive(2) [OF setdb] app_paths_exclusive(1) show ?thesis
      by (cases m; cases "user s") (auto simp: app_routes_def route_walk_step route_walk_end route_of_def unrouted_def
          handles_method_def auth_mw_def isAuthenticated_def append_methods_def route_options_def gated_def with_reg_def)
  next
    case home
    with app_paths_exclusive(3) [OF home] app_paths_exclusive(1,2) show ?thesis
      by (cases m; cases "user s") (auto simp: app_routes_def route_walk_step route_walk_end route_of_def unrouted_def
          handles_method_def auth_mw_def isAuthenticated_def append_methods_def route_options_def gated_def with_reg_def case_prod_unfold)
  next
    case logout
    with app_paths_exclusive(1,2,3) show ?thesis
      by (cases m; cases "user s") (auto simp: app_routes_def route_walk_step route_walk_end route_of_def unrouted_def
          handles_method_def auth_mw_def isAuthenticated_def append_methods_def route_options_def with_reg_def)
  next
    case none
    then show ?thesis
      by (cases m) (simp_all add: app_routes_def route_walk_step route_walk_end route_of_def unrouted_def
          handles_method_def)
  qed
qed

end
