(* ===== verification/Spec2Isabelle.thy ===== *)
theory Spec2Isabelle
  imports Abstract Interleaving Traces History Overlap Routing
begin

text \<open>
  \<^bold>\<open>A verification model of the focalboard-sqlite-viewer server.\<close>

  \<^emph>\<open>The program.\<close> \<open>src/app.js\<close> is an Express server that lets a logged-in operator
  choose a SQLite file on the server's disk and view its \<open>users\<close> table;
  \<open>src/init-auth.js\<close> provisions the credential file with one account. The parts and
  how they interact:
  \<^item> the \<^emph>\<open>connection registry\<close> (\<open>dbConnections\<close>, \<open>getDbConnection\<close>, lines 12--27):
    a process-wide \<open>Map\<close> from path strings to read-only better-sqlite3 handles, filled
    on first use, never emptied;
  \<^item> the \<^emph>\<open>session\<close> of each browser (express-session, lines 32--37): \<open>user\<close>,
    \<open>dbPath\<close> (the bound path) and \<open>dbError\<close> (a one-shot error message), in a store
    keyed by the session cookie; the store renews a session's one-hour expiry at every
    request, the browser's cookie only at a request that changed the session;
  \<^item> the \<^emph>\<open>gate\<close> \<open>isAuthenticated\<close> (lines 40--45) in front of \<open>POST /set-db\<close> and
    \<open>GET /\<close>;
  \<^item> the \<^emph>\<open>credential store\<close>: \<open>POST /login\<close> (lines 53--70) re-reads the JSON file at
    \<open>AUTH_PATH\<close>, takes the first record with the submitted user name and checks the
    password with bcrypt; \<open>init-auth.js\<close> writes that file;
  \<^item> the \<^emph>\<open>viewer\<close>: \<open>POST /set-db\<close> (lines 73--82) binds a path that exists,
    \<open>GET /\<close> (lines 85--116) takes the pending error, queries the bound database
    through the registry and renders rows and columns, \<open>GET /logout\<close> (119--122)
    destroys the session.

  \<^emph>\<open>The theories.\<close>
  \<^item> \<open>Prelude\<close>: type names (\<open>path\<close>, \<open>sid\<close>, \<open>ms\<close>), JavaScript truthiness
    (\<open>truthy\<close>, \<open>or_empty\<close>), \<open>undefined\<close> against \<open>null\<close> (\<open>nullable\<close>), the collections \<open>handler_defs\<close> and \<open>eval_simps\<close>, and
    lemmas on \<open>List.find\<close> and on \<open>AList.update\<close>, which is \<open>Map.prototype.set\<close> and
    an object property assignment (both keep insertion order).
  \<^item> \<open>JsObject\<close>: the key order of \<open>Object.keys\<close> (array-index keys first, ascending,
    then the others in creation order), with decimal numerals (\<open>nat_to_dec\<close>,
    \<open>dec_to_nat\<close>, their round trip), the ranking \<open>key_rank\<close> of the ECMAScript
    specification, and objects built by successive assignments.
  \<^item> \<open>World\<close>: the environment the handlers read and never write: files (\<open>env\<close>,
    \<open>existsSync\<close>, \<open>read_auth_users\<close>), the clock, and better-sqlite3
    (\<open>sqlite_open\<close>, \<open>sqlite_select_all\<close>, row objects).
  \<^item> \<open>Registry\<close>: \<open>registry\<close> (\<open>dbConnections\<close> as an insertion-ordered association
    list, \<open>opened\<close> counting \<open>new Database\<close> calls, which also names each handle) and
    \<open>getDbConnection\<close> with one lemma per branch, its invariant \<open>registry_inv\<close>, and
    the contract: reuse (C3), failures not cached (C4), refinement to a partial map (C5).
  \<^item> \<open>Session\<close>: \<open>session\<close> (with \<open>dbError\<close> absent, \<open>null\<close> or a message:
    express-session tells them apart), the store (\<open>load_session\<close>, \<open>save_session\<close>,
    \<open>max_age\<close>) with the store's expiry and the browser cookie's expiry of each entry,
    and \<open>isAuthenticated\<close>.
  \<^item> \<open>Forms\<close>: the body fields of \<open>express.urlencoded({ extended: true })\<close> as
    \<open>form_value\<close> (string, array, object) with the three things the handlers ask of
    them: \<open>field_truthy\<close>, \<open>field_string\<close>, \<open>field_typeof\<close>.
  \<^item> \<open>Auth\<close>: \<open>credential\<close>, the bcrypt interface and its contract \<open>bcrypt_ok\<close>,
    \<open>config\<close> (\<open>AUTH_PATH\<close>), \<open>find_user\<close>, \<open>check_password\<close> and \<open>init_auth\<close>.
  \<^item> \<open>Handlers\<close>: \<open>get_login\<close>, \<open>post_login\<close>, \<open>post_set_db\<close>, \<open>get_home\<close>,
    \<open>get_logout\<close>, each the whole route handler with its early returns, the exception
    of a handler as \<open>ServerError\<close>, a rendered page as the context object.
  \<^item> \<open>Server\<close>: the server state (\<open>store\<close>, \<open>reg\<close>), the route table \<open>dispatch\<close>
    with the gate, \<open>serve\<close> (load the session, dispatch, save the session), \<open>run\<close> over
    a sequence of requests and the inductive \<open>reachable\<close>.
  \<^item> \<open>Invariants\<close>: what each handler does to session and registry, and the invariant
    \<open>server_inv\<close> of every reachable state, by rule induction.
  \<^item> \<open>Abstract\<close>: the specification's session state machine \<open>spec_step\<close> and the
    abstraction \<open>abs_session\<close> of a loaded session.
  \<^item> \<open>Traces\<close>: \<open>abs_run\<close>, what one browser observes of its abstract session
    along a run, and \<open>spec_trace\<close>, the observation sequences the specification allows.
  \<^item> \<open>Interleaving\<close>: the registry seen through the files its handles are attached to
    (\<open>reg_files\<close>), what \<open>getDbConnection\<close> returns seen that way (\<open>conn_view\<close>) and
    how a request changes it (\<open>files_step\<close>, \<open>request_files\<close>); a request's response
    and session depend on the registry only through this view, and the view's steps
    commute.
  \<^item> \<open>History\<close>: \<open>reachable_at\<close>, the reachable states with the time of the last
    request when the clock never goes back, the invariant \<open>expiry_inv\<close> relating each
    stored session's two expiries to that time, and the growth of the registry request
    by request (\<open>dispatch_grows\<close>) counted by \<open>home_requests\<close>.
  \<^item> \<open>Overlap\<close>: requests whose session reads and writes interleave: a request in
    flight (\<open>inflight\<close>) holds the session read at its arrival (\<open>arrive\<close>), its
    handler and the write-back run as one step later (\<open>finish\<close>), \<open>serve\<close> is the two
    at once, and \<open>overlap_reachable\<close> is every state arrivals and ends in any order
    reach, with the server invariant and a valid snapshot in every request in flight.
  \<^item> \<open>Routing\<close>: how Express delivers a request (\<open>http_request\<close>: method, path,
    parsed or rejected body) to the handlers: the route table \<open>app_routes\<close> with each
    route's handler chain (\<open>auth_mw\<close> is \<open>isAuthenticated\<close> as a middleware that
    answers or calls \<open>next()\<close>), Express's path matching (\<open>route_matches\<close>) and method
    matching, the router's index loop \<open>route_walk\<close> (a \<open>function\<close> whose termination
    is the measure \<open>length stack - idx\<close>; \<open>None\<close> is a request left hanging) with the
    final handler's \<open>404\<close> and \<open>OPTIONS\<close> answers, and \<open>serve_http\<close>, body parser,
    session middleware and router together.
  \<^item> this theory: the properties that span components.

  \<^emph>\<open>Execution model.\<close> Every handler is synchronous, so Node.js runs each handler,
  with the session write that ends its response, to its end before starting another;
  only express-session's read of the session (\<open>store.get\<close>, whose callback is
  deferred) can happen earlier, at the request's arrival. \<open>reachable\<close> quantifies over
  every interleaving of whole requests of any browsers, with the world (files, clock)
  changing arbitrarily between requests; \<open>overlap_reachable\<close> also over every
  interleaving of arrivals and ends. The registry's race on duplicate opens that the
  specification allows for cannot happen in either (C1), but a browser's overlapping
  requests can undo each other's session changes (C40).

  \<^emph>\<open>What is proved.\<close>
  \<^item> Registry (C1, C3--C5, C23): in every reachable state, requests in flight
    included, at most one handle per path
    string and one \<open>new Database\<close> per cached path, so the duplicate-open race the
    specification allows for cannot occur (C1); a returned handle is returned again for
    that path in any later world (C3); failures are not cached and are retried (C4);
    as a partial map the registry only grows by the handles it returns (C5); it is keyed
    by spelling, so two spellings of one file get two handles (C23).
  \<^item> Sessions and gate (C2, C17--C20): stored sessions are always authenticated and
    well formed, requests in flight included (C2); every request refines a step of the specification's session state
    machine and leaves other browsers alone (C17); the gate, logout and expiry redirect
    to \<open>/login\<close> without touching the registry (C18--C20); a request that changes nothing
    does not renew the browser's cookie (C32), so a session ends an hour after its last
    change however active the browser is (C33).
  \<^item> Viewer (C6--C9, C21, C22): the set-db error is shown once (C6) but is lost when
    the bound database fails (C7, a defect); the table view lists rows and columns
    (C8), with integer-like column names moved to the front by \<open>Object.keys\<close> (C9) and
    no columns for an empty table (lemma \<open>home_empty_table_no_columns\<close>); binding is idempotent (C21) and accepts
    directories (C22).
  \<^item> Credentials (C11--C16): when a login succeeds (C11), the uniform failure message
    (C12), the first record deciding (C13), the uncaught exception for a password field
    that is not a string (C14), a path field that is not a string rejected (C34), the
    provisioning round trip (C15) and provisioning ignoring \<open>AUTH_PATH\<close>
    (C16); absence of the credential file reported apart (C30) and an unusable one
    raising the exception of the step that fails (C31); the array-index round trip behind \<open>Object.keys\<close> (C24) and the
    specification's end-to-end scenario (C25).
  \<^item> Dead code (C26): the \<open>null\<close> branch of \<open>getDbConnection\<close> is never reached from
    \<open>GET /\<close> in a reachable state.
  \<^item> Interleaving (C27): two requests of different browsers in the same world give the
    same responses, the same session store and the same path-to-file registry in either
    order; Node.js's choice of order shows only in which handle was created first.
  \<^item> Registry history (C29): a path enters the registry only through a \<open>GET /\<close> of an
    authenticated session bound to that path.
  \<^item> Shape, liveness, equivalence (C35--C37): every rendered row has exactly the
    listed columns (C35); a correct login followed by \<open>GET /\<close> reaches the home page
    from any state (C36); \<open>object_keys\<close> equals one stable sort by \<open>key_rank\<close> (C37).
  \<^item> Executions in time (C38, C39): with a clock that does not go back, every stored
    session's cookie expiry precedes its store expiry, which is at most an hour after the
    last request, so the cookie alone decides when a session ends (C38); over any run the
    registry only grows at its end, by at most one \<open>new Database\<close> per \<open>GET /\<close> (C39).
  \<^item> Requests as Express sees them (C10): every HTTP request is answered, never left
    hanging, and the answer is \<open>serve\<close> of the route its method and path select (ASCII
    case and a trailing slash ignored, \<open>HEAD\<close> as \<open>GET\<close>), the final handler's \<open>404\<close>
    or \<open>OPTIONS\<close> answer for any other, or the body parser's error status.
  \<^item> Overlapping requests (C40): a bind and a home view of one browser that read its
    session before either handler ran leave the session without the binding, although
    the bind answered with success.
  \<^item> Runs (C28): with a clock that does not go back, every run of the server, observed
    from any one browser, is a trace of the specification's state machine.
  Every function of the model is total: the recursions are structural (lists, \<open>run\<close>,
  \<open>run_chain\<close>), on \<open>n div 10\<close> (\<open>nat_to_dec\<close>), or, for Express's router loop
  \<open>route_walk\<close>, on an index bounded by the length of the layer stack (the measure
  \<open>length stack - idx\<close>), so no fuel is needed; a request that a handler would leave
  unanswered is the value \<open>None\<close> of \<open>serve_http\<close>, and C10 shows there is none. The
  one bound of the model is the array-index limit \<open>2^32 - 1\<close>.

  \<^emph>\<open>Plan.\<close> Modelled in this order, most important behaviour first: the registry
  and its contract; sessions, gate and the state machine of the specification with its
  refinement; the viewer handlers; the credential store and provisioning; the
  \<open>Object.keys\<close> semantics behind the column list. Then that requests of different
  browsers commute (C27), the refinement lifted to whole runs (C28), which requests can
  add a path to the registry (C29) and the failure branches of reading the credential
  file (C30, C31). Then the session lifetime as express-session implements it, with the
  browser's cookie expiry apart from the store's (C32, C33), the form fields Express
  parses into arrays or objects (C14, C34), and the shape, liveness and equivalence
  properties C35--C37. Last, properties of whole executions in time: which expiry ends a
  session (C38) and how fast the registry grows (C39); then requests whose session read
  and write interleave, with the main invariants carried over to them (C1, C2) and the
  lost update they allow (C40). Last, Express's routing in front of the handlers, with the
  termination of its router loop and the answer to every HTTP request (C10). \<open>save_session\<close> follows \<open>MemoryStore.touch\<close>, which
  renews the current entry and does nothing once it is gone, so that overlapping writes
  are modelled as the store performs them.

  \<^emph>\<open>Not modelled.\<close> HTML templates (\<open>res.render\<close> is the context object);
  module loading, \<open>PORT\<close> and \<open>app.listen\<close> (\<open>app.js\<close> lines 1--7, 10 and 124--126,
  pure I/O); the HTTP layer below Express (URL parsing to a pathname, headers, cookies
  and the session id they carry); Express's internal middlewares (\<open>query\<close>,
  \<open>expressInit\<close>), which always call \<open>next()\<close>; changes a handler makes to the session
  before calling \<open>next()\<close> (no handler of \<open>app.js\<close> does); the contents of array and object form fields beyond their kind (the handlers
  only test truthiness, string equality and \<open>typeof\<close>; a form object shaped like a file
  URL, which some Node versions' \<open>fs.existsSync\<close> would accept, is taken as rejected);
  the internals of bcrypt (an interface with a contract) and the error callback of
  \<open>bcrypt.hash\<close> in \<open>init-auth.js\<close> (the interface does not fail); SQLite beyond opening
  a file and \<open>SELECT *\<close> (a query reads the database stored at the handle's file), REAL
  column values and better-sqlite3's conversion of 64-bit integers to JavaScript numbers
  (which rounds beyond \<open>2^53\<close>): the handlers pass cell values to the template untouched,
  so they matter only to the rendered text, which is not modelled; and session ids beyond their role as the key of a browser's session.
\<close>

subsection \<open>A demonstration deployment\<close>

text \<open>
  A world with the credential file of \<open>init-auth.js\<close> (under a bcrypt stand-in whose hash
  is the password) and one database with a two-row \<open>users\<close> table, and a run of
  requests from two browsers. The witnesses below evaluate the model on it.
\<close>

definition demo_bcrypt :: bcrypt where
  "demo_bcrypt = \<lparr>hashpw = (\<lambda>salt pw. pw), compareSync = (\<lambda>pw h. pw = h)\<rparr>"

definition demo_cfg :: config where
  "demo_cfg = \<lparr>auth_path = ''auth.json'', crypt = demo_bcrypt\<rparr>"

definition demo_users :: table where
  "demo_users = \<lparr>tcols = [''id'', ''name''],
     tdata = [[SqlInteger 1, SqlText ''ann''], [SqlInteger 2, SqlText ''bob'']]\<rparr>"

definition demo_world :: env where
  "demo_world =
     \<lparr>files = [''auth.json'' \<mapsto> File (AuthJson [\<lparr>username = ''admin'', passwordHash = ''password123''\<rparr>]),
               ''a.db'' \<mapsto> File (SqliteDb [(''users'', demo_users)])],
      resolve = id, clock = 1000\<rparr>"

definition demo_requests :: "(env \<times> sid \<times> request) list" where
  "demo_requests =
     [(demo_world, 1, PostLogin (Some (FStr ''admin'')) (Some (FStr ''wrong''))),
      (demo_world, 2, GetHome),
      (demo_world, 1, PostLogin (Some (FStr ''admin'')) (Some (FStr ''password123''))),
      (demo_world, 1, PostSetDb (Some (FStr ''a.db''))),
      (demo_world, 2, PostLogin (Some (FStr ''admin'')) (Some (FStr ''password123''))),
      (demo_world, 2, PostSetDb (Some (FStr ''a.db''))),
      (demo_world, 1, GetHome),
      (demo_world, 2, GetHome),
      (demo_world, 1, GetLogout)]"

definition demo_server :: server where
  "demo_server = snd (run demo_cfg demo_requests initial_server)"

text \<open>A logged-in browser 1 with nothing bound, its session valid until 5000 ms.\<close>

definition demo_idle_server :: server where
  "demo_idle_server =
     \<lparr>store = [1 \<mapsto> \<lparr>sdata = \<lparr>user = Some ''admin'', dbPath = None, dbError = Null\<rparr>, expires = 5000,
                     cookie_expires = 5000\<rparr>],
      reg = empty_registry\<rparr>"

text \<open>The same browser bound to \<open>gone.db\<close>, a file that has since been deleted.\<close>

definition demo_gone_server :: server where
  "demo_gone_server =
     \<lparr>store = [1 \<mapsto> \<lparr>sdata = \<lparr>user = Some ''admin'', dbPath = Some ''gone.db'', dbError = Null\<rparr>,
                     expires = 5000, cookie_expires = 5000\<rparr>],
      reg = empty_registry\<rparr>"

text \<open>Browser 1 bound to \<open>a.db\<close> with a pending error.\<close>

definition demo_bound_session :: session where
  "demo_bound_session = \<lparr>user = Some ''admin'', dbPath = Some ''a.db'', dbError = Defined invalid_path_msg\<rparr>"

text \<open>A table whose second column has an integer-like name, and an empty table.\<close>

definition demo_years :: table where
  "demo_years = \<lparr>tcols = [''name'', ''2024''], tdata = [[SqlText ''ann'', SqlInteger 7]]\<rparr>"

definition demo_empty_users :: table where
  "demo_empty_users = \<lparr>tcols = [''id'', ''name''], tdata = []\<rparr>"

text \<open>A credential file with two records for \<open>admin\<close>, the first with another password.\<close>

definition demo_dup_world :: env where
  "demo_dup_world =
     \<lparr>files = [''auth.json'' \<mapsto> File (AuthJson [\<lparr>username = ''admin'', passwordHash = ''old''\<rparr>,
                                                \<lparr>username = ''admin'', passwordHash = ''new''\<rparr>])],
      resolve = id, clock = 0\<rparr>"

text \<open>The requests of the specification's end-to-end scenario, from one browser.\<close>

definition demo_e2e :: "(env \<times> sid \<times> request) list" where
  "demo_e2e =
     [(demo_world, 7, PostLogin (Some (FStr ''admin'')) (Some (FStr ''wrong''))),
      (demo_world, 7, PostLogin (Some (FStr ''admin'')) (Some (FStr ''password123''))),
      (demo_world, 7, GetHome),
      (demo_world, 7, PostSetDb (Some (FStr ''a.db''))),
      (demo_world, 7, GetHome),
      (demo_world, 7, PostSetDb (Some (FStr ''missing.db''))),
      (demo_world, 7, GetHome),
      (demo_world, 7, GetLogout),
      (demo_world, 7, GetHome)]"

text \<open>A world where \<open>data\<close> is a directory and \<open>./a.db\<close> names the file \<open>a.db\<close>.\<close>

definition demo_alias_world :: env where
  "demo_alias_world =
     demo_world\<lparr>files := (files demo_world)(''data'' \<mapsto> Dir),
                resolve := (\<lambda>p. if p = ''./a.db'' then ''a.db'' else p)\<rparr>"

text \<open>Both browsers logged in and bound to \<open>a.db\<close>, before either has asked for the page.\<close>

definition demo_pre_home :: server where
  "demo_pre_home = snd (run demo_cfg (take 6 demo_requests) initial_server)"

text \<open>
  One browser that logs in, opens the home page at once, and opens it again 50 and
  about 62 minutes later, without changing anything in between.
\<close>

definition demo_idle_user :: "(env \<times> sid \<times> request) list" where
  "demo_idle_user =
     [(demo_world, 5, PostLogin (Some (FStr ''admin'')) (Some (FStr ''password123''))),
      (demo_world, 5, GetHome),
      (demo_world\<lparr>clock := 3000000\<rparr>, 5, GetHome),
      (demo_world\<lparr>clock := 3700000\<rparr>, 5, GetHome)]"

text \<open>Browser 5 just after logging in: its session has a user and nothing else.\<close>

definition demo_login_server :: server where
  "demo_login_server = snd (run demo_cfg (take 1 demo_idle_user) initial_server)"

lemma demo_server_reachable: "reachable demo_cfg demo_server"
  unfolding demo_server_def by (rule reachable_run [OF reachable.init])

text \<open>The demonstration state with a \<open>GET /\<close> of browser 2 whose session has been read.\<close>

lemma demo_overlap_reachable:
  "overlap_reachable demo_cfg demo_server [arrive 2 GetHome 1000 demo_server]"
  using overlap_reachable.arrive [OF reachable_overlap [OF demo_server_reachable]] by simp

lemmas demo_simps = demo_cfg_def demo_bcrypt_def demo_users_def demo_world_def
  demo_requests_def demo_server_def demo_idle_server_def demo_gone_server_def
  demo_bound_session_def demo_years_def demo_empty_users_def demo_dup_world_def
  demo_e2e_def demo_alias_world_def demo_pre_home_def demo_idle_user_def
  demo_login_server_def

subsection \<open>The connection registry across all executions\<close>

text \<open>
  C1. In every state the server can reach, by any interleaving of requests from any
  browsers in any worlds, also while requests are in flight between the read of their
  session and their handler, \<open>dbConnections\<close> has at most one handle per path string, and
  the number of \<open>new Database\<close> calls made so far equals the number of paths in it: no
  path is ever opened twice.
\<close>

theorem no_duplicate_connections:
  assumes "overlap_reachable cfg srv fl"
  shows "distinct (map fst (dbConnections (reg srv))) \<and>
         card (fst ` set (dbConnections (reg srv))) = opened (reg srv)"
proof -
  from assms have "registry_inv (reg srv)"
    using overlap_reachable_inv by (simp add: overlap_inv_def server_inv_def)
  then show ?thesis
    by (simp add: registry_inv_def registry_inv_card)
qed

theorem no_duplicate_connections_witness:
  "overlap_reachable demo_cfg demo_server [arrive 2 GetHome 1000 demo_server] \<and>
   distinct (map fst (dbConnections (reg demo_server))) \<and>
   card (fst ` set (dbConnections (reg demo_server))) = opened (reg demo_server) \<and>
   dbConnections (reg demo_server) = [(''a.db'', \<lparr>h_id = 0, h_file = ''a.db''\<rparr>)]"
proof -
  have "dbConnections (reg demo_server) = [(''a.db'', \<lparr>h_id = 0, h_file = ''a.db''\<rparr>)]"
    by (simp add: demo_simps eval_simps)
  then show ?thesis
    using demo_overlap_reachable no_duplicate_connections [OF demo_overlap_reachable] by simp
qed

subsection \<open>Sessions across all executions\<close>

text \<open>
  C2. In every reachable state, with any requests in flight, every session in the store
  belongs to a logged-in user,
  its bound path, if any, is a non-empty string, and its pending error, if any, is the
  message of a failed \<open>POST /set-db\<close>. In particular requests of browsers that never
  log in leave nothing in the store.
\<close>

theorem stored_sessions_authenticated:
  assumes "overlap_reachable cfg srv fl" and "store srv i = Some e"
  shows "user (sdata e) \<noteq> None \<and>
         (dbPath (sdata e) = None \<or> truthy (dbPath (sdata e))) \<and>
         (\<forall>m. dbError (sdata e) = Defined m \<longrightarrow> m = invalid_path_msg)"
proof -
  from assms(1) have "store_inv (store srv)"
    using overlap_reachable_inv by (simp add: overlap_inv_def server_inv_def)
  with assms(2) have "session_inv (sdata e)"
    by (auto simp: store_inv_def ran_def)
  then show ?thesis by (simp add: session_inv_def)
qed

theorem stored_sessions_authenticated_witness:
  "overlap_reachable demo_cfg demo_server [arrive 2 GetHome 1000 demo_server] \<and>
   store demo_server 2 = Some \<lparr>sdata = \<lparr>user = Some ''admin'', dbPath = Some ''a.db'', dbError = Null\<rparr>,
                              expires = 1000 + max_age, cookie_expires = 1000 + max_age\<rparr> \<and>
   store demo_server 1 = None \<and>
   user (sdata (the (store demo_server 2))) \<noteq> None"
proof -
  have st2: "store demo_server 2 = Some \<lparr>sdata = \<lparr>user = Some ''admin'', dbPath = Some ''a.db'', dbError = Null\<rparr>,
                              expires = 1000 + max_age, cookie_expires = 1000 + max_age\<rparr>"
    by (simp add: demo_simps eval_simps)
  have st1: "store demo_server 1 = None"
    by (simp add: demo_simps eval_simps)
  show ?thesis
    using demo_overlap_reachable st1 st2
      stored_sessions_authenticated [OF demo_overlap_reachable st2] by simp
qed

subsection \<open>The one-shot error of \<open>POST /set-db\<close>\<close>

text \<open>
  C6. A logged-in browser with no bound path and no pending error submits a path that
  is empty or does not exist. It is redirected home; the next \<open>GET /\<close> (within an hour)
  shows the error with an empty table, and the one after it (within an hour of that)
  shows no error, with no new action in between. The binding stays unset and the
  registry is not touched. The store renews the session's expiry at the third request,
  but the browser's cookie keeps the expiry of the second: the third request changed
  nothing in the session, so its response carries no \<open>Set-Cookie\<close>.
\<close>

theorem failed_bind_error_shown_once:
  assumes loaded: "load_session (store srv) i (clock w1) = Some s"
    and auth: "user s \<noteq> None" and unbound: "dbPath s = None"
    and nopending: "dbError s \<noteq> Defined invalid_path_msg"
    and bad: "\<not> (field_truthy d \<and> existsSync_value w1 d)"
    and t2: "clock w2 < clock w1 + max_age" and t3: "clock w3 < clock w2 + max_age"
    and r1: "serve cfg w1 i (PostSetDb d) srv = (resp1, srv1)"
    and r2: "serve cfg w2 i GetHome srv1 = (resp2, srv2)"
    and r3: "serve cfg w3 i GetHome srv2 = (resp3, srv3)"
  shows "resp1 = Redirect ''/'' \<and>
    resp2 = RenderIndex \<lparr>iv_user = user s, iv_columns = [], iv_rows = [], iv_dbPath = [],
                         iv_error = Some invalid_path_msg\<rparr> \<and>
    resp3 = RenderIndex \<lparr>iv_user = user s, iv_columns = [], iv_rows = [], iv_dbPath = [],
                         iv_error = None\<rparr> \<and>
    store srv3 i = Some \<lparr>sdata = s\<lparr>dbError := Null\<rparr>, expires = clock w3 + max_age,
                         cookie_expires = clock w2 + max_age\<rparr> \<and>
    reg srv3 = reg srv"
proof -
  let ?s1 = "s\<lparr>dbError := Defined invalid_path_msg\<rparr>"
  let ?s2 = "s\<lparr>dbError := Null\<rparr>"
  from nopending have ne1: "?s1 \<noteq> s" by (auto dest: arg_cong [where f = dbError])
  have ne2: "?s2 \<noteq> ?s1" by (auto dest: arg_cong [where f = dbError])
  have d1: "dispatch cfg w1 (PostSetDb d) s (reg srv) = (Redirect ''/'', Keep ?s1, reg srv)"
    using auth by (simp add: post_set_db_def if_not_P [OF bad] with_reg_def)
  from serve_step [OF loaded d1 r1]
  have e1: "resp1 = Redirect ''/''" and srv1:
    "srv1 = \<lparr>store = save_session (store srv) i (clock w1) (Some s) (Keep ?s1), reg = reg srv\<rparr>"
    by simp_all
  from srv1 t2 ne1 have l2: "load_session (store srv1) i (clock w2) = Some ?s1"
    by (simp add: load_save_changed)
  have d2: "dispatch cfg w2 GetHome ?s1 (reg srv1) =
      (RenderIndex \<lparr>iv_user = user s, iv_columns = [], iv_rows = [], iv_dbPath = [],
                    iv_error = Some invalid_path_msg\<rparr>, Keep ?s2, reg srv1)"
    using auth unbound by (simp add: get_home_unbound defined_value_def)
  from serve_step [OF l2 d2 r2]
  have e2: "resp2 = RenderIndex \<lparr>iv_user = user s, iv_columns = [], iv_rows = [], iv_dbPath = [],
                    iv_error = Some invalid_path_msg\<rparr>"
    and srv2: "srv2 = \<lparr>store = save_session (store srv1) i (clock w2) (Some ?s1) (Keep ?s2), reg = reg srv1\<rparr>"
    by simp_all
  from srv2 t3 ne2 have l3: "load_session (store srv2) i (clock w3) = Some ?s2"
    by (simp add: load_save_changed)
  have d3: "dispatch cfg w3 GetHome ?s2 (reg srv2) =
      (RenderIndex \<lparr>iv_user = user s, iv_columns = [], iv_rows = [], iv_dbPath = [],
                    iv_error = None\<rparr>, Keep ?s2, reg srv2)"
    using auth unbound by (simp add: get_home_unbound defined_value_def)
  from serve_step [OF l3 d3 r3]
  have e3: "resp3 = RenderIndex \<lparr>iv_user = user s, iv_columns = [], iv_rows = [], iv_dbPath = [],
                    iv_error = None\<rparr>"
    and srv3: "srv3 = \<lparr>store = save_session (store srv2) i (clock w3) (Some ?s2) (Keep ?s2), reg = reg srv2\<rparr>"
    by simp_all
  from srv2 ne2 have "store srv2 i =
      Some \<lparr>sdata = ?s2, expires = clock w2 + max_age, cookie_expires = clock w2 + max_age\<rparr>"
    by (simp add: save_changed)
  with srv3 t3 have "store srv3 i =
      Some \<lparr>sdata = ?s2, expires = clock w3 + max_age, cookie_expires = clock w2 + max_age\<rparr>"
    by (simp add: save_unchanged)
  with e1 e2 e3 srv1 srv2 srv3 show ?thesis by simp
qed

theorem failed_bind_error_shown_once_witness:
  "let w2 = demo_world\<lparr>clock := 2000\<rparr>; w3 = demo_world\<lparr>clock := 3000\<rparr>;
       srv1 = snd (serve demo_cfg demo_world 1 (PostSetDb (Some (FStr ''nope.db''))) demo_idle_server);
       srv2 = snd (serve demo_cfg w2 1 GetHome srv1)
   in fst (serve demo_cfg w2 1 GetHome srv1) =
        RenderIndex \<lparr>iv_user = Some ''admin'', iv_columns = [], iv_rows = [], iv_dbPath = [],
                     iv_error = Some invalid_path_msg\<rparr> \<and>
      fst (serve demo_cfg w3 1 GetHome srv2) =
        RenderIndex \<lparr>iv_user = Some ''admin'', iv_columns = [], iv_rows = [], iv_dbPath = [],
                     iv_error = None\<rparr>"
proof -
  have loaded: "load_session (store demo_idle_server) 1 (clock demo_world) =
      Some \<lparr>user = Some ''admin'', dbPath = None, dbError = Null\<rparr>"
    by (simp add: demo_simps eval_simps)
  have bad: "\<not> (field_truthy (Some (FStr ''nope.db'')) \<and> existsSync_value demo_world (Some (FStr ''nope.db'')))"
    by (simp add: demo_simps eval_simps)
  have t2: "clock (demo_world\<lparr>clock := 2000\<rparr>) < clock demo_world + max_age"
    and t3: "clock (demo_world\<lparr>clock := 3000\<rparr>) < clock (demo_world\<lparr>clock := 2000\<rparr>) + max_age"
    by (simp_all add: demo_world_def max_age_def)
  show ?thesis
    using failed_bind_error_shown_once [OF loaded _ _ _ bad t2 t3 surjective_pairing surjective_pairing
        surjective_pairing]
    by (simp add: Let_def)
qed

text \<open>
  C7. A logged-in browser is bound to a path whose file has been deleted, and it submits
  an invalid path. The next \<open>GET /\<close> fails to connect: it renders the connection error
  with an empty table and the old binding, and clears the pending error. The message of
  the failed \<open>POST /set-db\<close> is never shown: the handler takes the pending error before
  the \<open>try\<close>, and the \<open>catch\<close> renders only the exception's message. (Both requests
  change the session, so both renew the browser's cookie.)
\<close>

theorem pending_bind_error_lost:
  assumes loaded: "load_session (store srv) i (clock w1) = Some s"
    and auth: "user s \<noteq> None" and bound: "dbPath s = Some p" and nonempty: "p \<noteq> []"
    and uncached: "map_of (dbConnections (reg srv)) p = None" and gone: "lookup_path w2 p = None"
    and nopending: "dbError s \<noteq> Defined invalid_path_msg"
    and bad: "\<not> (field_truthy d \<and> existsSync_value w1 d)"
    and t2: "clock w2 < clock w1 + max_age"
    and r1: "serve cfg w1 i (PostSetDb d) srv = (resp1, srv1)"
    and r2: "serve cfg w2 i GetHome srv1 = (resp2, srv2)"
  shows "resp2 = RenderIndex \<lparr>iv_user = user s, iv_columns = [], iv_rows = [], iv_dbPath = p,
           iv_error = Some (''Failed to connect to '' @ p @ '': unable to open database file'')\<rparr> \<and>
         store srv2 i = Some \<lparr>sdata = s\<lparr>dbError := Null\<rparr>, expires = clock w2 + max_age,
                              cookie_expires = clock w2 + max_age\<rparr> \<and>
         reg srv2 = reg srv"
proof -
  let ?s1 = "s\<lparr>dbError := Defined invalid_path_msg\<rparr>"
  from nopending have ne1: "?s1 \<noteq> s" by (auto dest: arg_cong [where f = dbError])
  have ne2: "s\<lparr>dbError := Null\<rparr> \<noteq> ?s1" by (auto dest: arg_cong [where f = dbError])
  let ?msg = "''Failed to connect to '' @ p @ '': unable to open database file''"
  have d1: "dispatch cfg w1 (PostSetDb d) s (reg srv) = (Redirect ''/'', Keep ?s1, reg srv)"
    using auth by (simp add: post_set_db_def if_not_P [OF bad] with_reg_def)
  from serve_step [OF loaded d1 r1] have srv1:
    "srv1 = \<lparr>store = save_session (store srv) i (clock w1) (Some s) (Keep ?s1), reg = reg srv\<rparr>"
    by simp
  from srv1 t2 ne1 have l2: "load_session (store srv1) i (clock w2) = Some ?s1"
    by (simp add: load_save_changed)
  have "sqlite_open w2 p = Inl CantOpen"
    using gone by (simp add: sqlite_open_def)
  then have conn: "getDbConnection w2 p (reg srv1) = (Inl ?msg, reg srv1)"
    using srv1 nonempty uncached by (simp add: getDbConnection_fails)
  have d2: "dispatch cfg w2 GetHome ?s1 (reg srv1) =
      (RenderIndex (failed_view ?s1 p ?msg), Keep (s\<lparr>dbError := Null\<rparr>), reg srv1)"
    using auth bound nonempty conn by (simp add: get_home_conn_error)
  from serve_step [OF l2 d2 r2] have e2: "resp2 = RenderIndex (failed_view ?s1 p ?msg)"
    and srv2: "srv2 = \<lparr>store = save_session (store srv1) i (clock w2) (Some ?s1) (Keep (s\<lparr>dbError := Null\<rparr>)),
                       reg = reg srv1\<rparr>"
    by simp_all
  show ?thesis
    using e2 srv1 srv2 ne2 by (simp add: failed_view_def save_changed)
qed

theorem pending_bind_error_lost_witness:
  "let w2 = \<lparr>files = Map.empty, resolve = id, clock = 2000\<rparr>;
       srv1 = snd (serve demo_cfg demo_world 1 (PostSetDb (Some (FStr ''nope.db''))) demo_gone_server)
   in fst (serve demo_cfg w2 1 GetHome srv1) =
        RenderIndex \<lparr>iv_user = Some ''admin'', iv_columns = [], iv_rows = [], iv_dbPath = ''gone.db'',
          iv_error = Some ''Failed to connect to gone.db: unable to open database file''\<rparr> \<and>
      dbError (sdata (the (store (snd (serve demo_cfg w2 1 GetHome srv1)) 1))) = Null"
proof -
  have loaded: "load_session (store demo_gone_server) 1 (clock demo_world) =
      Some \<lparr>user = Some ''admin'', dbPath = Some ''gone.db'', dbError = Null\<rparr>"
    by (simp add: demo_simps eval_simps)
  have uncached: "map_of (dbConnections (reg demo_gone_server)) ''gone.db'' = None"
    by (simp add: demo_simps eval_simps)
  have gone: "lookup_path \<lparr>files = Map.empty, resolve = id, clock = 2000\<rparr> ''gone.db'' = None"
    by (simp add: eval_simps)
  have bad: "\<not> (field_truthy (Some (FStr ''nope.db'')) \<and> existsSync_value demo_world (Some (FStr ''nope.db'')))"
    by (simp add: demo_simps eval_simps)
  have t2: "clock \<lparr>files = Map.empty, resolve = id, clock = 2000\<rparr> < clock demo_world + max_age"
    by (simp add: demo_world_def max_age_def)
  show ?thesis
    using pending_bind_error_lost [OF loaded _ _ _ uncached gone _ bad t2 surjective_pairing surjective_pairing]
    by (simp add: Let_def)
qed

subsection \<open>The table view\<close>

text \<open>
  C8. \<open>GET /\<close> for a session bound to a SQLite file with a non-empty \<open>users\<close> table whose
  column names are not integer-like shows every row, the table's columns in schema order
  and the pending error (none after a successful bind), and clears the pending error.
\<close>

theorem home_lists_users:
  assumes bound: "truthy (dbPath s)"
    and conn: "getDbConnection w (the (dbPath s)) r = (Inr (Some h), r')"
    and dbfile: "files w (h_file h) = Some (File (SqliteDb db))" and tbl: "map_of db ''users'' = Some tb"
    and wf: "wf_table tb" and rows: "tdata tb \<noteq> []"
    and plain: "\<forall>c \<in> set (tcols tb). \<not> is_array_index c"
  shows "get_home w s r =
    (RenderIndex \<lparr>iv_user = user s, iv_columns = tcols tb, iv_rows = map (row_object tb) (tdata tb),
                  iv_dbPath = the (dbPath s), iv_error = defined_value (dbError s)\<rparr>,
     Keep (s\<lparr>dbError := Null\<rparr>), r')"
proof -
  have sel: "sqlite_select_all w (h_file h) ''users'' = Inr (map (row_object tb) (tdata tb))"
    using dbfile tbl by (simp add: sqlite_select_all_def)
  have "hd (tdata tb) \<in> set (tdata tb)" using rows by simp
  with wf have keys: "map fst (row_object tb (hd (tdata tb))) = tcols tb"
    by (rule row_object_keys)
  with plain have "object_keys (row_object tb (hd (tdata tb))) = tcols tb"
    by (metis object_keys_no_index set_map)
  with wf rows have "home_columns (map (row_object tb) (tdata tb)) = tcols tb"
    by (simp add: home_columns_table)
  with bound conn sel show ?thesis
    by (simp add: get_home_connected)
qed

theorem home_lists_users_witness:
  "get_home demo_world demo_bound_session empty_registry =
     (RenderIndex \<lparr>iv_user = Some ''admin'', iv_columns = [''id'', ''name''],
        iv_rows = [[(''id'', SqlInteger 1), (''name'', SqlText ''ann'')],
                   [(''id'', SqlInteger 2), (''name'', SqlText ''bob'')]],
        iv_dbPath = ''a.db'', iv_error = Some invalid_path_msg\<rparr>,
      Keep (demo_bound_session\<lparr>dbError := Null\<rparr>),
      \<lparr>dbConnections = [(''a.db'', \<lparr>h_id = 0, h_file = ''a.db''\<rparr>)], opened = 1\<rparr>)"
proof -
  have bound: "truthy (dbPath demo_bound_session)"
    by (simp add: demo_simps)
  have conn: "getDbConnection demo_world (the (dbPath demo_bound_session)) empty_registry =
      (Inr (Some \<lparr>h_id = 0, h_file = ''a.db''\<rparr>),
       \<lparr>dbConnections = [(''a.db'', \<lparr>h_id = 0, h_file = ''a.db''\<rparr>)], opened = 1\<rparr>)"
    by (simp add: demo_simps eval_simps)
  have dbfile: "files demo_world (h_file \<lparr>h_id = 0, h_file = ''a.db''\<rparr>) =
      Some (File (SqliteDb [(''users'', demo_users)]))"
    by (simp add: demo_world_def)
  have tbl: "map_of [(''users'', demo_users)] ''users'' = Some demo_users" by simp
  have wf: "wf_table demo_users" and rows: "tdata demo_users \<noteq> []"
    and plain: "\<forall>c \<in> set (tcols demo_users). \<not> is_array_index c"
    by (simp_all add: demo_users_def wf_table_def eval_simps)
  show ?thesis
    using home_lists_users [OF bound conn dbfile tbl wf rows plain]
    by (simp add: demo_simps eval_simps)
qed

text \<open>
  C9. The column list is \<open>Object.keys\<close> of the first row object, so for any
  well-formed non-empty table the integer-like column names (array indices such as
  \<open>2024\<close>) come first in ascending numeric order, followed by the other column names in
  schema order: the displayed column order is not the table's column order.
\<close>

theorem home_columns_key_order:
  assumes wf: "wf_table tb" and rows: "tdata tb \<noteq> []"
  shows "home_columns (map (row_object tb) (tdata tb)) =
    sort_key index_of (filter is_array_index (tcols tb)) @ filter (\<lambda>k. \<not> is_array_index k) (tcols tb)"
proof -
  have "hd (tdata tb) \<in> set (tdata tb)" using rows by simp
  with wf have "map fst (row_object tb (hd (tdata tb))) = tcols tb"
    by (rule row_object_keys)
  with wf rows show ?thesis
    by (simp add: home_columns_table object_keys_def Let_def)
qed

theorem home_columns_key_order_witness:
  "home_columns (map (row_object demo_years) (tdata demo_years)) = [''2024'', ''name''] \<and>
   tcols demo_years = [''name'', ''2024'']"
proof -
  have wf: "wf_table demo_years" and rows: "tdata demo_years \<noteq> []"
    by (simp_all add: demo_years_def wf_table_def)
  show ?thesis
    using home_columns_key_order [OF wf rows] by (simp add: demo_years_def eval_simps)
qed

text \<open>
  For a bound \<open>users\<close> table without rows the view shows no columns at all, although
  the table has columns: the column list comes from the first row only.
\<close>

theorem home_empty_table_no_columns:
  assumes bound: "truthy (dbPath s)"
    and conn: "getDbConnection w (the (dbPath s)) r = (Inr (Some h), r')"
    and dbfile: "files w (h_file h) = Some (File (SqliteDb db))" and tbl: "map_of db ''users'' = Some tb"
    and empty: "tdata tb = []"
  shows "get_home w s r =
    (RenderIndex \<lparr>iv_user = user s, iv_columns = [], iv_rows = [],
                  iv_dbPath = the (dbPath s), iv_error = defined_value (dbError s)\<rparr>,
     Keep (s\<lparr>dbError := Null\<rparr>), r')"
proof -
  have "sqlite_select_all w (h_file h) ''users'' = Inr []"
    using dbfile tbl empty by (simp add: sqlite_select_all_def)
  with bound conn show ?thesis
    by (simp add: get_home_connected home_columns_def)
qed

theorem home_empty_table_no_columns_witness:
  "tcols demo_empty_users \<noteq> [] \<and>
   fst (get_home \<lparr>files = [''e.db'' \<mapsto> File (SqliteDb [(''users'', demo_empty_users)])], resolve = id, clock = 0\<rparr>
          \<lparr>user = Some ''admin'', dbPath = Some ''e.db'', dbError = Null\<rparr> empty_registry) =
     RenderIndex \<lparr>iv_user = Some ''admin'', iv_columns = [], iv_rows = [], iv_dbPath = ''e.db'', iv_error = None\<rparr>"
proof -
  let ?w = "\<lparr>files = [''e.db'' \<mapsto> File (SqliteDb [(''users'', demo_empty_users)])], resolve = id, clock = 0\<rparr>"
  let ?s = "\<lparr>user = Some ''admin'', dbPath = Some ''e.db'', dbError = Null\<rparr>"
  have bound: "truthy (dbPath ?s)" by simp
  have conn: "getDbConnection ?w (the (dbPath ?s)) empty_registry =
      (Inr (Some \<lparr>h_id = 0, h_file = ''e.db''\<rparr>),
       \<lparr>dbConnections = [(''e.db'', \<lparr>h_id = 0, h_file = ''e.db''\<rparr>)], opened = 1\<rparr>)"
    by (simp add: eval_simps)
  have dbfile: "files ?w (h_file \<lparr>h_id = 0, h_file = ''e.db''\<rparr>) =
      Some (File (SqliteDb [(''users'', demo_empty_users)]))" by simp
  have tbl: "map_of [(''users'', demo_empty_users)] ''users'' = Some demo_empty_users" by simp
  have empty: "tdata demo_empty_users = []" by (simp add: demo_empty_users_def)
  show ?thesis
    using home_empty_table_no_columns [OF bound conn dbfile tbl empty]
    by (simp add: demo_empty_users_def defined_value_def)
qed

subsection \<open>Logging in\<close>

text \<open>
  C11. \<open>POST /login\<close> redirects home and records the submitted user name in the session
  exactly when the credential file exists and parses, the first record with that user
  name exists, a password was submitted and bcrypt accepts it against that record's hash.
\<close>

theorem login_succeeds_iff:
  "post_login cfg w u pw s = (Redirect ''/'', Keep (s\<lparr>user := field_string u\<rparr>)) \<longleftrightarrow>
   (\<exists>users c p. existsSync w (auth_path cfg) \<and> read_auth_users w (auth_path cfg) = Inr users \<and>
      find_user users (field_string u) = Some c \<and> pw = Some (FStr p) \<and>
      compareSync (crypt cfg) p (passwordHash c))"
  by (auto simp: post_login_def check_password_def dest: find_user_Some
      split: option.splits sum.splits bool.splits if_splits form_value.splits)

theorem login_succeeds_iff_witness:
  "post_login demo_cfg demo_world (Some (FStr ''admin'')) (Some (FStr ''password123'')) fresh_session =
     (Redirect ''/'', Keep (fresh_session\<lparr>user := Some ''admin''\<rparr>)) \<and>
   post_login demo_cfg demo_world (Some (FStr ''admin'')) (Some (FStr ''wrong'')) fresh_session \<noteq>
     (Redirect ''/'', Keep (fresh_session\<lparr>user := Some ''admin''\<rparr>))"
proof -
  have ok: "\<exists>users c p. existsSync demo_world (auth_path demo_cfg) \<and>
      read_auth_users demo_world (auth_path demo_cfg) = Inr users \<and>
      find_user users (field_string (Some (FStr ''admin''))) = Some c \<and>
      Some (FStr ''password123'') = Some (FStr p) \<and>
      compareSync (crypt demo_cfg) p (passwordHash c)"
    by (simp add: demo_simps eval_simps)
  have bad: "\<not> (\<exists>users c p. existsSync demo_world (auth_path demo_cfg) \<and>
      read_auth_users demo_world (auth_path demo_cfg) = Inr users \<and>
      find_user users (field_string (Some (FStr ''admin''))) = Some c \<and>
      Some (FStr ''wrong'') = Some (FStr p) \<and>
      compareSync (crypt demo_cfg) p (passwordHash c))"
    by (simp add: demo_simps eval_simps)
  show ?thesis
    using ok bad
      login_succeeds_iff [of demo_cfg demo_world "Some (FStr ''admin'')" "Some (FStr ''password123'')" fresh_session]
      login_succeeds_iff [of demo_cfg demo_world "Some (FStr ''admin'')" "Some (FStr ''wrong'')" fresh_session]
    by simp
qed

text \<open>
  C12. With a readable credential file and a submitted password, an unknown user name and
  a wrong password give the same answer, the login form with the one message
  \<open>Invalid username or password\<close>, and leave the session as it was.
\<close>

theorem login_failure_uniform:
  assumes "existsSync w (auth_path cfg)" and "read_auth_users w (auth_path cfg) = Inr users"
    and "\<forall>c. find_user users (field_string u) = Some c \<longrightarrow> \<not> compareSync (crypt cfg) p (passwordHash c)"
  shows "post_login cfg w u (Some (FStr p)) s = (RenderLogin (Some invalid_login_msg), Keep s)"
  using assms by (auto simp: post_login_def check_password_def split: option.splits)

theorem login_failure_uniform_witness:
  "post_login demo_cfg demo_world (Some (FStr ''eve'')) (Some (FStr ''password123'')) fresh_session =
     (RenderLogin (Some invalid_login_msg), Keep fresh_session) \<and>
   post_login demo_cfg demo_world (Some (FStr ''admin'')) (Some (FStr ''wrong'')) fresh_session =
     (RenderLogin (Some invalid_login_msg), Keep fresh_session)"
proof -
  have ex: "existsSync demo_world (auth_path demo_cfg)"
    and rd: "read_auth_users demo_world (auth_path demo_cfg) =
        Inr [\<lparr>username = ''admin'', passwordHash = ''password123''\<rparr>]"
    by (simp_all add: demo_simps eval_simps)
  have nobody: "\<forall>c. find_user [\<lparr>username = ''admin'', passwordHash = ''password123''\<rparr>] (field_string (Some (FStr ''eve''))) = Some c \<longrightarrow>
      \<not> compareSync (crypt demo_cfg) ''password123'' (passwordHash c)"
    and wrong: "\<forall>c. find_user [\<lparr>username = ''admin'', passwordHash = ''password123''\<rparr>] (field_string (Some (FStr ''admin''))) = Some c \<longrightarrow>
      \<not> compareSync (crypt demo_cfg) ''wrong'' (passwordHash c)"
    by (simp_all add: demo_simps eval_simps)
  show ?thesis
    using login_failure_uniform [OF ex rd nobody] login_failure_uniform [OF ex rd wrong] by simp
qed

text \<open>
  C13. The first record with the submitted user name decides: when it does not accept the
  password, the login fails even if a later record with the same name would.
\<close>

theorem login_first_match_decides:
  assumes "existsSync w (auth_path cfg)" and "read_auth_users w (auth_path cfg) = Inr (c1 # rest)"
    and "\<not> compareSync (crypt cfg) p (passwordHash c1)"
  shows "post_login cfg w (Some (FStr (username c1))) (Some (FStr p)) s = (RenderLogin (Some invalid_login_msg), Keep s)"
  using assms by (simp add: post_login_def check_password_def find_user_first)

theorem login_first_match_decides_witness:
  "post_login demo_cfg demo_dup_world (Some (FStr ''admin'')) (Some (FStr ''new'')) fresh_session =
     (RenderLogin (Some invalid_login_msg), Keep fresh_session) \<and>
   compareSync (crypt demo_cfg) ''new'' ''new''"
proof -
  have ex: "existsSync demo_dup_world (auth_path demo_cfg)"
    and rd: "read_auth_users demo_dup_world (auth_path demo_cfg) =
      Inr (\<lparr>username = ''admin'', passwordHash = ''old''\<rparr> # [\<lparr>username = ''admin'', passwordHash = ''new''\<rparr>])"
    and no: "\<not> compareSync (crypt demo_cfg) ''new'' (passwordHash \<lparr>username = ''admin'', passwordHash = ''old''\<rparr>)"
    by (simp_all add: demo_simps eval_simps)
  show ?thesis
    using login_first_match_decides [OF ex rd no] by (simp add: demo_simps)
qed

text \<open>
  C14. A submitted user name that matches a record, with a password field that is not a
  string (absent, or an array or object that the extended body parser builds from a
  repeated or bracketed field), makes \<open>bcrypt.compareSync\<close> throw; the exception
  escapes the handler and Express answers with its error page instead of the login form.
\<close>

theorem login_without_password_throws:
  assumes "existsSync w (auth_path cfg)" and "read_auth_users w (auth_path cfg) = Inr users"
    and "find_user users (field_string u) = Some c" and "field_string pw = None"
  shows "post_login cfg w u pw s =
    (ServerError (''Illegal arguments: '' @ field_typeof pw @ '', string''), Keep s)"
  using assms by (auto simp: post_login_def check_password_def field_string_def
      split: option.splits form_value.splits)

theorem login_without_password_throws_witness:
  "post_login demo_cfg demo_world (Some (FStr ''admin'')) None fresh_session =
     (ServerError ''Illegal arguments: undefined, string'', Keep fresh_session) \<and>
   post_login demo_cfg demo_world (Some (FStr ''admin''))
     (Some (FArray [FStr ''password123'', FStr ''x''])) fresh_session =
     (ServerError ''Illegal arguments: object, string'', Keep fresh_session)"
proof -
  have ex: "existsSync demo_world (auth_path demo_cfg)"
    and rd: "read_auth_users demo_world (auth_path demo_cfg) =
        Inr [\<lparr>username = ''admin'', passwordHash = ''password123''\<rparr>]"
    and fu: "find_user [\<lparr>username = ''admin'', passwordHash = ''password123''\<rparr>]
        (field_string (Some (FStr ''admin''))) = Some \<lparr>username = ''admin'', passwordHash = ''password123''\<rparr>"
    by (simp_all add: demo_simps eval_simps)
  have n1: "field_string (None :: form_value option) = None"
    and n2: "field_string (Some (FArray [FStr ''password123'', FStr ''x''])) = None"
    by (simp_all add: field_string_def)
  show ?thesis
    using login_without_password_throws [OF ex rd fu n1, of fresh_session]
      login_without_password_throws [OF ex rd fu n2, of fresh_session]
    by (simp add: field_typeof_def)
qed

subsection \<open>Provisioning and login\<close>

text \<open>
  C15. Round trip of provisioning and login: when \<open>init-auth.js\<close> has written the
  credential file at the path the server reads, and bcrypt meets its contract, logging
  in as \<open>admin\<close> with \<open>password123\<close> succeeds, from any session.
\<close>

theorem provisioned_admin_logs_in:
  assumes ok: "bcrypt_ok (crypt cfg)" and nonempty: "auth_path cfg \<noteq> []"
    and prov: "init_auth (crypt cfg) salt (auth_path cfg) w = Inr w'"
  shows "post_login cfg w' (Some (FStr default_username)) (Some (FStr default_password)) s =
    (Redirect ''/'', Keep (s\<lparr>user := Some default_username\<rparr>))"
proof -
  let ?c = "\<lparr>username = default_username, passwordHash = hashpw (crypt cfg) salt default_password\<rparr>"
  from prov have w': "w' = w\<lparr>files := (files w)(resolve w (auth_path cfg) \<mapsto> File (AuthJson [?c]))\<rparr>"
    by (simp add: init_auth_def split: if_splits)
  then have "existsSync w' (auth_path cfg)" and "read_auth_users w' (auth_path cfg) = Inr [?c]"
    using nonempty by (simp_all add: existsSync_def read_auth_users_def lookup_path_def)
  moreover have "compareSync (crypt cfg) default_password (hashpw (crypt cfg) salt default_password)"
    using ok by (simp add: bcrypt_ok_def)
  ultimately show ?thesis
    by (simp add: post_login_def check_password_def find_user_def)
qed

theorem provisioned_admin_logs_in_witness:
  "bcrypt_ok demo_bcrypt \<and>
   post_login demo_cfg \<lparr>files = Map.empty, resolve = id, clock = 0\<rparr>
     (Some (FStr ''admin'')) (Some (FStr ''password123'')) fresh_session = (RenderLogin (Some auth_missing_msg), Keep fresh_session) \<and>
   post_login demo_cfg (projr (init_auth demo_bcrypt ''salt'' ''auth.json'' \<lparr>files = Map.empty, resolve = id, clock = 0\<rparr>))
     (Some (FStr ''admin'')) (Some (FStr ''password123'')) fresh_session =
     (Redirect ''/'', Keep (fresh_session\<lparr>user := Some ''admin''\<rparr>))"
proof -
  have ok: "bcrypt_ok (crypt demo_cfg)" by (simp add: demo_simps bcrypt_ok_def)
  have ne: "auth_path demo_cfg \<noteq> []" by (simp add: demo_simps)
  have prov: "init_auth (crypt demo_cfg) ''salt'' (auth_path demo_cfg) \<lparr>files = Map.empty, resolve = id, clock = 0\<rparr> =
      Inr (projr (init_auth demo_bcrypt ''salt'' ''auth.json'' \<lparr>files = Map.empty, resolve = id, clock = 0\<rparr>))"
    by (simp add: demo_simps eval_simps)
  have before: "post_login demo_cfg \<lparr>files = Map.empty, resolve = id, clock = 0\<rparr>
     (Some (FStr ''admin'')) (Some (FStr ''password123'')) fresh_session = (RenderLogin (Some auth_missing_msg), Keep fresh_session)"
    by (simp add: demo_simps eval_simps)
  show ?thesis
    using ok before provisioned_admin_logs_in [OF ok ne prov]
    by (simp add: demo_simps default_username_def default_password_def bcrypt_ok_def)
qed



subsection \<open>Refinement of the specification's session state machine\<close>

text \<open>
  C17. Every request the server handles, in any reachable state, moves the requesting
  browser's session along a step of the specification's state machine (login from
  \<open>Anonymous\<close>, re-login, bind to an existing path, logout or expiry to \<open>Anonymous\<close>, or
  no change), and leaves the sessions of all other browsers as they were.
\<close>

theorem serve_refines_spec:
  assumes reach: "reachable cfg srv"
  shows "spec_step w (abs_session (load_session (store srv) i (clock w)))
           (abs_session (load_session (store (snd (serve cfg w i req srv))) i (clock w))) \<and>
         (\<forall>j. j \<noteq> i \<longrightarrow> store (snd (serve cfg w i req srv)) j = store srv j)"
proof -
  from reach have "spec_step w (abs_session (load_session (store srv) i (clock w)))
      (abs_session (load_session (store (snd (serve cfg w i req srv))) i (clock w)))"
    by (rule serve_spec_step)
  moreover have "\<forall>j. j \<noteq> i \<longrightarrow> store (snd (serve cfg w i req srv)) j = store srv j"
    by (simp add: serve_components)
  ultimately show ?thesis by simp
qed

theorem serve_refines_spec_witness:
  "abs_session (load_session (store demo_server) 3 (clock demo_world)) = Anonymous \<and>
   abs_session (load_session (store (snd (serve demo_cfg demo_world 3
       (PostLogin (Some (FStr ''admin'')) (Some (FStr ''password123''))) demo_server))) 3 (clock demo_world)) =
     Authenticated ''admin'' None \<and>
   spec_step demo_world Anonymous (Authenticated ''admin'' None)"
proof -
  have before: "abs_session (load_session (store demo_server) 3 (clock demo_world)) = Anonymous"
    and after: "abs_session (load_session (store (snd (serve demo_cfg demo_world 3
       (PostLogin (Some (FStr ''admin'')) (Some (FStr ''password123''))) demo_server))) 3 (clock demo_world)) =
     Authenticated ''admin'' None"
    by (simp_all add: demo_simps eval_simps abs_session_def)
  show ?thesis
    using before after serve_refines_spec [OF demo_server_reachable, of demo_world 3
        "PostLogin (Some (FStr ''admin'')) (Some (FStr ''password123''))"]
    by simp
qed

subsection \<open>The gate, logout and expiry\<close>

text \<open>
  C18. A \<open>GET /\<close> or \<open>POST /set-db\<close> from a browser without a live session (none stored, or
  expired) is redirected to \<open>/login\<close> without running the handler: the registry is not
  touched and nothing is stored for the browser (an expired entry is dropped).
\<close>

theorem unauthenticated_requests_redirected:
  assumes anon: "load_session (store srv) i (clock w) = None"
    and guarded: "req = GetHome \<or> (\<exists>d. req = PostSetDb d)"
  shows "serve cfg w i req srv = (Redirect ''/login'', \<lparr>store = (store srv)(i := None), reg = reg srv\<rparr>)"
proof -
  from guarded have "dispatch cfg w req fresh_session (reg srv) =
      (Redirect ''/login'', Keep fresh_session, reg srv)"
    by auto
  with anon show ?thesis
    by (simp add: serve_components save_session_def)
qed

theorem unauthenticated_requests_redirected_witness:
  "serve demo_cfg demo_world 5 GetHome demo_server =
     (Redirect ''/login'', \<lparr>store = (store demo_server)(5 := None), reg = reg demo_server\<rparr>) \<and>
   serve demo_cfg demo_world 5 (PostSetDb (Some (FStr ''a.db''))) demo_server =
     (Redirect ''/login'', \<lparr>store = (store demo_server)(5 := None), reg = reg demo_server\<rparr>)"
proof -
  have anon: "load_session (store demo_server) 5 (clock demo_world) = None"
    by (simp add: demo_simps eval_simps)
  show ?thesis
    using unauthenticated_requests_redirected [OF anon, of GetHome]
      unauthenticated_requests_redirected [OF anon, of "PostSetDb (Some (FStr ''a.db''))"]
    by simp
qed

text \<open>
  C19. \<open>GET /logout\<close> removes the browser's session whatever it held (user, binding,
  pending error) and redirects to \<open>/login\<close>; a following \<open>GET /\<close> is redirected to
  \<open>/login\<close> as well and leaves the registry as it was.
\<close>

theorem logout_then_home_redirects:
  assumes r1: "serve cfg w1 i GetLogout srv = (resp1, srv1)"
    and r2: "serve cfg w2 i GetHome srv1 = (resp2, srv2)"
  shows "resp1 = Redirect ''/login'' \<and> store srv1 i = None \<and>
         resp2 = Redirect ''/login'' \<and> store srv2 i = None \<and> reg srv2 = reg srv"
proof -
  from r1 have e1: "resp1 = Redirect ''/login''"
    and srv1: "srv1 = \<lparr>store = (store srv)(i := None), reg = reg srv\<rparr>"
    by (auto simp: serve_components get_logout_def save_session_def)
  then have l2: "load_session (store srv1) i (clock w2) = None"
    by (simp add: load_session_def)
  have d2: "dispatch cfg w2 GetHome fresh_session (reg srv1) =
      (Redirect ''/login'', Keep fresh_session, reg srv1)"
    by simp
  from serve_step_fresh [OF l2 d2 r2] have "resp2 = Redirect ''/login''"
    and "srv2 = \<lparr>store = save_session (store srv1) i (clock w2) None (Keep fresh_session), reg = reg srv1\<rparr>"
    by simp_all
  with e1 srv1 show ?thesis
    by (simp add: save_session_def)
qed

theorem logout_then_home_redirects_witness:
  "fst (serve demo_cfg demo_world 2 GetLogout demo_server) = Redirect ''/login'' \<and>
   fst (serve demo_cfg demo_world 2 GetHome (snd (serve demo_cfg demo_world 2 GetLogout demo_server))) =
     Redirect ''/login''"
  using logout_then_home_redirects [OF surjective_pairing surjective_pairing,
      of demo_cfg demo_world 2 demo_server demo_world]
  by simp

text \<open>
  C20. A session is not loaded once its expiry in the store or the expiry of the
  browser's cookie has passed (the browser then no longer sends the cookie): the
  browser's next \<open>GET /\<close> is redirected to \<open>/login\<close> and the stale entry is dropped,
  with the registry untouched.
\<close>

theorem expired_session_redirected:
  assumes stored: "store srv i = Some e"
    and expired: "expires e \<le> clock w \<or> cookie_expires e \<le> clock w"
  shows "serve cfg w i GetHome srv = (Redirect ''/login'', \<lparr>store = (store srv)(i := None), reg = reg srv\<rparr>)"
proof -
  from stored expired have "load_session (store srv) i (clock w) = None"
    by (auto simp: load_session_def)
  then show ?thesis
    by (simp add: serve_components save_session_def)
qed

theorem expired_session_redirected_witness:
  "fst (serve demo_cfg (demo_world\<lparr>clock := 1000 + max_age\<rparr>) 2 GetHome demo_server) = Redirect ''/login''"
proof -
  let ?e = "\<lparr>sdata = \<lparr>user = Some ''admin'', dbPath = Some ''a.db'', dbError = Null\<rparr>,
      expires = 1000 + max_age, cookie_expires = 1000 + max_age\<rparr>"
  have stored: "store demo_server 2 = Some ?e"
    by (simp add: demo_simps eval_simps)
  have expired: "expires ?e \<le> clock (demo_world\<lparr>clock := 1000 + max_age\<rparr>) \<or>
      cookie_expires ?e \<le> clock (demo_world\<lparr>clock := 1000 + max_age\<rparr>)"
    by simp
  show ?thesis using expired_session_redirected [OF stored expired] by simp
qed

subsection \<open>Binding a path\<close>

text \<open>
  C21. Binding is idempotent: a logged-in browser not yet bound to an existing path
  that submits it twice (within an hour) is redirected home both times, is bound to that
  path after each, gets no error from either, and the registry is not touched. The
  second bind changes nothing in the session, so the store renews its expiry but the
  browser's cookie keeps the one set by the first.
\<close>

theorem bind_idempotent:
  assumes loaded: "load_session (store srv) i (clock w1) = Some s" and auth: "user s \<noteq> None"
    and unbound: "dbPath s \<noteq> Some p"
    and ex1: "existsSync w1 p" and ex2: "existsSync w2 p" and t2: "clock w2 < clock w1 + max_age"
    and r1: "serve cfg w1 i (PostSetDb (Some (FStr p))) srv = (resp1, srv1)"
    and r2: "serve cfg w2 i (PostSetDb (Some (FStr p))) srv1 = (resp2, srv2)"
  shows "resp1 = Redirect ''/'' \<and> resp2 = Redirect ''/'' \<and>
    store srv1 i = Some \<lparr>sdata = s\<lparr>dbPath := Some p\<rparr>, expires = clock w1 + max_age,
                         cookie_expires = clock w1 + max_age\<rparr> \<and>
    store srv2 i = Some \<lparr>sdata = s\<lparr>dbPath := Some p\<rparr>, expires = clock w2 + max_age,
                         cookie_expires = clock w1 + max_age\<rparr> \<and>
    reg srv2 = reg srv"
proof -
  let ?s1 = "s\<lparr>dbPath := Some p\<rparr>"
  from unbound have ne1: "?s1 \<noteq> s" by (auto dest: arg_cong [where f = dbPath])
  from ex1 have ne: "p \<noteq> []" by (simp add: existsSync_def)
  have d1: "dispatch cfg w1 (PostSetDb (Some (FStr p))) s (reg srv) = (Redirect ''/'', Keep ?s1, reg srv)"
    using auth ex1 ne by (simp add: post_set_db_def with_reg_def)
  from serve_step [OF loaded d1 r1] have e1: "resp1 = Redirect ''/''"
    and srv1: "srv1 = \<lparr>store = save_session (store srv) i (clock w1) (Some s) (Keep ?s1), reg = reg srv\<rparr>"
    by simp_all
  from srv1 t2 ne1 have l2: "load_session (store srv1) i (clock w2) = Some ?s1"
    by (simp add: load_save_changed)
  have d2: "dispatch cfg w2 (PostSetDb (Some (FStr p))) ?s1 (reg srv1) = (Redirect ''/'', Keep ?s1, reg srv1)"
    using auth ex2 ne by (simp add: post_set_db_def with_reg_def)
  from serve_step [OF l2 d2 r2] have e2: "resp2 = Redirect ''/''"
    and srv2: "srv2 = \<lparr>store = save_session (store srv1) i (clock w2) (Some ?s1) (Keep ?s1), reg = reg srv1\<rparr>"
    by simp_all
  from srv1 ne1 have st1: "store srv1 i =
      Some \<lparr>sdata = ?s1, expires = clock w1 + max_age, cookie_expires = clock w1 + max_age\<rparr>"
    by (simp add: save_changed)
  with srv2 t2 have "store srv2 i =
      Some \<lparr>sdata = ?s1, expires = clock w2 + max_age, cookie_expires = clock w1 + max_age\<rparr>"
    by (simp add: save_unchanged)
  with e1 e2 st1 srv1 srv2 show ?thesis by simp
qed

theorem bind_idempotent_witness:
  "let srv1 = snd (serve demo_cfg demo_world 1 (PostSetDb (Some (FStr ''a.db''))) demo_idle_server)
   in fst (serve demo_cfg demo_world 1 (PostSetDb (Some (FStr ''a.db''))) demo_idle_server) = Redirect ''/'' \<and>
      store (snd (serve demo_cfg demo_world 1 (PostSetDb (Some (FStr ''a.db''))) srv1)) 1 =
        Some \<lparr>sdata = \<lparr>user = Some ''admin'', dbPath = Some ''a.db'', dbError = Null\<rparr>,
              expires = 1000 + max_age, cookie_expires = 1000 + max_age\<rparr>"
proof -
  have loaded: "load_session (store demo_idle_server) 1 (clock demo_world) =
      Some \<lparr>user = Some ''admin'', dbPath = None, dbError = Null\<rparr>"
    by (simp add: demo_simps eval_simps)
  have ex: "existsSync demo_world ''a.db''" by (simp add: demo_simps eval_simps)
  have t2: "clock demo_world < clock demo_world + max_age" by (simp add: max_age_def)
  show ?thesis
    using bind_idempotent [OF loaded _ _ ex ex t2 surjective_pairing surjective_pairing]
    by (simp add: Let_def demo_world_def)
qed



subsection \<open>Paths are cached by their spelling\<close>

text \<open>
  C23. The registry is keyed by the path string, not by the file: when a file is cached
  under one spelling, a request with another spelling of the same file (\<open>./a.db\<close> for
  \<open>a.db\<close>) opens a second handle to that file.
\<close>

theorem aliased_paths_open_twice:
  assumes inv: "registry_inv r" and cached: "map_of (dbConnections r) p = Some h"
    and same: "resolve w q = h_file h" and ne: "q \<noteq> []"
    and uncached: "map_of (dbConnections r) q = None"
    and present: "files w (h_file h) = Some (File c)"
  shows "\<exists>h' r'. getDbConnection w q r = (Inr (Some h'), r') \<and>
           h_file h' = h_file h \<and> h_id h' \<noteq> h_id h \<and> opened r' = Suc (opened r)"
proof -
  have "sqlite_open w q = Inr (h_file h)"
    using same present by (simp add: sqlite_open_def lookup_path_def)
  with ne uncached have "getDbConnection w q r =
      (Inr (Some \<lparr>h_id = opened r, h_file = h_file h\<rparr>),
       r\<lparr>dbConnections := dbConnections r @ [(q, \<lparr>h_id = opened r, h_file = h_file h\<rparr>)],
         opened := Suc (opened r)\<rparr>)"
    by (simp add: getDbConnection_opens)
  moreover from inv cached have "h_id h < opened r" by (rule registry_inv_id_bound)
  ultimately show ?thesis by auto
qed

theorem aliased_paths_open_twice_witness:
  "getDbConnection demo_alias_world ''./a.db''
     \<lparr>dbConnections = [(''a.db'', \<lparr>h_id = 0, h_file = ''a.db''\<rparr>)], opened = 1\<rparr> =
   (Inr (Some \<lparr>h_id = 1, h_file = ''a.db''\<rparr>),
    \<lparr>dbConnections = [(''a.db'', \<lparr>h_id = 0, h_file = ''a.db''\<rparr>), (''./a.db'', \<lparr>h_id = 1, h_file = ''a.db''\<rparr>)],
     opened = 2\<rparr>)"
proof -
  let ?r = "\<lparr>dbConnections = [(''a.db'', \<lparr>h_id = 0, h_file = ''a.db''\<rparr>)], opened = 1\<rparr>"
  have inv: "registry_inv ?r" by (simp add: registry_inv_def)
  have cached: "map_of (dbConnections ?r) ''a.db'' = Some \<lparr>h_id = 0, h_file = ''a.db''\<rparr>" by simp
  have same: "resolve demo_alias_world ''./a.db'' = h_file \<lparr>h_id = 0, h_file = ''a.db''\<rparr>"
    by (simp add: demo_alias_world_def)
  have uncached: "map_of (dbConnections ?r) ''./a.db'' = None" by simp
  have present: "files demo_alias_world (h_file \<lparr>h_id = 0, h_file = ''a.db''\<rparr>) =
      Some (File (SqliteDb [(''users'', demo_users)]))"
    by (simp add: demo_alias_world_def demo_world_def)
  show ?thesis
    using aliased_paths_open_twice [OF inv cached same _ uncached present]
    by (simp add: demo_simps eval_simps)
qed

subsection \<open>The specification's end-to-end scenario\<close>


subsection \<open>Dead code\<close>

text \<open>
  C26. In every reachable state, \<open>GET /\<close> never reaches the \<open>null\<close> that
  \<open>getDbConnection\<close> returns for a falsy path (line 16): a bound path is always a
  non-empty string, so no response ever carries the \<open>TypeError\<close> of calling
  \<open>prepare\<close> on \<open>null\<close>.
\<close>

theorem null_connection_unreachable:
  assumes reach: "reachable cfg srv" and resp: "fst (serve cfg w i GetHome srv) = RenderIndex v"
  shows "iv_error v \<noteq> Some null_prepare_msg"
proof (cases "load_session (store srv) i (clock w)")
  case None
  with resp show ?thesis by (simp add: serve_components)
next
  case (Some s)
  from reach have "store_inv (store srv)"
    using reachable_server_inv by (simp add: server_inv_def)
  then have inv: "session_inv s" using Some by (rule load_session_inv)
  then have auth: "user s \<noteq> None" by (simp add: session_inv_def)
  from Some auth resp have home: "fst (get_home w s (reg srv)) = RenderIndex v"
    by (simp add: serve_components)
  have pending: "defined_value (dbError s) \<noteq> Some null_prepare_msg"
    using inv by (auto simp: session_inv_def defined_value_def invalid_path_msg_def null_prepare_msg_def
      split: nullable.splits)
  have sql: "sql_message e \<noteq> null_prepare_msg" for e
    by (cases e) (simp_all add: null_prepare_msg_def)
  show ?thesis
  proof (cases "truthy (dbPath s)")
    case False
    with home pending show ?thesis by (auto simp: get_home_unbound)
  next
    case True
    then have ne: "the (dbPath s) \<noteq> []" by (auto elim: truthyE)
    show ?thesis
    proof (cases rule: getDbConnection_cases [of "the (dbPath s)" w "reg srv"])
      case null
      with ne show ?thesis by simp
    next
      case (cached h)
      with True home pending sql show ?thesis
        by (auto simp: get_home_connected failed_view_def split: sum.splits)
    next
      case (opens f)
      with True home pending sql show ?thesis
        by (auto simp: get_home_connected failed_view_def split: sum.splits)
    next
      case (fails e)
      with True home show ?thesis
        by (auto simp: get_home_conn_error failed_view_def null_prepare_msg_def)
    qed
  qed
qed

theorem null_connection_unreachable_witness:
  "fst (serve demo_cfg demo_world 2 GetHome demo_server) =
     RenderIndex \<lparr>iv_user = Some ''admin'', iv_columns = [''id'', ''name''],
                  iv_rows = [[(''id'', SqlInteger 1), (''name'', SqlText ''ann'')],
                             [(''id'', SqlInteger 2), (''name'', SqlText ''bob'')]],
                  iv_dbPath = ''a.db'', iv_error = None\<rparr> \<and>
   None \<noteq> Some null_prepare_msg"
proof -
  have resp: "fst (serve demo_cfg demo_world 2 GetHome demo_server) =
     RenderIndex \<lparr>iv_user = Some ''admin'', iv_columns = [''id'', ''name''],
                  iv_rows = [[(''id'', SqlInteger 1), (''name'', SqlText ''ann'')],
                             [(''id'', SqlInteger 2), (''name'', SqlText ''bob'')]],
                  iv_dbPath = ''a.db'', iv_error = None\<rparr>"
    by (simp add: demo_simps eval_simps)
  show ?thesis
    using resp null_connection_unreachable [OF demo_server_reachable resp] by simp
qed


subsection \<open>Requests of different browsers commute\<close>

text \<open>
  C27. Node.js may run the requests of two browsers in either order. Whichever runs
  first, in the same world each browser gets the same response, the session store ends
  the same, and the registry ends attaching the same files to the same path strings:
  the order decides only which handle was created first. The world may have changed
  before the pair; it is the same for both requests.
\<close>

theorem requests_commute:
  assumes ij: "i \<noteq> j"
    and o1: "serve cfg w i qi srv = (ri, srv1)" "serve cfg w j qj srv1 = (rj, srv2)"
    and o2: "serve cfg w j qj srv = (rj', srv1')" "serve cfg w i qi srv1' = (ri', srv2')"
  shows "ri' = ri \<and> rj' = rj \<and> store srv2' = store srv2 \<and>
         reg_files (reg srv2') = reg_files (reg srv2)"
proof -
  from o1(1) o2(1) have e1: "srv1 = snd (serve cfg w i qi srv)" and e2: "srv1' = snd (serve cfg w j qj srv)"
    by simp_all
  have ci: "fst (serve cfg w i qi srv1') = fst (serve cfg w i qi srv) \<and>
      store (snd (serve cfg w i qi srv1')) i = store (snd (serve cfg w i qi srv)) i"
    unfolding e2 using ij by (intro serve_cong) (simp_all add: serve_store_other serve_conn_view)
  have cj: "fst (serve cfg w j qj srv1) = fst (serve cfg w j qj srv) \<and>
      store (snd (serve cfg w j qj srv1)) j = store (snd (serve cfg w j qj srv)) j"
    unfolding e1 using ij by (intro serve_cong) (simp_all add: serve_store_other serve_conn_view)
  have h1: "store srv2 j = store srv1' j" and h2: "store srv2' i = store srv1 i"
    using ci cj o1 o2 by simp_all
  have "store srv2' k = store srv2 k" for k
  proof -
    have u: "store s' k = store s k" if "serve cfg w n q s = (r, s')" and "k \<noteq> n" for n q s r s'
      using serve_store_other [OF \<open>k \<noteq> n\<close>, of cfg w q s] that(1) by simp
    show ?thesis
    proof (cases "k = i")
      case True
      with ij u [OF o1(2)] h2 show ?thesis by simp
    next
      case False
      note ki = this
      show ?thesis
      proof (cases "k = j")
        case True
        with ij u [OF o2(2)] h1 show ?thesis by simp
      next
        case False
        with ki u [OF o1(1)] u [OF o1(2)] u [OF o2(1)] u [OF o2(2)] show ?thesis by simp
      qed
    qed
  qed
  then have "store srv2' = store srv2" by (simp add: fun_eq_iff)
  moreover have "reg_files (reg srv2') = reg_files (reg srv2)"
  proof -
    let ?si = "current_session (load_session (store srv) i (clock w))"
    let ?sj = "current_session (load_session (store srv) j (clock w))"
    from ij have "load_session (store srv1) j (clock w) = load_session (store srv) j (clock w)"
      and "load_session (store srv1') i (clock w) = load_session (store srv) i (clock w)"
      unfolding e1 e2 by (simp_all add: serve_other_load)
    then have "reg_files (reg srv2) = request_files w qj ?sj (request_files w qi ?si (reg_files (reg srv)))"
      and "reg_files (reg srv2') = request_files w qi ?si (request_files w qj ?sj (reg_files (reg srv)))"
      using serve_reg_files [of cfg w j qj srv1] serve_reg_files [of cfg w i qi srv1']
        o1(2) o2(2) unfolding e1 e2 by (simp_all add: serve_reg_files)
    then show ?thesis by (simp add: request_files_commute)
  qed
  ultimately show ?thesis using ci cj o1 o2 by simp
qed

theorem requests_commute_witness:
  "fst (serve demo_cfg demo_world 1 GetHome (snd (serve demo_cfg demo_world 2 GetHome demo_pre_home))) =
     fst (serve demo_cfg demo_world 1 GetHome demo_pre_home) \<and>
   fst (serve demo_cfg demo_world 2 GetHome demo_pre_home) =
     fst (serve demo_cfg demo_world 2 GetHome (snd (serve demo_cfg demo_world 1 GetHome demo_pre_home))) \<and>
   store (snd (serve demo_cfg demo_world 1 GetHome (snd (serve demo_cfg demo_world 2 GetHome demo_pre_home)))) =
     store (snd (serve demo_cfg demo_world 2 GetHome (snd (serve demo_cfg demo_world 1 GetHome demo_pre_home)))) \<and>
   reg_files (reg (snd (serve demo_cfg demo_world 1 GetHome (snd (serve demo_cfg demo_world 2 GetHome demo_pre_home))))) =
     reg_files (reg (snd (serve demo_cfg demo_world 2 GetHome (snd (serve demo_cfg demo_world 1 GetHome demo_pre_home)))))"
  using requests_commute [of 1 2, OF _ surjective_pairing surjective_pairing surjective_pairing surjective_pairing]
  by simp


subsection \<open>Whole runs against the specification\<close>

text \<open>
  C28. Along any run of requests from any browsers, started in a reachable state and with
  a clock that does not go back, what one browser observes of its own session is a
  behaviour of the specification's state machine: across each of its own requests a
  \<open>spec_step\<close> in that request's world, across another browser's request no change, and
  between two requests no change or expiry to \<open>Anonymous\<close>.
\<close>

theorem run_refines_spec:
  assumes "reachable cfg srv" and "sorted (map (clock \<circ> fst) evs)"
  shows "spec_trace (abs_run cfg i evs srv)"
  using assms
proof (induction evs arbitrary: srv)
  case Nil
  then show ?case by simp
next
  case (Cons ev evs)
  obtain w j req where ev: "ev = (w, j, req)" by (cases ev) auto
  define srv' where "srv' = snd (serve cfg w j req srv)"
  have reach': "reachable cfg srv'"
    using Cons.prems(1) reachable.step [OF Cons.prems(1) surjective_pairing] by (simp add: srv'_def)
  from Cons.prems(2) ev have sorted': "sorted (map (clock \<circ> fst) evs)" by (simp add: comp_def)
  have own: "if j = i then spec_step w (abs_session (load_session (store srv) i (clock w)))
                             (abs_session (load_session (store srv') i (clock w)))
             else abs_session (load_session (store srv') i (clock w)) =
                  abs_session (load_session (store srv) i (clock w))"
    using serve_spec_step [OF Cons.prems(1), of w i req] serve_other_load [of j i cfg w req srv]
    by (simp add: srv'_def)
  have link: "case abs_run cfg i evs srv' of [] \<Rightarrow> True
      | (w', own', a', b') # _ \<Rightarrow> a' = abs_session (load_session (store srv') i (clock w)) \<or> a' = Anonymous"
  proof (cases "evs = []")
    case False
    then obtain w' own' b' rest where hd: "abs_run cfg i evs srv' =
        (w', own', abs_session (load_session (store srv') i (clock w')), b') # rest"
      and w': "w' = fst (hd evs)"
      using abs_run_head by blast
    from False Cons.prems(2) ev w' have "clock w \<le> clock w'"
      by (cases evs) auto
    then show ?thesis using hd by (simp add: abs_session_later)
  qed simp
  have run: "abs_run cfg i (ev # evs) srv =
      (w, j = i, abs_session (load_session (store srv) i (clock w)),
       abs_session (load_session (store srv') i (clock w))) # abs_run cfg i evs srv'"
    by (simp add: ev srv'_def Let_def)
  have "spec_trace (abs_run cfg i evs srv')" using reach' sorted' by (rule Cons.IH)
  with own link show ?case
    unfolding run by simp
qed

theorem run_refines_spec_witness:
  "abs_run demo_cfg 1 demo_requests initial_server =
     [(demo_world, True, Anonymous, Anonymous),
      (demo_world, False, Anonymous, Anonymous),
      (demo_world, True, Anonymous, Authenticated ''admin'' None),
      (demo_world, True, Authenticated ''admin'' None, Authenticated ''admin'' (Some ''a.db'')),
      (demo_world, False, Authenticated ''admin'' (Some ''a.db''), Authenticated ''admin'' (Some ''a.db'')),
      (demo_world, False, Authenticated ''admin'' (Some ''a.db''), Authenticated ''admin'' (Some ''a.db'')),
      (demo_world, True, Authenticated ''admin'' (Some ''a.db''), Authenticated ''admin'' (Some ''a.db'')),
      (demo_world, False, Authenticated ''admin'' (Some ''a.db''), Authenticated ''admin'' (Some ''a.db'')),
      (demo_world, True, Authenticated ''admin'' (Some ''a.db''), Anonymous)] \<and>
   spec_trace (abs_run demo_cfg 1 demo_requests initial_server)"
proof -
  have "sorted (map (clock \<circ> fst) demo_requests)" by (simp add: demo_requests_def)
  with run_refines_spec [OF reachable.init] have "spec_trace (abs_run demo_cfg 1 demo_requests initial_server)"
    by blast
  moreover have "abs_run demo_cfg 1 demo_requests initial_server =
     [(demo_world, True, Anonymous, Anonymous),
      (demo_world, False, Anonymous, Anonymous),
      (demo_world, True, Anonymous, Authenticated ''admin'' None),
      (demo_world, True, Authenticated ''admin'' None, Authenticated ''admin'' (Some ''a.db'')),
      (demo_world, False, Authenticated ''admin'' (Some ''a.db''), Authenticated ''admin'' (Some ''a.db'')),
      (demo_world, False, Authenticated ''admin'' (Some ''a.db''), Authenticated ''admin'' (Some ''a.db'')),
      (demo_world, True, Authenticated ''admin'' (Some ''a.db''), Authenticated ''admin'' (Some ''a.db'')),
      (demo_world, False, Authenticated ''admin'' (Some ''a.db''), Authenticated ''admin'' (Some ''a.db'')),
      (demo_world, True, Authenticated ''admin'' (Some ''a.db''), Anonymous)]"
    by (simp add: demo_requests_def Let_def) (simp add: demo_simps eval_simps abs_session_def)
  ultimately show ?thesis by simp
qed


subsection \<open>Which paths the registry opens\<close>

text \<open>
  C29. A request adds a path to \<open>dbConnections\<close> only if it is a \<open>GET /\<close> from a
  browser with a live, authenticated session whose bound path is exactly that string: an
  anonymous browser, a login, a bind or a logout never makes the server open a file.
\<close>

theorem registry_opens_only_bound_paths:
  assumes "serve cfg w i req srv = (resp, srv')"
    and "q \<in> fst ` set (dbConnections (reg srv'))"
    and "q \<notin> fst ` set (dbConnections (reg srv))"
  shows "req = GetHome \<and>
         (\<exists>s. load_session (store srv) i (clock w) = Some s \<and> user s \<noteq> None \<and> dbPath s = Some q)"
proof -
  let ?L = "load_session (store srv) i (clock w)"
  from assms(1) have "reg srv' = snd (snd (dispatch cfg w req (current_session ?L) (reg srv)))"
    by (auto simp: serve_components)
  with assms(2,3) have opened: "req = GetHome \<and> user (current_session ?L) \<noteq> None \<and>
      dbPath (current_session ?L) = Some q"
    by (intro dispatch_new_key) simp_all
  then obtain s where "?L = Some s"
    by (cases ?L) (simp_all add: fresh_session_user)
  with opened show ?thesis by simp
qed

theorem registry_opens_only_bound_paths_witness:
  "GetHome = GetHome \<and>
   (\<exists>s. load_session (store demo_pre_home) 1 (clock demo_world) = Some s \<and> user s \<noteq> None \<and>
        dbPath s = Some ''a.db'')"
proof -
  have after: "''a.db'' \<in> fst ` set (dbConnections (reg (snd (serve demo_cfg demo_world 1 GetHome demo_pre_home))))"
    by (simp add: demo_simps eval_simps)
  have before: "''a.db'' \<notin> fst ` set (dbConnections (reg demo_pre_home))"
    by (simp add: demo_simps eval_simps)
  show ?thesis
    using registry_opens_only_bound_paths [OF surjective_pairing after before] by simp
qed


subsection \<open>The credential file\<close>

text \<open>
  C30. \<open>POST /login\<close> shows the guidance to run \<open>init-auth.js\<close> exactly when nothing
  exists at \<open>AUTH_PATH\<close>: absence of the credential store is reported apart from every
  other outcome, as the specification asks.
\<close>

theorem login_absence_reported_distinctly:
  "fst (post_login cfg w u pw s) = RenderLogin (Some auth_missing_msg) \<longleftrightarrow>
   \<not> existsSync w (auth_path cfg)"
proof -
  have "auth_missing_msg \<noteq> invalid_login_msg"
    by (simp add: auth_missing_msg_def invalid_login_msg_def)
  then show ?thesis
    by (auto simp: post_login_def check_password_def
        split: sum.splits option.splits bool.splits)
qed

text \<open>
  C31. When something exists at \<open>AUTH_PATH\<close> but it is not a credential file, the
  handler throws before comparing anything: \<open>EISDIR\<close> from \<open>fs.readFileSync\<close> on a
  directory, a \<open>SyntaxError\<close> from \<open>JSON.parse\<close> on a file that is not JSON, a
  \<open>TypeError\<close> from \<open>.users.find\<close> on JSON without \<open>users\<close>. Express answers with its
  error page and the session is unchanged; the specification wants a parse failure
  reported to the caller.
\<close>

theorem login_unusable_credentials_throw:
  assumes "existsSync w (auth_path cfg)" and "lookup_path w (auth_path cfg) = Some e"
    and "\<forall>cs. e \<noteq> File (AuthJson cs)"
  shows "post_login cfg w u pw s =
    (ServerError (case e of Dir \<Rightarrow> eisdir_read_msg | File JsonWithoutUsers \<Rightarrow> no_users_msg
                  | File _ \<Rightarrow> json_syntax_msg), Keep s)"
proof (cases e)
  case (File c)
  with assms show ?thesis by (cases c) (auto simp: post_login_def read_auth_users_def)
qed (use assms in \<open>simp add: post_login_def read_auth_users_def\<close>)

theorem login_unusable_credentials_throw_witness:
  "post_login demo_cfg (demo_world\<lparr>files := (files demo_world)(''auth.json'' \<mapsto> Dir)\<rparr>)
     (Some (FStr ''admin'')) (Some (FStr ''password123'')) fresh_session =
     (ServerError ''EISDIR: illegal operation on a directory, read'', Keep fresh_session) \<and>
   post_login demo_cfg (demo_world\<lparr>files := (files demo_world)(''auth.json'' \<mapsto> File (SqliteDb []))\<rparr>)
     (Some (FStr ''admin'')) (Some (FStr ''password123'')) fresh_session =
     (ServerError json_syntax_msg, Keep fresh_session)"
proof -
  let ?w1 = "demo_world\<lparr>files := (files demo_world)(''auth.json'' \<mapsto> Dir)\<rparr>"
  let ?w2 = "demo_world\<lparr>files := (files demo_world)(''auth.json'' \<mapsto> File (SqliteDb []))\<rparr>"
  have e1: "existsSync ?w1 (auth_path demo_cfg)" and l1: "lookup_path ?w1 (auth_path demo_cfg) = Some Dir"
    and e2: "existsSync ?w2 (auth_path demo_cfg)"
    and l2: "lookup_path ?w2 (auth_path demo_cfg) = Some (File (SqliteDb []))"
    by (simp_all add: demo_simps eval_simps)
  have n1: "\<forall>cs. Dir \<noteq> File (AuthJson cs)" and n2: "\<forall>cs. File (SqliteDb []) \<noteq> File (AuthJson cs)"
    by simp_all
  show ?thesis
    using login_unusable_credentials_throw [OF e1 l1 n1, of "Some (FStr ''admin'')" "Some (FStr ''password123'')" fresh_session]
      login_unusable_credentials_throw [OF e2 l2 n2, of "Some (FStr ''admin'')" "Some (FStr ''password123'')" fresh_session]
    by (simp add: eisdir_read_msg_def)
qed


subsection \<open>How long a session lives\<close>





subsection \<open>Form fields that are not strings\<close>




subsection \<open>The shape of the table view\<close>

text \<open>
  C35. When every \<open>users\<close> table in the world is well formed (as SQLite keeps it), every
  row the home page renders has distinct keys and exactly the column names the page
  lists: \<open>Object.keys\<close> of the first row reorders the columns but neither adds nor
  drops one, so the template can look each column up in each row.
\<close>

theorem home_rows_match_columns:
  assumes wf: "\<forall>f db tb. files w f = Some (File (SqliteDb db)) \<longrightarrow> map_of db ''users'' = Some tb \<longrightarrow>
                 wf_table tb"
    and resp: "fst (get_home w s r) = RenderIndex v"
  shows "\<forall>row \<in> set (iv_rows v). distinct (map fst row) \<and> set (map fst row) = set (iv_columns v)"
  using get_home_rows [OF resp]
proof
  assume "iv_rows v = []"
  then show ?thesis by simp
next
  assume "\<exists>f db tb. files w f = Some (File (SqliteDb db)) \<and> map_of db ''users'' = Some tb \<and>
       iv_rows v = map (row_object tb) (tdata tb) \<and> iv_columns v = home_columns (iv_rows v)"
  then obtain f db tb where "files w f = Some (File (SqliteDb db))" and "map_of db ''users'' = Some tb"
    and rows: "iv_rows v = map (row_object tb) (tdata tb)" and cols: "iv_columns v = home_columns (iv_rows v)"
    by blast
  with wf have tb: "wf_table tb" by blast
  then have keys: "map fst (row_object tb vs) = tcols tb" if "vs \<in> set (tdata tb)" for vs
    using that by (rule row_object_keys)
  have cset: "set (iv_columns v) = set (tcols tb)" if "tdata tb \<noteq> []"
  proof -
    from that have "set (map fst (row_object tb (hd (tdata tb)))) = set (tcols tb)"
      using keys [OF hd_in_set [OF that]] by simp
    with that cols rows show ?thesis
      by (simp add: home_columns_table [OF tb] set_object_keys)
  qed
  show ?thesis
  proof
    fix row assume "row \<in> set (iv_rows v)"
    with rows obtain vs where vs: "vs \<in> set (tdata tb)" and row: "row = row_object tb vs" by auto
    from vs row have "map fst row = tcols tb" by (simp add: keys)
    moreover from vs have "tdata tb \<noteq> []" by auto
    ultimately show "distinct (map fst row) \<and> set (map fst row) = set (iv_columns v)"
      using tb cset by (simp add: wf_table_def)
  qed
qed

theorem home_rows_match_columns_witness:
  "fst (get_home demo_world demo_bound_session empty_registry) =
     RenderIndex \<lparr>iv_user = Some ''admin'', iv_columns = [''id'', ''name''],
        iv_rows = [[(''id'', SqlInteger 1), (''name'', SqlText ''ann'')],
                   [(''id'', SqlInteger 2), (''name'', SqlText ''bob'')]],
        iv_dbPath = ''a.db'', iv_error = Some invalid_path_msg\<rparr> \<and>
   distinct (map fst [(''id'', SqlInteger 1), (''name'', SqlText ''ann'')]) \<and>
   set (map fst [(''id'', SqlInteger 2), (''name'', SqlText ''bob'')]) = set [''id'', ''name'']"
proof -
  have wf: "\<forall>f db tb. files demo_world f = Some (File (SqliteDb db)) \<longrightarrow> map_of db ''users'' = Some tb \<longrightarrow>
                 wf_table tb"
    by (auto simp: demo_world_def demo_users_def wf_table_def)
  have resp: "fst (get_home demo_world demo_bound_session empty_registry) =
     RenderIndex \<lparr>iv_user = Some ''admin'', iv_columns = [''id'', ''name''],
        iv_rows = [[(''id'', SqlInteger 1), (''name'', SqlText ''ann'')],
                   [(''id'', SqlInteger 2), (''name'', SqlText ''bob'')]],
        iv_dbPath = ''a.db'', iv_error = Some invalid_path_msg\<rparr>"
    by (simp add: demo_simps eval_simps)
  show ?thesis using resp home_rows_match_columns [OF wf resp] by simp
qed


subsection \<open>Logging in always leads home\<close>

text \<open>
  C36. From any state of the server, a browser that submits credentials the credential
  file accepts is redirected home, and its next \<open>GET /\<close> in the same instant renders
  the home page for that user, whatever its session held before (no session, an expired
  one, another user's, a bound path that fails).
\<close>

theorem login_then_home_reaches_view:
  assumes ex: "existsSync w (auth_path cfg)" and rd: "read_auth_users w (auth_path cfg) = Inr users"
    and fu: "find_user users (Some u) = Some c" and pwok: "compareSync (crypt cfg) p (passwordHash c)"
    and r1: "serve cfg w i (PostLogin (Some (FStr u)) (Some (FStr p))) srv = (resp1, srv1)"
    and r2: "serve cfg w i GetHome srv1 = (resp2, srv2)"
  shows "resp1 = Redirect ''/'' \<and> (\<exists>v. resp2 = RenderIndex v \<and> iv_user v = Some u)"
proof -
  let ?L = "load_session (store srv) i (clock w)"
  let ?s = "current_session ?L"
  let ?s' = "?s\<lparr>user := Some u\<rparr>"
  from fu have "username c = u" by (auto dest: find_user_Some)
  with ex rd fu pwok have login: "post_login cfg w (Some (FStr u)) (Some (FStr p)) ?s = (Redirect ''/'', Keep ?s')"
    by (simp add: post_login_def check_password_def)
  with r1 have e1: "resp1 = Redirect ''/''"
    and srv1: "store srv1 = save_session (store srv) i (clock w) ?L (Keep ?s')" and reg1: "reg srv1 = snd (snd (dispatch cfg w (PostLogin (Some (FStr u)) (Some (FStr p))) ?s (reg srv)))"
    by (auto simp: serve_components)
  have "user ?s' \<noteq> user fresh_session" by simp
  then have "?s' \<noteq> fresh_session" by metis
  with srv1 have l2: "load_session (store srv1) i (clock w) = Some ?s'"
    by (simp add: load_save_now)
  obtain v where v: "fst (get_home w ?s' (reg srv1)) = RenderIndex v" and "iv_user v = Some u"
    using get_home_renders [of w ?s' "reg srv1"] by auto
  moreover from r2 l2 v have "resp2 = RenderIndex v"
    by (auto simp: serve_components)
  ultimately show ?thesis using e1 by blast
qed

theorem login_then_home_reaches_view_witness:
  "fst (serve demo_cfg demo_world 9 (PostLogin (Some (FStr ''admin'')) (Some (FStr ''password123''))) demo_server) =
     Redirect ''/'' \<and>
   (\<exists>v. fst (serve demo_cfg demo_world 9 GetHome (snd (serve demo_cfg demo_world 9
        (PostLogin (Some (FStr ''admin'')) (Some (FStr ''password123''))) demo_server))) = RenderIndex v \<and>
      iv_user v = Some ''admin'')"
proof -
  have ex: "existsSync demo_world (auth_path demo_cfg)"
    and rd: "read_auth_users demo_world (auth_path demo_cfg) =
        Inr [\<lparr>username = ''admin'', passwordHash = ''password123''\<rparr>]"
    and fu: "find_user [\<lparr>username = ''admin'', passwordHash = ''password123''\<rparr>] (Some ''admin'') =
        Some \<lparr>username = ''admin'', passwordHash = ''password123''\<rparr>"
    and pw: "compareSync (crypt demo_cfg) ''password123''
        (passwordHash \<lparr>username = ''admin'', passwordHash = ''password123''\<rparr>)"
    by (simp_all add: demo_simps eval_simps)
  show ?thesis
    using login_then_home_reaches_view [OF ex rd fu pw surjective_pairing surjective_pairing] by simp
qed


subsection \<open>\<open>Object.keys\<close> as one stable sort\<close>


subsection \<open>Which expiry ends a session\<close>



subsection \<open>How fast the registry grows\<close>

text \<open>
  C39. Over any run of requests, from any state, \<open>dbConnections\<close> only grows at its
  end (no entry is removed, replaced or reordered), every new entry is one
  \<open>new Database\<close>, and there are at most as many new entries as \<open>GET /\<close> requests in
  the run: no other route opens a database, and a \<open>GET /\<close> opens at most one.
\<close>

theorem registry_grows_at_end:
  "\<exists>ys. dbConnections (reg (snd (run cfg evs srv))) = dbConnections (reg srv) @ ys \<and>
        opened (reg (snd (run cfg evs srv))) = opened (reg srv) + length ys \<and>
        length ys \<le> home_requests evs"
proof (induction evs arbitrary: srv)
  case Nil
  then show ?case by simp
next
  case (Cons ev evs)
  obtain w i req where ev: "ev = (w, i, req)" by (cases ev) auto
  let ?srv1 = "snd (serve cfg w i req srv)"
  obtain ys1 where ys1: "dbConnections (reg ?srv1) = dbConnections (reg srv) @ ys1"
    "opened (reg ?srv1) = opened (reg srv) + length ys1" "length ys1 \<le> (if req = GetHome then 1 else 0)"
    using dispatch_grows [of cfg w req _ "reg srv"] by (fastforce simp: serve_components)
  obtain ys2 where ys2: "dbConnections (reg (snd (run cfg evs ?srv1))) = dbConnections (reg ?srv1) @ ys2"
    "opened (reg (snd (run cfg evs ?srv1))) = opened (reg ?srv1) + length ys2" "length ys2 \<le> home_requests evs"
    using Cons.IH [of ?srv1] by blast
  have "snd (run cfg (ev # evs) srv) = snd (run cfg evs ?srv1)"
    by (simp add: ev case_prod_unfold Let_def)
  with ys1 ys2 ev show ?case
    by (intro exI [of _ "ys1 @ ys2"]) (auto simp: home_requests_def split: if_splits)
qed

subsection \<open>Overlapping requests of one browser\<close>

text \<open>
  C40. express-session reads a session when a request arrives and writes it back when
  the handler ends, and a changed session is written whole. So when a \<open>POST /set-db\<close>
  and a \<open>GET /\<close> of the same browser both read its session before either handler has
  run (a double submit, or two tabs), and the session has a pending or absent error:
  the bind succeeds and is stored, then the home view, which clears the error, writes
  back the session it read, and the new binding is lost, although the browser was told
  the bind succeeded.
\<close>

theorem overlapping_bind_lost:
  assumes l1: "load_session (store srv) i t1 = Some s" and l2: "load_session (store srv) i t2 = Some s"
    and auth: "user s \<noteq> None" and pending: "dbError s \<noteq> Null"
    and bind: "field_truthy d" "existsSync_value w1 d" and new: "field_string d \<noteq> dbPath s"
    and r1: "finish cfg w1 (arrive i (PostSetDb d) t1 srv) srv = (resp1, srv1)"
    and r2: "finish cfg w2 (arrive i GetHome t2 srv) srv1 = (resp2, srv2)"
  shows "resp1 = Redirect ''/'' \<and>
         store srv1 i = Some \<lparr>sdata = s\<lparr>dbPath := field_string d\<rparr>, expires = clock w1 + max_age,
                              cookie_expires = clock w1 + max_age\<rparr> \<and>
         store srv2 i = Some \<lparr>sdata = s\<lparr>dbError := Null\<rparr>, expires = clock w2 + max_age,
                              cookie_expires = clock w2 + max_age\<rparr>"
proof -
  have ne1: "s\<lparr>dbPath := field_string d\<rparr> \<noteq> s" using new by (auto dest: arg_cong [where f = dbPath])
  have ne2: "s\<lparr>dbError := Null\<rparr> \<noteq> s" using pending by (auto dest: arg_cong [where f = dbError])
  from r1 l1 auth bind have e1: "resp1 = Redirect ''/''"
    and srv1: "srv1 = \<lparr>store = save_session (store srv) i (clock w1) (Some s) (Keep (s\<lparr>dbPath := field_string d\<rparr>)),
                       reg = reg srv\<rparr>"
    by (auto simp: finish_components arrive_def gated_def isAuthenticated_def post_set_db_result)
  from r2 l2 auth have srv2: "store srv2 = save_session (store srv1) i (clock w2) (Some s) (Keep (s\<lparr>dbError := Null\<rparr>))"
    by (auto simp: finish_components arrive_def gated_def isAuthenticated_def get_home_session)
  from e1 srv1 srv2 ne1 ne2 show ?thesis by (simp add: save_changed)
qed

theorem overlapping_bind_lost_witness:
  "let bind = arrive 5 (PostSetDb (Some (FStr ''a.db''))) 1000 demo_login_server;
       home = arrive 5 GetHome 1000 demo_login_server;
       srv1 = snd (finish demo_cfg demo_world bind demo_login_server);
       srv2 = snd (finish demo_cfg demo_world home srv1)
   in fst (finish demo_cfg demo_world bind demo_login_server) = Redirect ''/'' \<and>
      dbPath (sdata (the (store srv1 5))) = Some ''a.db'' \<and>
      store srv2 5 = Some \<lparr>sdata = \<lparr>user = Some ''admin'', dbPath = None, dbError = Null\<rparr>,
                          expires = 1000 + max_age, cookie_expires = 1000 + max_age\<rparr>"
proof -
  let ?s = "\<lparr>user = Some ''admin'', dbPath = None, dbError = Undefined\<rparr>"
  let ?d = "Some (FStr ''a.db'')"
  have l: "load_session (store demo_login_server) 5 1000 = Some ?s"
    by (simp add: demo_simps eval_simps)
  have b: "field_truthy ?d" "existsSync_value demo_world ?d" "field_string ?d \<noteq> dbPath ?s"
    by (simp_all add: demo_simps eval_simps)
  note lost = overlapping_bind_lost [OF l l _ _ b surjective_pairing surjective_pairing]
  from lost show ?thesis by (simp add: Let_def demo_world_def)
qed

subsection \<open>Every HTTP request is answered\<close>

text \<open>
  C10. Express delivers every HTTP request to an answer: the walk over the application's
  layers ends, and no handler of \<open>app.js\<close> leaves a request without a response (each
  one responds or calls \<open>next()\<close>). A body the parser rejects is answered with its
  status and touches nothing. Otherwise the answer is exactly \<open>serve\<close> of the route the
  method and path stand for (paths compared without ASCII case and with an optional
  trailing slash, \<open>HEAD\<close> served as \<open>GET\<close>); any other method and path is answered
  by the final handler (\<open>404\<close>, or the allowed methods for \<open>OPTIONS\<close>), and the
  session middleware still renews the stored session.
\<close>

theorem http_request_answered:
  "serve_http cfg w i hr srv =
     Some (case h_body hr of
             Inl status \<Rightarrow> (BodyRejected status, srv)
           | Inr body \<Rightarrow>
               (case route_of (h_method hr) (h_path hr) (map_of body) of
                  Some req \<Rightarrow> (Sent (fst (serve cfg w i req srv)), snd (serve cfg w i req srv))
                | None \<Rightarrow>
                    (unrouted (h_method hr) (h_path hr),
                     srv\<lparr>store := save_session (store srv) i (clock w) (load_session (store srv) i (clock w))
                                   (Keep (current_session (load_session (store srv) i (clock w))))\<rparr>)))"
  by (simp add: serve_http_def route_walk_app serve_components Let_def case_prod_unfold
      split: sum.split option.split)

text \<open>
  On the demonstration deployment: \<open>GET /LOGIN/\<close> is the login page, \<open>OPTIONS /login\<close>
  lists \<open>GET, HEAD, POST\<close>, and \<open>POST /\<close> is not found.
\<close>

lemma routing_demo:
  "fst (the (serve_http demo_cfg demo_world 7 \<lparr>h_method = GET, h_path = ''/LOGIN/'', h_body = Inr []\<rparr> initial_server)) =
     Sent (RenderLogin None) \<and>
   fst (the (serve_http demo_cfg demo_world 7 \<lparr>h_method = OPTIONS, h_path = ''/login'', h_body = Inr []\<rparr> initial_server)) =
     Allow [GET, HEAD, POST] \<and>
   fst (the (serve_http demo_cfg demo_world 7 \<lparr>h_method = POST, h_path = ''/'', h_body = Inr []\<rparr> initial_server)) =
     NotFound POST ''/''"
  by code_simp

end
